theory Spec2Isabelle
  imports Main "HOL-Library.Word"
begin

unbundle bit_operations_syntax

section \<open>bzip2.c: the 64-bit byte totals\<close>

text \<open>
  \<^verbatim>\<open>static void uInt64_from_UInt32s ( uint64_t* n, uint32_t lo32, uint32_t hi32 )
  { *n = ((uint64_t)hi32 << 32) & (uint64_t)lo32; }\<close>
  The result written through \<open>n\<close> is the value of the function.
\<close>

definition uInt64_from_UInt32s :: "32 word \<Rightarrow> 32 word \<Rightarrow> 64 word" where
  "uInt64_from_UInt32s lo32 hi32 = push_bit 32 (ucast hi32 :: 64 word) AND (ucast lo32 :: 64 word)"

text \<open>
  \<^verbatim>\<open>static char uInt64_qrm10 ( uint64_t* n )\<close> (bzip2.c:202-207): the remainder of \<open>*n\<close> by 10
  and the quotient left in \<open>*n\<close>.
\<close>

definition uInt64_qrm10 :: "64 word \<Rightarrow> 8 word \<times> 64 word" where
  "uInt64_qrm10 n = (ucast (n mod 10), n div 10)"

text \<open>
  \<open>uInt64_toAscii\<close> (bzip2.c:213-229): the \<open>do ... while (n_copy != 0)\<close> loop that puts the
  digits into \<open>buf\<close>, least significant first (the remainder is below 10, so \<open>q + '0'\<close> is
  the character of code \<open>q + 48\<close>), and the reversed copy into \<open>outbuf\<close>.
\<close>

function uInt64_toAscii_do :: "64 word \<Rightarrow> string \<Rightarrow> string" where
  "uInt64_toAscii_do n_copy buf =
     (let (q, n_copy) = uInt64_qrm10 n_copy;
          buf = buf @ [char_of (unat q + 48)]
      in if n_copy \<noteq> 0 then uInt64_toAscii_do n_copy buf else buf)"
  by pat_completeness auto
termination
proof (relation "measure (\<lambda>(n, buf). unat n)")
  show "wf (measure (\<lambda>(n :: 64 word, buf :: string). unat n))" by simp
next
  fix n_copy :: "64 word" and buf :: string and x :: "8 word \<times> 64 word" and q :: "8 word"
    and n' :: "64 word" and buf' :: string
  assume a: "x = uInt64_qrm10 n_copy" "(q, n') = x" "n' \<noteq> 0"
  then have n: "n' = n_copy div 10" by (simp add: uInt64_qrm10_def)
  have "n_copy \<noteq> 0" using a(3) n by auto
  then have "0 < unat n_copy" by (simp add: unat_gt_0)
  then have "unat n_copy div 10 < unat n_copy" by simp
  then show "((n', buf'), (n_copy, buf)) \<in> measure (\<lambda>(n, buf). unat n)"
    using n by (simp add: unat_div)
qed

definition uInt64_toAscii :: "64 word \<Rightarrow> string" where
  "uInt64_toAscii n = rev (uInt64_toAscii_do n [])"

text \<open>
  The statistics at the end of \<open>compressStream\<close> (bzip2.c:301-326), the only caller of
  \<open>uInt64_from_UInt32s\<close>; both streams are closed by then.  \<open>verbosity\<close> is the global, the
  four halves are what \<open>BZ2_bzWriteClose64\<close> reported.  \<open>Totals\<close> carries the strings printed
  for \<open>%s in, %s out\<close>; the three ratios, computed in \<open>double\<close>, are left out.
\<close>

datatype report = Silent | No_data | Totals string string

definition compressStream_report :: "int \<Rightarrow> 32 word \<Rightarrow> 32 word \<Rightarrow> 32 word \<Rightarrow> 32 word \<Rightarrow> report" where
  "compressStream_report verbosity nbytes_in_lo32 nbytes_in_hi32 nbytes_out_lo32 nbytes_out_hi32 =
     (if verbosity \<ge> 1 then
        (if nbytes_in_lo32 = 0 \<and> nbytes_in_hi32 = 0 then No_data
         else
           (let nbytes_in = uInt64_from_UInt32s nbytes_in_lo32 nbytes_in_hi32;
                nbytes_out = uInt64_from_UInt32s nbytes_out_lo32 nbytes_out_hi32
            in Totals (uInt64_toAscii nbytes_in) (uInt64_toAscii nbytes_out)))
      else Silent)"

section \<open>decompress.c: data\<close>

text \<open>
  Conventions of the embedding.
  \<^item> \<open>int32_t\<close> variables are \<open>int\<close>: on every path from a fresh session the guards of the
    code keep them far inside the 32-bit range (lengths at most 21 bits, counts at most
    900000 plus one run), so no wrap-around is written out.  \<open>uint32_t\<close> values that are
    shifted (\<open>bsBuff\<close>, the CRCs, \<open>tt\<close>, \<open>tPos\<close>) are \<open>32 word\<close>, the byte total is a
    \<open>64 word\<close>, input bytes are \<open>8 word\<close>.  A store into a \<open>uint8_t\<close> object goes through
    \<open>uint8_t\<close> (reduction modulo 256).
  \<^item> A C array is a function from the index (an \<open>int\<close>) to the element.  An index outside
    the declared bounds, undefined behaviour in C, reads or writes a cell of the same
    model array that no in-bounds index names; distinct arrays never overlap.
  \<^item> The three row pointers \<open>gLimit\<close>, \<open>gBase\<close>, \<open>gPerm\<close> are only ever assigned
    \<open>&(s->limit[gSel][0])\<close> and its siblings, or \<open>NULL\<close>: a pointer is \<open>NULL\<close> or the row
    index it points at.  Reading through \<open>NULL\<close> is left unspecified.
  \<^item> \<open>VPrintf\<close> writes to stderr when \<open>verbosity >= 2\<close> and changes nothing of the session;
    it is left out.
\<close>

type_synonym byte = "8 word"

datatype retcode = BZ_OK | BZ_STREAM_END | BZ_MEM_ERROR | BZ_DATA_ERROR | BZ_DATA_ERROR_MAGIC

text \<open>The values of \<open>s->state\<close> that \<open>BZ2_decompress\<close> names (constants of bzlib_private.h).\<close>

datatype bz_state = BZ_X_IDLE | BZ_X_OUTPUT
  | BZ_X_MAGIC_1 | BZ_X_MAGIC_2 | BZ_X_MAGIC_3 | BZ_X_MAGIC_4
  | BZ_X_BLKHDR_1 | BZ_X_BLKHDR_2 | BZ_X_BLKHDR_3 | BZ_X_BLKHDR_4 | BZ_X_BLKHDR_5 | BZ_X_BLKHDR_6
  | BZ_X_BCRC_1 | BZ_X_BCRC_2 | BZ_X_BCRC_3 | BZ_X_BCRC_4
  | BZ_X_RANDBIT | BZ_X_ORIGPTR_1 | BZ_X_ORIGPTR_2 | BZ_X_ORIGPTR_3
  | BZ_X_MAPPING_1 | BZ_X_MAPPING_2
  | BZ_X_SELECTOR_1 | BZ_X_SELECTOR_2 | BZ_X_SELECTOR_3
  | BZ_X_CODING_1 | BZ_X_CODING_2 | BZ_X_CODING_3
  | BZ_X_MTF_1 | BZ_X_MTF_2 | BZ_X_MTF_3 | BZ_X_MTF_4 | BZ_X_MTF_5 | BZ_X_MTF_6
  | BZ_X_ENDHDR_2 | BZ_X_ENDHDR_3 | BZ_X_ENDHDR_4 | BZ_X_ENDHDR_5 | BZ_X_ENDHDR_6
  | BZ_X_CCRC_1 | BZ_X_CCRC_2 | BZ_X_CCRC_3 | BZ_X_CCRC_4

datatype rowptr = NULL | Row int

text \<open>
  \<open>bz_stream\<close>, as far as \<open>BZ2_decompress\<close> touches it.  \<open>next_in\<close> is the caller's buffer
  from the read pointer on: the \<open>avail_in\<close> bytes not yet consumed.  \<open>next_in++; avail_in--\<close>
  drops the head of the list.
\<close>

record bz_stream =
  next_in :: "byte list"
  total_in_lo32 :: "32 word"
  total_in_hi32 :: "32 word"

definition avail_in :: "bz_stream \<Rightarrow> nat" where
  "avail_in st = length (next_in st)"

text \<open>
  The automatic variables of \<open>BZ2_decompress\<close> under the comment
  \<^verbatim>\<open>/* stuff that needs to be saved/restored */\<close>, each prefixed \<open>l_\<close>.
\<close>

record locals =
  l_i :: int
  l_j :: int
  l_t :: int
  l_alphaSize :: int
  l_nGroups :: int
  l_nSelectors :: int
  l_EOB :: int
  l_groupNo :: int
  l_groupPos :: int
  l_nextSym :: int
  l_nblockMAX :: int
  l_nblock :: int
  l_es :: int
  l_N :: int
  l_curr :: int
  l_zt :: int
  l_zn :: int
  l_zvec :: int
  l_zj :: int
  l_gSel :: int
  l_gMinlen :: int
  l_gLimit :: rowptr
  l_gBase :: rowptr
  l_gPerm :: rowptr

text \<open>
  The whole frame of a call: the locals above, and the two automatic variables that live
  across a bit fetch without a slot in the save area.  \<open>l_total_in\<close> is \<open>total_in\<close>,
  initialised from the stream at entry and written back at exit.  \<open>l_base\<close> is
  \<^verbatim>\<open>int32_t base = i << 4;\<close>, declared in the block that holds
  \<open>GET_BIT(BZ_X_MAPPING_2, uc)\<close> (decompress.c:272): a call that enters through
  \<open>case BZ_X_MAPPING_2\<close> jumps past its initialiser, so there its value is indeterminate.
  (\<open>uc\<close>, \<open>minLen\<close> and \<open>maxLen\<close> are written before every read and need no field.)
\<close>

record frame = locals +
  l_base :: int
  l_total_in :: "64 word"

text \<open>\<open>DState\<close>, as far as \<open>BZ2_decompress\<close> touches it.\<close>

record DState =
  strm :: bz_stream
  state :: bz_state
  state_out_ch :: int
  state_out_len :: int
  blockRandomised :: int
  rNToGo :: int
  rTPos :: int
  bsBuff :: "32 word"
  bsLive :: int
  blockSize100k :: int
  smallDecompress :: bool
  currBlockNo :: int
  origPtr :: int
  tPos :: "32 word"
  k0 :: int
  unzftab :: "int \<Rightarrow> int"
  nblock_used :: int
  cftab :: "int \<Rightarrow> int"
  cftabCopy :: "int \<Rightarrow> int"
  tt :: "int \<Rightarrow> 32 word"
  ll16 :: "int \<Rightarrow> int"
  ll4 :: "int \<Rightarrow> int"
  storedBlockCRC :: "32 word"
  storedCombinedCRC :: "32 word"
  calculatedBlockCRC :: "32 word"
  nInUse :: int
  inUse :: "int \<Rightarrow> bool"
  inUse16 :: "int \<Rightarrow> bool"
  seqToUnseq :: "int \<Rightarrow> int"
  mtfa :: "int \<Rightarrow> int"
  mtfbase :: "int \<Rightarrow> int"
  selector :: "int \<Rightarrow> int"
  selectorMtf :: "int \<Rightarrow> int"
  len :: "int \<Rightarrow> int \<Rightarrow> int"
  limit :: "int \<Rightarrow> int \<Rightarrow> int"
  base :: "int \<Rightarrow> int \<Rightarrow> int"
  perm :: "int \<Rightarrow> int \<Rightarrow> int"
  minLens :: "int \<Rightarrow> int"
  save_i :: int
  save_j :: int
  save_t :: int
  save_alphaSize :: int
  save_nGroups :: int
  save_nSelectors :: int
  save_EOB :: int
  save_groupNo :: int
  save_groupPos :: int
  save_nextSym :: int
  save_nblockMAX :: int
  save_nblock :: int
  save_es :: int
  save_N :: int
  save_curr :: int
  save_zt :: int
  save_zn :: int
  save_zvec :: int
  save_zj :: int
  save_gSel :: int
  save_gMinlen :: int
  save_gLimit :: rowptr
  save_gBase :: rowptr
  save_gPerm :: rowptr

text \<open>
  What bzlib_private.h and huffman.c give \<open>BZ2_decompress\<close> and src/ does not hold: the
  allocator, the Huffman table builder and the macros of the inverse transform.  They
  are parameters.  Their types say what they may touch: \<open>BZALLOC\<close> only succeeds or
  fails (the contents of fresh memory are never read before they are written, so the
  model arrays keep theirs); \<open>BZ2_hbCreateDecodeTables\<close> gets the three rows it writes
  and the row of lengths and the three numbers it reads; \<open>SET_LL\<close> rewrites \<open>ll16\<close> and
  \<open>ll4\<close>; \<open>BZ_GET_SMALL\<close> and \<open>BZ_GET_FAST\<close> read the session and give the new \<open>tPos\<close>
  and the byte; the three \<open>BZ_RAND\<close> macros work on the pair \<open>(rNToGo, rTPos)\<close>.
\<close>

record bzlib_private =
  BZALLOC :: "int \<Rightarrow> int \<Rightarrow> bool"
  BZ2_hbCreateDecodeTables ::
    "(int \<Rightarrow> int) \<Rightarrow> (int \<Rightarrow> int) \<Rightarrow> (int \<Rightarrow> int) \<Rightarrow> (int \<Rightarrow> int) \<Rightarrow> int \<Rightarrow> int \<Rightarrow> int
      \<Rightarrow> (int \<Rightarrow> int) \<times> (int \<Rightarrow> int) \<times> (int \<Rightarrow> int)"
  SET_LL :: "(int \<Rightarrow> int) \<Rightarrow> (int \<Rightarrow> int) \<Rightarrow> int \<Rightarrow> int \<Rightarrow> (int \<Rightarrow> int) \<times> (int \<Rightarrow> int)"
  GET_LL :: "(int \<Rightarrow> int) \<Rightarrow> (int \<Rightarrow> int) \<Rightarrow> int \<Rightarrow> int"
  BZ_GET_SMALL :: "DState \<Rightarrow> 32 word \<times> int"
  BZ_GET_FAST :: "DState \<Rightarrow> 32 word \<times> int"
  BZ_RAND_INIT_MASK :: "int \<times> int"
  BZ_RAND_UPD_MASK :: "int \<times> int \<Rightarrow> int \<times> int"
  BZ_RAND_MASK :: "int \<times> int \<Rightarrow> int"

text \<open>
  Modelled from the spec: the constants of bzlib_private.h, which src/ does not hold.
  The magic octets \<open>0x42 0x5A 0x68 '0'+level\<close>, \<open>RUNA = 0\<close>, \<open>RUNB = 1\<close>, six groups of 50
  symbols, 18002 retained selectors, \<open>MTFA_SIZE = 4096\<close>, \<open>MTFL_SIZE = 16\<close> are the
  spec's; \<open>BZ_MAX_ALPHA_SIZE\<close> is the 256 byte values and the two extra symbols.
\<close>

definition BZ_HDR_B :: int where "BZ_HDR_B = 0x42"
definition BZ_HDR_Z :: int where "BZ_HDR_Z = 0x5a"
definition BZ_HDR_h :: int where "BZ_HDR_h = 0x68"
definition BZ_HDR_0 :: int where "BZ_HDR_0 = 0x30"
definition BZ_RUNA :: int where "BZ_RUNA = 0"
definition BZ_RUNB :: int where "BZ_RUNB = 1"
definition BZ_N_GROUPS :: int where "BZ_N_GROUPS = 6"
definition BZ_G_SIZE :: int where "BZ_G_SIZE = 50"
definition BZ_MAX_SELECTORS :: int where "BZ_MAX_SELECTORS = 2 + (900000 div BZ_G_SIZE)"
definition BZ_MAX_ALPHA_SIZE :: int where "BZ_MAX_ALPHA_SIZE = 258"
definition MTFA_SIZE :: int where "MTFA_SIZE = 4096"
definition MTFL_SIZE :: int where "MTFL_SIZE = 16"

text \<open>
  Modelled from the spec: \<open>U32_TO_U64\<close>, \<open>U64_TO_U32\<close> and \<open>BZ_INITIALISE_CRC\<close>, macros of
  bzlib_private.h.  The 64-bit totals counter is kept in the stream as its two 32-bit
  halves; the CRC starts at \<open>0xFFFFFFFF\<close>.
\<close>

definition U32_TO_U64 :: "32 word \<Rightarrow> 32 word \<Rightarrow> 64 word" where
  "U32_TO_U64 hi32 lo32 = push_bit 32 (ucast hi32) OR ucast lo32"

definition U64_TO_U32 :: "64 word \<Rightarrow> 32 word \<times> 32 word" where
  "U64_TO_U32 v = (ucast (drop_bit 32 v), ucast v)"

definition BZ_INITIALISE_CRC :: "32 word" where
  "BZ_INITIALISE_CRC = 0xffffffff"

definition uint8_t :: "int \<Rightarrow> int" where
  "uint8_t x = x mod 256"

definition uint16_t :: "int \<Rightarrow> int" where
  "uint16_t x = x mod 65536"

section \<open>decompress.c: the bit reader\<close>

text \<open>
  The \<open>while (true)\<close> of \<open>GET_BITS(lll,vvv,nnn)\<close>.  It ends in one of two ways: \<open>break\<close>
  with the value for \<open>vvv\<close> (\<open>Some\<close>), or \<open>RETURN(BZ_OK)\<close> when \<open>avail_in == 0\<close> (\<open>None\<close>).
  \<open>(1 << nnn) - 1\<close> is \<open>mask nnn\<close>.
\<close>

function GET_BITS_while :: "int \<Rightarrow> frame \<Rightarrow> DState \<Rightarrow> int option \<times> frame \<times> DState" where
  "GET_BITS_while nnn f s =
     (if bsLive s \<ge> nnn then
        (let v = drop_bit (nat (bsLive s - nnn)) (bsBuff s) AND mask (nat nnn)
         in (Some (uint v), f, s\<lparr>bsLive := bsLive s - nnn\<rparr>))
      else if avail_in (strm s) = 0 then (None, f, s)
      else GET_BITS_while nnn
             (f\<lparr>l_total_in := l_total_in f + 1\<rparr>)
             (s\<lparr>bsBuff := push_bit 8 (bsBuff s) OR ucast (hd (next_in (strm s))),
                bsLive := bsLive s + 8,
                strm := (strm s)\<lparr>next_in := tl (next_in (strm s))\<rparr>\<rparr>))"
  by pat_completeness auto
termination
  by (relation "measure (\<lambda>(nnn, f, s). avail_in (strm s))") (auto simp: avail_in_def)

declare GET_BITS_while.simps [simp del]

text \<open>\<open>case lll: s->state = lll;\<close> and then the loop.\<close>

definition GET_BITS :: "bz_state \<Rightarrow> int \<Rightarrow> frame \<Rightarrow> DState \<Rightarrow> int option \<times> frame \<times> DState" where
  "GET_BITS lll nnn f s = GET_BITS_while nnn f (s\<lparr>state := lll\<rparr>)"

section \<open>decompress.c: loops that hold no bit fetch\<close>

text \<open>
  \<^verbatim>\<open>for (k = k0; k < n; k++) x = stmt(k, x);\<close> and
  \<^verbatim>\<open>for (k = k0; k >= lo; k--) x = stmt(k, x);\<close>: the value of \<open>k\<close> after the loop, and \<open>x\<close>.
\<close>

function for_up :: "int \<Rightarrow> int \<Rightarrow> (int \<Rightarrow> 'a \<Rightarrow> 'a) \<Rightarrow> 'a \<Rightarrow> int \<times> 'a" where
  "for_up k n stmt x = (if k < n then for_up (k + 1) n stmt (stmt k x) else (k, x))"
  by pat_completeness auto
termination
  by (relation "measure (\<lambda>(k, n, stmt, x). nat (n - k))") auto

declare for_up.simps [simp del]

function for_down :: "int \<Rightarrow> int \<Rightarrow> (int \<Rightarrow> 'a \<Rightarrow> 'a) \<Rightarrow> 'a \<Rightarrow> int \<times> 'a" where
  "for_down k lo stmt x = (if k \<ge> lo then for_down (k - 1) lo stmt (stmt k x) else (k, x))"
  by pat_completeness auto
termination
  by (relation "measure (\<lambda>(k, lo, stmt, x). nat (k - lo + 1))") auto

declare for_down.simps [simp del]

text \<open>
  \<^verbatim>\<open>for (k = k0; k < n; k++) if (bad(k)) RETURN(...);\<close>: whether the loop returned, and
  \<open>k\<close> at that moment (or after the loop).
\<close>

function for_check :: "int \<Rightarrow> int \<Rightarrow> (int \<Rightarrow> bool) \<Rightarrow> bool \<times> int" where
  "for_check k n bad = (if k < n then (if bad k then (True, k) else for_check (k + 1) n bad) else (False, k))"
  by pat_completeness auto
termination
  by (relation "measure (\<lambda>(k, n, bad). nat (n - k))") auto

declare for_check.simps [simp del]

text \<open>\<^verbatim>\<open>memmove(&a[p+1], &a[p], n)\<close> on an array of bytes; a count that is not positive moves nothing.\<close>

definition memmove_up :: "(int \<Rightarrow> 'a) \<Rightarrow> int \<Rightarrow> int \<Rightarrow> (int \<Rightarrow> 'a)" where
  "memmove_up a p n = (\<lambda>k. if p < k \<and> k \<le> p + n then a (k - 1) else a k)"

text \<open>\<open>makeMaps_d\<close> (decompress.c:26-35).\<close>

definition makeMaps_d :: "DState \<Rightarrow> DState" where
  "makeMaps_d s = snd (for_up 0 256
     (\<lambda>i s. if inUse s i
             then s\<lparr>seqToUnseq := (seqToUnseq s)(nInUse s := uint8_t i), nInUse := nInUse s + 1\<rparr>
             else s)
     (s\<lparr>nInUse := 0\<rparr>))"

text \<open>Reading \<open>p[k]\<close> through a row pointer into one of \<open>s->limit\<close>, \<open>s->base\<close>, \<open>s->perm\<close>.\<close>

fun row_at :: "(int \<Rightarrow> int \<Rightarrow> int) \<Rightarrow> rowptr \<Rightarrow> int \<Rightarrow> int" where
  "row_at tbl (Row g) k = tbl g k"

text \<open>
  How the code between two bit fetches ends: at the next \<open>GET_BITS\<close> (its label), at a
  \<open>RETURN\<close>, in \<open>AssertH\<close> (which does not come back), or never (the pointer-reversal
  loop of the small mode has no bound of its own).
\<close>

datatype outcome = Fetch bz_state frame DState | Return retcode frame DState | AssertH_fails int | Hang

subsection \<open>The MTF front (decompress.c:361-373 and 422-456)\<close>

text \<open>The two nested loops that lay the 256 values out at the top of \<open>mtfa\<close> (\<open>MTF init\<close>).\<close>

definition mtf_init :: "(int \<Rightarrow> int) \<times> (int \<Rightarrow> int) \<Rightarrow> (int \<Rightarrow> int) \<times> (int \<Rightarrow> int)" where
  "mtf_init ab =
     (let (ii, kk, a, b) =
        for_down (256 div MTFL_SIZE - 1) 0
          (\<lambda>ii (kk, a, b).
             let (jj, kk, a) = for_down (MTFL_SIZE - 1) 0
                   (\<lambda>jj (kk, a). (kk - 1, a(kk := uint8_t (ii * MTFL_SIZE + jj)))) (kk, a)
             in (kk, a, b(ii := kk + 1)))
          (MTFA_SIZE - 1, fst ab, snd ab)
      in (a, b))"

text \<open>The compaction when \<open>mtfbase[0]\<close> has reached 0.\<close>

definition mtf_compact :: "(int \<Rightarrow> int) \<times> (int \<Rightarrow> int) \<Rightarrow> (int \<Rightarrow> int) \<times> (int \<Rightarrow> int)" where
  "mtf_compact ab =
     (let (ii, kk, a, b) =
        for_down (256 div MTFL_SIZE - 1) 0
          (\<lambda>ii (kk, a, b).
             let (jj, kk, a) = for_down (MTFL_SIZE - 1) 0
                   (\<lambda>jj (kk, a). (kk - 1, a(kk := a (b ii + jj)))) (kk, a)
             in (kk, a, b(ii := kk + 1)))
          (MTFA_SIZE - 1, fst ab, snd ab)
      in (a, b))"

text \<open>
  \<^verbatim>\<open>uc = MTF ( nextSym-1 )\<close>: the byte at position \<open>nn\<close> of the list is taken out and put
  in front.  Gives \<open>uc\<close>, \<open>mtfa\<close> and \<open>mtfbase\<close>.  In the general case \<open>nn >= 16\<close>, so C's
  \<open>/\<close> and \<open>%\<close> are \<open>div\<close> and \<open>mod\<close>.
\<close>

definition mtf_get :: "int \<Rightarrow> (int \<Rightarrow> int) \<times> (int \<Rightarrow> int) \<Rightarrow> int \<times> (int \<Rightarrow> int) \<times> (int \<Rightarrow> int)" where
  "mtf_get nn ab =
     (let a = fst ab; b = snd ab in
      if nn < MTFL_SIZE then
        (let pp = b 0;
             uc = a (pp + nn);
             a = memmove_up a pp nn;
             a = a(pp := uc)
         in (uc, a, b))
      else
        (let lno = nn div MTFL_SIZE;
             off = nn mod MTFL_SIZE;
             pp = b lno;
             uc = a (pp + off);
             a = memmove_up a pp off;
             b = b(lno := b lno + 1);
             (lno, a, b) = for_down lno 1
                (\<lambda>lno (a, b). let b = b(lno := b lno - 1)
                               in (a(b lno := a (b (lno - 1) + MTFL_SIZE - 1)), b)) (a, b);
             b = b(0 := b 0 - 1);
             a = a(b 0 := uc)
         in if b 0 = 0 then (uc, mtf_compact (a, b)) else (uc, a, b)))"

subsection \<open>The end of a block (decompress.c:469-559)\<close>

text \<open>
  The \<open>do ... while (i != s->origPtr)\<close> of the small mode, on \<open>(i, j, ll16, ll4)\<close>.  Nothing
  in the loop bounds it, so it is a partial function.
\<close>

partial_function (option) pointer_reversal ::
    "bzlib_private \<Rightarrow> int \<Rightarrow> int \<times> int \<times> (int \<Rightarrow> int) \<times> (int \<Rightarrow> int)
      \<Rightarrow> (int \<times> int \<times> (int \<Rightarrow> int) \<times> (int \<Rightarrow> int)) option" where
  "pointer_reversal e orig x =
     (let i = fst x; j = fst (snd x); l16 = fst (snd (snd x)); l4 = snd (snd (snd x));
          tmp = GET_LL e l16 l4 j;
          ll = SET_LL e l16 l4 j i;
          i = j;
          j = tmp
      in if i \<noteq> orig then pointer_reversal e orig (i, j, fst ll, snd ll)
         else Some (i, j, fst ll, snd ll))"

text \<open>
  The first byte of the walk over the block, in both modes (\<open>get\<close> is \<open>BZ_GET_SMALL\<close> or
  \<open>BZ_GET_FAST\<close>): \<^verbatim>\<open>if (s->blockRandomised) { BZ_RAND_INIT_MASK; BZ_GET_...(s->k0);
  s->nblock_used++; BZ_RAND_UPD_MASK; s->k0 ^= BZ_RAND_MASK; } else { BZ_GET_...(s->k0);
  s->nblock_used++; }\<close>
\<close>

definition first_byte :: "bzlib_private \<Rightarrow> (DState \<Rightarrow> 32 word \<times> int) \<Rightarrow> DState \<Rightarrow> DState" where
  "first_byte e get s =
     (if blockRandomised s \<noteq> 0 then
        (let s = s\<lparr>rNToGo := fst (BZ_RAND_INIT_MASK e), rTPos := snd (BZ_RAND_INIT_MASK e)\<rparr>;
             s = s\<lparr>tPos := fst (get s), k0 := snd (get s)\<rparr>;
             s = s\<lparr>nblock_used := nblock_used s + 1\<rparr>;
             s = s\<lparr>rNToGo := fst (BZ_RAND_UPD_MASK e (rNToGo s, rTPos s)),
                   rTPos := snd (BZ_RAND_UPD_MASK e (rNToGo s, rTPos s))\<rparr>;
             s = s\<lparr>k0 := k0 s XOR BZ_RAND_MASK e (rNToGo s, rTPos s)\<rparr>
         in s)
      else
        (let s = s\<lparr>tPos := fst (get s), k0 := snd (get s)\<rparr>;
             s = s\<lparr>nblock_used := nblock_used s + 1\<rparr>
         in s))"

text \<open>\<open>compute the T vector\<close> of the small mode: the \<open>for\<close> loop over the block.\<close>

definition compute_T :: "bzlib_private \<Rightarrow> int \<Rightarrow> DState \<Rightarrow> int \<times> DState" where
  "compute_T e nblock s =
     for_up 0 nblock
       (\<lambda>i s. let uc = uint8_t (ll16 s i);
                   ll = SET_LL e (ll16 s) (ll4 s) i (cftabCopy s uc)
               in s\<lparr>ll16 := fst ll, ll4 := snd ll,
                    cftabCopy := (cftabCopy s)(uc := cftabCopy s uc + 1)\<rparr>) s"

text \<open>\<open>compute the T^(-1) vector\<close> of the fast mode: the \<open>for\<close> loop over the block.\<close>

definition compute_Tinv :: "int \<Rightarrow> DState \<Rightarrow> int \<times> DState" where
  "compute_Tinv nblock s =
     for_up 0 nblock
       (\<lambda>i s. let uc = uint8_t (uint (tt s i AND 0xff))
               in s\<lparr>tt := (tt s)(cftab s uc := tt s (cftab s uc) OR push_bit 8 (word_of_int i)),
                    cftab := (cftab s)(uc := cftab s uc + 1)\<rparr>) s"

text \<open>
  From \<open>s->state_out_len = 0\<close> to the final \<open>RETURN(BZ_OK)\<close>.  \<open>tPos\<close> is unsigned:
  \<open>s->tPos = s->origPtr\<close> converts.
\<close>

definition block_output :: "bzlib_private \<Rightarrow> frame \<Rightarrow> DState \<Rightarrow> outcome" where
  "block_output e f s =
     (let s = s\<lparr>state_out_len := 0, state_out_ch := 0,
                calculatedBlockCRC := BZ_INITIALISE_CRC, state := BZ_X_OUTPUT\<rparr>
      in
      if smallDecompress s then
        (let s = s\<lparr>cftabCopy := (\<lambda>k. if 0 \<le> k \<and> k < 256 then cftab s k else cftabCopy s k)\<rparr>;
             s = snd (compute_T e (l_nblock f) s);
             i = origPtr s;
             j = GET_LL e (ll16 s) (ll4 s) i
         in case pointer_reversal e (origPtr s) (i, j, ll16 s, ll4 s) of
              None \<Rightarrow> Hang
            | Some (i, j, l16, l4) \<Rightarrow>
               (let f = f\<lparr>l_i := i, l_j := j\<rparr>;
                    s = s\<lparr>ll16 := l16, ll4 := l4\<rparr>;
                    s = s\<lparr>tPos := word_of_int (origPtr s), nblock_used := 0\<rparr>
                in Return BZ_OK f (first_byte e (BZ_GET_SMALL e) s)))
      else
        (let f = f\<lparr>l_i := fst (compute_Tinv (l_nblock f) s)\<rparr>;
             s = snd (compute_Tinv (l_nblock f) s);
             s = s\<lparr>tPos := drop_bit 8 (tt s (origPtr s)), nblock_used := 0\<rparr>
         in Return BZ_OK f (first_byte e (BZ_GET_FAST e) s)))"

text \<open>
  \<open>Set up cftab to facilitate generation of T^(-1)\<close>: the check of \<open>unzftab\<close>, the
  cumulative sums and the two checks of \<open>cftab\<close> (\<open>i <= 255\<close> is \<open>i < 256\<close>, \<open>i <= 256\<close> is
  \<open>i < 257\<close>).
\<close>

definition cftab_checks :: "bzlib_private \<Rightarrow> frame \<Rightarrow> DState \<Rightarrow> outcome" where
  "cftab_checks e f s =
     (case for_check 0 256 (\<lambda>i. unzftab s i < 0 \<or> unzftab s i > l_nblock f) of
        (True, i) \<Rightarrow> Return BZ_DATA_ERROR (f\<lparr>l_i := i\<rparr>) s
      | (False, i) \<Rightarrow>
         (let s = s\<lparr>cftab := (cftab s)(0 := 0)\<rparr>;
              s = s\<lparr>cftab := (\<lambda>k. if 1 \<le> k \<and> k \<le> 256 then unzftab s (k - 1) else cftab s k)\<rparr>;
              (i, c) = for_up 1 257 (\<lambda>i c. c(i := c i + c (i - 1))) (cftab s);
              s = s\<lparr>cftab := c\<rparr>
          in case for_check 0 257 (\<lambda>i. cftab s i < 0 \<or> cftab s i > l_nblock f) of
               (True, i) \<Rightarrow> Return BZ_DATA_ERROR (f\<lparr>l_i := i\<rparr>) s
             | (False, i) \<Rightarrow>
                (case for_check 1 257 (\<lambda>i. cftab s (i - 1) > cftab s i) of
                   (True, i) \<Rightarrow> Return BZ_DATA_ERROR (f\<lparr>l_i := i\<rparr>) s
                 | (False, i) \<Rightarrow> block_output e (f\<lparr>l_i := i\<rparr>) s)))"

text \<open>
  After the loop over the MTF values: \<open>Now we know what nblock is, we can do a better
  sanity check on s->origPtr\<close>, then the rest.
\<close>

definition block_end :: "bzlib_private \<Rightarrow> frame \<Rightarrow> DState \<Rightarrow> outcome" where
  "block_end e f s =
     (if origPtr s < 0 \<or> origPtr s \<ge> l_nblock f then Return BZ_DATA_ERROR f s
      else cftab_checks e f s)"

subsection \<open>The MTF values (decompress.c:71-99 and 352-467)\<close>

text \<open>
  \<open>GET_MTF_VAL(label1,label2,lval)\<close>, first part: the change of group every 50 symbols,
  up to \<open>zn = gMinlen\<close>.  \<open>False\<close> is \<open>RETURN(BZ_DATA_ERROR)\<close>.
\<close>

definition GET_MTF_VAL_group :: "frame \<Rightarrow> DState \<Rightarrow> bool \<times> frame" where
  "GET_MTF_VAL_group f s =
     (if l_groupPos f = 0 then
        (let f = f\<lparr>l_groupNo := l_groupNo f + 1\<rparr> in
         if l_groupNo f \<ge> l_nSelectors f then (False, f)
         else
           (let f = f\<lparr>l_groupPos := BZ_G_SIZE\<rparr>;
                f = f\<lparr>l_gSel := selector s (l_groupNo f)\<rparr>;
                f = f\<lparr>l_gMinlen := minLens s (l_gSel f)\<rparr>;
                f = f\<lparr>l_gLimit := Row (l_gSel f)\<rparr>;
                f = f\<lparr>l_gPerm := Row (l_gSel f)\<rparr>;
                f = f\<lparr>l_gBase := Row (l_gSel f)\<rparr>;
                f = f\<lparr>l_groupPos := l_groupPos f - 1\<rparr>;
                f = f\<lparr>l_zn := l_gMinlen f\<rparr>
            in (True, f)))
      else
        (let f = f\<lparr>l_groupPos := l_groupPos f - 1\<rparr>;
             f = f\<lparr>l_zn := l_gMinlen f\<rparr>
         in (True, f)))"

text \<open>The macro up to its \<open>GET_BITS(label1, zvec, zn)\<close>.\<close>

definition GET_MTF_VAL :: "bz_state \<Rightarrow> frame \<Rightarrow> DState \<Rightarrow> outcome" where
  "GET_MTF_VAL label1 f s =
     (case GET_MTF_VAL_group f s of
        (False, f) \<Rightarrow> Return BZ_DATA_ERROR f s
      | (True, f) \<Rightarrow> Fetch label1 f s)"

text \<open>
  The two \<open>for (; es > 0; es--)\<close> loops that append the run, one for each mode
  (\<open>small\<close> is \<open>s->smallDecompress\<close>).  \<open>False\<close> is \<open>RETURN(BZ_DATA_ERROR)\<close>.
\<close>

function append_run :: "bool \<Rightarrow> int \<Rightarrow> frame \<Rightarrow> DState \<Rightarrow> bool \<times> frame \<times> DState" where
  "append_run small uc f s =
     (if l_es f > 0 then
        (if l_nblock f \<ge> l_nblockMAX f then (False, f, s)
         else append_run small uc
                (f\<lparr>l_nblock := l_nblock f + 1, l_es := l_es f - 1\<rparr>)
                (if small then s\<lparr>ll16 := (ll16 s)(l_nblock f := uint16_t uc)\<rparr>
                 else s\<lparr>tt := (tt s)(l_nblock f := word_of_int uc)\<rparr>))
      else (True, f, s))"
  by pat_completeness auto
termination
  by (relation "measure (\<lambda>(small, uc, f, s). nat (l_es f))") auto

declare append_run.simps [simp del]

text \<open>
  The body of the \<open>do\<close> loop over a run, up to its \<open>GET_MTF_VAL(BZ_X_MTF_3, BZ_X_MTF_4, nextSym)\<close>.
\<close>

definition run_do :: "frame \<Rightarrow> DState \<Rightarrow> outcome" where
  "run_do f s =
     (if l_N f \<ge> 0x200000 then Return BZ_DATA_ERROR f s
      else
        (let f = (if l_nextSym f = BZ_RUNA then f\<lparr>l_es := l_es f + l_N f\<rparr>
                  else if l_nextSym f = BZ_RUNB then f\<lparr>l_es := l_es f + push_bit 1 (l_N f)\<rparr>
                  else f);
             f = f\<lparr>l_N := push_bit 1 (l_N f)\<rparr>
         in GET_MTF_VAL BZ_X_MTF_3 f s))"

text \<open>
  A symbol that is neither EOB nor a run symbol: from \<open>if (nblock >= nblockMAX)\<close> to
  \<open>GET_MTF_VAL(BZ_X_MTF_5, BZ_X_MTF_6, nextSym)\<close>.
\<close>

definition mtf_literal :: "frame \<Rightarrow> DState \<Rightarrow> outcome" where
  "mtf_literal f s =
     (if l_nblock f \<ge> l_nblockMAX f then Return BZ_DATA_ERROR f s
      else
        (let nn = l_nextSym f - 1;
             (uc, a, b) = mtf_get nn (mtfa s, mtfbase s);
             s = s\<lparr>mtfa := a, mtfbase := b\<rparr>;
             s = s\<lparr>unzftab := (unzftab s)(seqToUnseq s uc := unzftab s (seqToUnseq s uc) + 1)\<rparr>;
             s = (if smallDecompress s
                  then s\<lparr>ll16 := (ll16 s)(l_nblock f := uint16_t (seqToUnseq s uc))\<rparr>
                  else s\<lparr>tt := (tt s)(l_nblock f := word_of_int (seqToUnseq s uc))\<rparr>);
             f = f\<lparr>l_nblock := l_nblock f + 1\<rparr>
         in GET_MTF_VAL BZ_X_MTF_5 f s))"

text \<open>The top of \<open>while (true)\<close>, with \<open>nextSym\<close> just decoded.\<close>

definition mtf_while :: "bzlib_private \<Rightarrow> frame \<Rightarrow> DState \<Rightarrow> outcome" where
  "mtf_while e f s =
     (if l_nextSym f = l_EOB f then block_end e f s
      else if l_nextSym f = BZ_RUNA \<or> l_nextSym f = BZ_RUNB
      then run_do (f\<lparr>l_es := - 1, l_N := 1\<rparr>) s
      else mtf_literal f s)"

text \<open>After the \<open>do\<close> loop: \<open>es++\<close>, the byte at the MTF front, its count, the run, \<open>continue\<close>.\<close>

definition run_end :: "bzlib_private \<Rightarrow> frame \<Rightarrow> DState \<Rightarrow> outcome" where
  "run_end e f s =
     (let f = f\<lparr>l_es := l_es f + 1\<rparr>;
          uc = seqToUnseq s (mtfa s (mtfbase s 0));
          s = s\<lparr>unzftab := (unzftab s)(uc := unzftab s uc + l_es f)\<rparr>
      in case append_run (smallDecompress s) uc f s of
           (False, f, s) \<Rightarrow> Return BZ_DATA_ERROR f s
         | (True, f, s) \<Rightarrow> mtf_while e f s)"

text \<open>
  What follows each of the three uses of \<open>GET_MTF_VAL\<close>, once \<open>nextSym\<close> is assigned: the
  \<open>while\<close> of the \<open>do\<close> loop after the one at \<open>BZ_X_MTF_3\<close>, the top of \<open>while (true)\<close> after
  the other two.
\<close>

definition after_GET_MTF_VAL :: "bzlib_private \<Rightarrow> bz_state \<Rightarrow> frame \<Rightarrow> DState \<Rightarrow> outcome" where
  "after_GET_MTF_VAL e label1 f s =
     (if label1 = BZ_X_MTF_3 then
        (if l_nextSym f = BZ_RUNA \<or> l_nextSym f = BZ_RUNB then run_do f s else run_end e f s)
      else mtf_while e f s)"

text \<open>
  \<open>GET_MTF_VAL\<close>, second part: the \<open>while (true)\<close> that lengthens the code by one bit at a
  time (\<open>GET_BIT(label2, zj)\<close>), the range check and \<open>lval = gPerm[zvec - gBase[zn]]\<close>.
\<close>

definition GET_MTF_VAL_while ::
    "bzlib_private \<Rightarrow> bz_state \<Rightarrow> bz_state \<Rightarrow> frame \<Rightarrow> DState \<Rightarrow> outcome" where
  "GET_MTF_VAL_while e label1 label2 f s =
     (if l_zn f > 20 then Return BZ_DATA_ERROR f s
      else if l_zvec f \<le> row_at (limit s) (l_gLimit f) (l_zn f) then
        (if l_zvec f - row_at (base s) (l_gBase f) (l_zn f) < 0
            \<or> l_zvec f - row_at (base s) (l_gBase f) (l_zn f) \<ge> BZ_MAX_ALPHA_SIZE
         then Return BZ_DATA_ERROR f s
         else after_GET_MTF_VAL e label1
                (f\<lparr>l_nextSym := row_at (perm s) (l_gPerm f)
                                   (l_zvec f - row_at (base s) (l_gBase f) (l_zn f))\<rparr>) s)
      else Fetch label2 (f\<lparr>l_zn := l_zn f + 1\<rparr>) s)"

text \<open>From \<open>EOB = s->nInUse+1\<close> to the first \<open>GET_MTF_VAL\<close>.\<close>

definition mtf_start :: "frame \<Rightarrow> DState \<Rightarrow> outcome" where
  "mtf_start f s =
     (let f = f\<lparr>l_EOB := nInUse s + 1\<rparr>;
          f = f\<lparr>l_nblockMAX := 100000 * blockSize100k s\<rparr>;
          f = f\<lparr>l_groupNo := - 1\<rparr>;
          f = f\<lparr>l_groupPos := 0\<rparr>;
          s = s\<lparr>unzftab := (\<lambda>k. if 0 \<le> k \<and> k < 256 then 0 else unzftab s k)\<rparr>;
          ab = mtf_init (mtfa s, mtfbase s);
          s = s\<lparr>mtfa := fst ab, mtfbase := snd ab\<rparr>;
          f = f\<lparr>l_nblock := 0\<rparr>
      in GET_MTF_VAL BZ_X_MTF_1 f s)"

subsection \<open>The coding tables (decompress.c:318-350)\<close>

text \<open>
  \<open>Create the Huffman decoding tables\<close>: for each table the least and the greatest
  length, the builder, and \<open>minLens[t]\<close>.  \<open>i\<close> and \<open>t\<close> are the saved locals.
\<close>

definition create_tables :: "bzlib_private \<Rightarrow> frame \<Rightarrow> DState \<Rightarrow> frame \<times> DState" where
  "create_tables e f s =
     (let (t, i, s) = for_up 0 (l_nGroups f)
            (\<lambda>t (i, s).
               let (i, minLen, maxLen) = for_up 0 (l_alphaSize f)
                     (\<lambda>i (minLen, maxLen).
                        let target = len s t i;
                            maxLen = (if target > maxLen then target else maxLen);
                            minLen = (if target < minLen then target else minLen)
                        in (minLen, maxLen)) (32, 0);
                   (lim, bas, prm) = BZ2_hbCreateDecodeTables e (limit s t) (base s t) (perm s t)
                                       (len s t) minLen maxLen (l_alphaSize f)
               in (i, s\<lparr>limit := (limit s)(t := lim), base := (base s)(t := bas),
                        perm := (perm s)(t := prm), minLens := (minLens s)(t := minLen)\<rparr>))
            (l_i f, s)
      in (f\<lparr>l_t := t, l_i := i\<rparr>, s))"

text \<open>\<open>for (t = ...; t < nGroups; t++) { GET_BITS(BZ_X_CODING_1, curr, 5); ...\<close>, entered at its test.\<close>

definition coding_for_t :: "bzlib_private \<Rightarrow> frame \<Rightarrow> DState \<Rightarrow> outcome" where
  "coding_for_t e f s =
     (if l_t f < l_nGroups f then Fetch BZ_X_CODING_1 f s
      else (case create_tables e f s of (f, s) \<Rightarrow> mtf_start f s))"

text \<open>The \<open>while (true)\<close> over one length, entered at its top: the range check, then \<open>GET_BIT\<close>.\<close>

definition coding_while :: "frame \<Rightarrow> DState \<Rightarrow> outcome" where
  "coding_while f s =
     (if l_curr f < 1 \<or> l_curr f > 20 then Return BZ_DATA_ERROR f s
      else Fetch BZ_X_CODING_2 f s)"

text \<open>\<open>for (i = ...; i < alphaSize; i++)\<close>, entered at its test; after it, \<open>t++\<close> of the outer loop.\<close>

definition coding_for_i :: "bzlib_private \<Rightarrow> frame \<Rightarrow> DState \<Rightarrow> outcome" where
  "coding_for_i e f s =
     (if l_i f < l_alphaSize f then coding_while f s
      else coding_for_t e (f\<lparr>l_t := l_t f + 1\<rparr>) s)"

subsection \<open>The selectors (decompress.c:282-316)\<close>

text \<open>
  The clamp of \<open>nSelectors\<close>, then \<open>Undo the MTF values for the selectors\<close>, then \<open>t = 0\<close>
  of the loop over the coding tables.  \<open>pos\<close> is a local array without initialiser;
  the loop over \<open>v\<close> fills the \<open>nGroups\<close> cells that are read.
\<close>

definition undo_selector_mtf :: "bzlib_private \<Rightarrow> frame \<Rightarrow> DState \<Rightarrow> outcome" where
  "undo_selector_mtf e f s =
     (let f = (if l_nSelectors f > BZ_MAX_SELECTORS then f\<lparr>l_nSelectors := BZ_MAX_SELECTORS\<rparr> else f);
          (v, pos) = for_up 0 (l_nGroups f) (\<lambda>v pos. pos(v := uint8_t v)) (\<lambda>k. 0);
          (i, pos, sel) = for_up 0 (l_nSelectors f)
             (\<lambda>i (pos, sel).
                let v = selectorMtf s i;
                    tmp = pos v;
                    pos = memmove_up pos 0 v;
                    pos = pos(0 := tmp)
                in (pos, sel(i := tmp)))
             (pos, selector s);
          f = f\<lparr>l_i := i\<rparr>;
          s = s\<lparr>selector := sel\<rparr>;
          f = f\<lparr>l_t := 0\<rparr>
      in coding_for_t e f s)"

text \<open>\<open>for (i = ...; i < nSelectors; i++) { j = 0; while (true) { GET_BIT(BZ_X_SELECTOR_3, uc); ...\<close>,
  entered at its test.\<close>

definition selector_for :: "bzlib_private \<Rightarrow> frame \<Rightarrow> DState \<Rightarrow> outcome" where
  "selector_for e f s =
     (if l_i f < l_nSelectors f then Fetch BZ_X_SELECTOR_3 (f\<lparr>l_j := 0\<rparr>) s
      else undo_selector_mtf e f s)"

subsection \<open>The mapping table (decompress.c:262-280)\<close>

text \<open>After both loops: \<open>makeMaps_d\<close>, the check of \<open>nInUse\<close>, \<open>alphaSize\<close>.\<close>

definition mapping_done :: "frame \<Rightarrow> DState \<Rightarrow> outcome" where
  "mapping_done f s =
     (let s = makeMaps_d s in
      if nInUse s = 0 then Return BZ_DATA_ERROR f s
      else Fetch BZ_X_SELECTOR_1 (f\<lparr>l_alphaSize := nInUse s + 2\<rparr>) s)"

text \<open>
  \<^verbatim>\<open>for (i = ...; i < 16; i++) if (s->inUse16[i]) { int32_t base = i << 4; for (j = 0; ...\<close>,
  entered at its test: on to the next \<open>i\<close> whose bit is set, where \<open>base\<close> is initialised.
\<close>

function mapping_for :: "frame \<Rightarrow> DState \<Rightarrow> outcome" where
  "mapping_for f s =
     (if l_i f < 16 then
        (if inUse16 s (l_i f)
         then Fetch BZ_X_MAPPING_2 (f\<lparr>l_base := push_bit 4 (l_i f), l_j := 0\<rparr>) s
         else mapping_for (f\<lparr>l_i := l_i f + 1\<rparr>) s)
      else mapping_done f s)"
  by pat_completeness auto
termination
  by (relation "measure (\<lambda>(f, s). nat (16 - l_i f))") auto

declare mapping_for.simps [simp del]

section \<open>decompress.c: \<open>BZ2_decompress\<close>\<close>

text \<open>
  The width \<open>nnn\<close> of the \<open>GET_BITS\<close> at each label: \<open>GET_UCHAR\<close> is 8 bits, \<open>GET_BIT\<close> is 1,
  the first fetch of \<open>GET_MTF_VAL\<close> is \<open>zn\<close> bits.  (\<open>BZ_X_IDLE\<close> and \<open>BZ_X_OUTPUT\<close> label
  no fetch.)
\<close>

fun nnn :: "bz_state \<Rightarrow> frame \<Rightarrow> int" where
  "nnn BZ_X_RANDBIT f = 1"
| "nnn BZ_X_MAPPING_1 f = 1"
| "nnn BZ_X_MAPPING_2 f = 1"
| "nnn BZ_X_SELECTOR_1 f = 3"
| "nnn BZ_X_SELECTOR_2 f = 15"
| "nnn BZ_X_SELECTOR_3 f = 1"
| "nnn BZ_X_CODING_1 f = 5"
| "nnn BZ_X_CODING_2 f = 1"
| "nnn BZ_X_CODING_3 f = 1"
| "nnn BZ_X_MTF_1 f = l_zn f"
| "nnn BZ_X_MTF_2 f = 1"
| "nnn BZ_X_MTF_3 f = l_zn f"
| "nnn BZ_X_MTF_4 f = 1"
| "nnn BZ_X_MTF_5 f = l_zn f"
| "nnn BZ_X_MTF_6 f = 1"
| "nnn BZ_X_IDLE f = 0"
| "nnn BZ_X_OUTPUT f = 0"
| "nnn lll f = 8"

text \<open>
  The code that follows the \<open>GET_BITS\<close> at label \<open>lll\<close>, from the value \<open>v\<close> it delivered
  (to \<open>uc\<close>, or to the variable the macro names) up to the next \<open>GET_BITS\<close> or \<open>RETURN\<close>.
  The \<open>default:\<close> of the switch is \<open>AssertH ( false, 4001 )\<close>.
\<close>

fun after_fetch :: "bzlib_private \<Rightarrow> bz_state \<Rightarrow> int \<Rightarrow> frame \<Rightarrow> DState \<Rightarrow> outcome" where
  "after_fetch e BZ_X_MAGIC_1 uc f s =
     (if uc \<noteq> BZ_HDR_B then Return BZ_DATA_ERROR_MAGIC f s else Fetch BZ_X_MAGIC_2 f s)"
| "after_fetch e BZ_X_MAGIC_2 uc f s =
     (if uc \<noteq> BZ_HDR_Z then Return BZ_DATA_ERROR_MAGIC f s else Fetch BZ_X_MAGIC_3 f s)"
| "after_fetch e BZ_X_MAGIC_3 uc f s =
     (if uc \<noteq> BZ_HDR_h then Return BZ_DATA_ERROR_MAGIC f s else Fetch BZ_X_MAGIC_4 f s)"
| "after_fetch e BZ_X_MAGIC_4 v f s =
     (let s = s\<lparr>blockSize100k := v\<rparr> in
      if blockSize100k s < (BZ_HDR_0 + 1) \<or> blockSize100k s > (BZ_HDR_0 + 9)
      then Return BZ_DATA_ERROR_MAGIC f s
      else
        (let s = s\<lparr>blockSize100k := blockSize100k s - BZ_HDR_0\<rparr> in
         if smallDecompress s then
           (if \<not> BZALLOC e (blockSize100k s * 100000) 2
               \<or> \<not> BZALLOC e (drop_bit 1 (1 + blockSize100k s * 100000)) 1
            then Return BZ_MEM_ERROR f s else Fetch BZ_X_BLKHDR_1 f s)
         else
           (if \<not> BZALLOC e (blockSize100k s * 100000) 4
            then Return BZ_MEM_ERROR f s else Fetch BZ_X_BLKHDR_1 f s)))"
| "after_fetch e BZ_X_BLKHDR_1 uc f s =
     (if uc = 0x17 then Fetch BZ_X_ENDHDR_2 f s
      else if uc \<noteq> 0x31 then Return BZ_DATA_ERROR f s else Fetch BZ_X_BLKHDR_2 f s)"
| "after_fetch e BZ_X_BLKHDR_2 uc f s =
     (if uc \<noteq> 0x41 then Return BZ_DATA_ERROR f s else Fetch BZ_X_BLKHDR_3 f s)"
| "after_fetch e BZ_X_BLKHDR_3 uc f s =
     (if uc \<noteq> 0x59 then Return BZ_DATA_ERROR f s else Fetch BZ_X_BLKHDR_4 f s)"
| "after_fetch e BZ_X_BLKHDR_4 uc f s =
     (if uc \<noteq> 0x26 then Return BZ_DATA_ERROR f s else Fetch BZ_X_BLKHDR_5 f s)"
| "after_fetch e BZ_X_BLKHDR_5 uc f s =
     (if uc \<noteq> 0x53 then Return BZ_DATA_ERROR f s else Fetch BZ_X_BLKHDR_6 f s)"
| "after_fetch e BZ_X_BLKHDR_6 uc f s =
     (if uc \<noteq> 0x59 then Return BZ_DATA_ERROR f s
      else
        (let s = s\<lparr>currBlockNo := currBlockNo s + 1\<rparr>;
             s = s\<lparr>storedBlockCRC := 0\<rparr>
         in Fetch BZ_X_BCRC_1 f s))"
| "after_fetch e BZ_X_BCRC_1 uc f s =
     Fetch BZ_X_BCRC_2 f (s\<lparr>storedBlockCRC := push_bit 8 (storedBlockCRC s) OR word_of_int uc\<rparr>)"
| "after_fetch e BZ_X_BCRC_2 uc f s =
     Fetch BZ_X_BCRC_3 f (s\<lparr>storedBlockCRC := push_bit 8 (storedBlockCRC s) OR word_of_int uc\<rparr>)"
| "after_fetch e BZ_X_BCRC_3 uc f s =
     Fetch BZ_X_BCRC_4 f (s\<lparr>storedBlockCRC := push_bit 8 (storedBlockCRC s) OR word_of_int uc\<rparr>)"
| "after_fetch e BZ_X_BCRC_4 uc f s =
     Fetch BZ_X_RANDBIT f (s\<lparr>storedBlockCRC := push_bit 8 (storedBlockCRC s) OR word_of_int uc\<rparr>)"
| "after_fetch e BZ_X_RANDBIT v f s =
     (let s = s\<lparr>blockRandomised := v\<rparr>;
          s = s\<lparr>origPtr := 0\<rparr>
      in Fetch BZ_X_ORIGPTR_1 f s)"
| "after_fetch e BZ_X_ORIGPTR_1 uc f s =
     Fetch BZ_X_ORIGPTR_2 f (s\<lparr>origPtr := push_bit 8 (origPtr s) OR uc\<rparr>)"
| "after_fetch e BZ_X_ORIGPTR_2 uc f s =
     Fetch BZ_X_ORIGPTR_3 f (s\<lparr>origPtr := push_bit 8 (origPtr s) OR uc\<rparr>)"
| "after_fetch e BZ_X_ORIGPTR_3 uc f s =
     (let s = s\<lparr>origPtr := push_bit 8 (origPtr s) OR uc\<rparr> in
      if origPtr s < 0 then Return BZ_DATA_ERROR f s
      else if origPtr s > 10 + 100000 * blockSize100k s then Return BZ_DATA_ERROR f s
      else Fetch BZ_X_MAPPING_1 (f\<lparr>l_i := 0\<rparr>) s)"
| "after_fetch e BZ_X_MAPPING_1 uc f s =
     (let s = s\<lparr>inUse16 := (inUse16 s)(l_i f := (uc = 1))\<rparr>;
          f = f\<lparr>l_i := l_i f + 1\<rparr>
      in if l_i f < 16 then Fetch BZ_X_MAPPING_1 f s
         else
           (let s = s\<lparr>inUse := (\<lambda>k. if 0 \<le> k \<and> k < 256 then False else inUse s k)\<rparr>
            in mapping_for (f\<lparr>l_i := 0\<rparr>) s))"
| "after_fetch e BZ_X_MAPPING_2 uc f s =
     (let s = (if uc = 1 then s\<lparr>inUse := (inUse s)(l_base f + l_j f := True)\<rparr> else s);
          f = f\<lparr>l_j := l_j f + 1\<rparr>
      in if l_j f < 16 then Fetch BZ_X_MAPPING_2 f s
         else mapping_for (f\<lparr>l_i := l_i f + 1\<rparr>) s)"
| "after_fetch e BZ_X_SELECTOR_1 v f s =
     (let f = f\<lparr>l_nGroups := v\<rparr> in
      if l_nGroups f < 2 \<or> l_nGroups f > BZ_N_GROUPS then Return BZ_DATA_ERROR f s
      else Fetch BZ_X_SELECTOR_2 f s)"
| "after_fetch e BZ_X_SELECTOR_2 v f s =
     (let f = f\<lparr>l_nSelectors := v\<rparr> in
      if l_nSelectors f < 1 then Return BZ_DATA_ERROR f s
      else selector_for e (f\<lparr>l_i := 0\<rparr>) s)"
| "after_fetch e BZ_X_SELECTOR_3 uc f s =
     (if uc = 0 then
        (let s = (if l_i f < BZ_MAX_SELECTORS
                  then s\<lparr>selectorMtf := (selectorMtf s)(l_i f := uint8_t (l_j f))\<rparr> else s)
         in selector_for e (f\<lparr>l_i := l_i f + 1\<rparr>) s)
      else
        (let f = f\<lparr>l_j := l_j f + 1\<rparr> in
         if l_j f \<ge> l_nGroups f then Return BZ_DATA_ERROR f s
         else Fetch BZ_X_SELECTOR_3 f s))"
| "after_fetch e BZ_X_CODING_1 v f s =
     (let f = f\<lparr>l_curr := v\<rparr> in coding_for_i e (f\<lparr>l_i := 0\<rparr>) s)"
| "after_fetch e BZ_X_CODING_2 uc f s =
     (if uc = 0 then
        (let s = s\<lparr>len := (len s)(l_t f := (len s (l_t f))(l_i f := uint8_t (l_curr f)))\<rparr>
         in coding_for_i e (f\<lparr>l_i := l_i f + 1\<rparr>) s)
      else Fetch BZ_X_CODING_3 f s)"
| "after_fetch e BZ_X_CODING_3 uc f s =
     (let f = (if uc = 0 then f\<lparr>l_curr := l_curr f + 1\<rparr> else f\<lparr>l_curr := l_curr f - 1\<rparr>)
      in coding_while f s)"
| "after_fetch e BZ_X_MTF_1 v f s =
     GET_MTF_VAL_while e BZ_X_MTF_1 BZ_X_MTF_2 (f\<lparr>l_zvec := v\<rparr>) s"
| "after_fetch e BZ_X_MTF_2 v f s =
     (let f = f\<lparr>l_zj := v\<rparr>;
          f = f\<lparr>l_zvec := push_bit 1 (l_zvec f) OR l_zj f\<rparr>
      in GET_MTF_VAL_while e BZ_X_MTF_1 BZ_X_MTF_2 f s)"
| "after_fetch e BZ_X_MTF_3 v f s =
     GET_MTF_VAL_while e BZ_X_MTF_3 BZ_X_MTF_4 (f\<lparr>l_zvec := v\<rparr>) s"
| "after_fetch e BZ_X_MTF_4 v f s =
     (let f = f\<lparr>l_zj := v\<rparr>;
          f = f\<lparr>l_zvec := push_bit 1 (l_zvec f) OR l_zj f\<rparr>
      in GET_MTF_VAL_while e BZ_X_MTF_3 BZ_X_MTF_4 f s)"
| "after_fetch e BZ_X_MTF_5 v f s =
     GET_MTF_VAL_while e BZ_X_MTF_5 BZ_X_MTF_6 (f\<lparr>l_zvec := v\<rparr>) s"
| "after_fetch e BZ_X_MTF_6 v f s =
     (let f = f\<lparr>l_zj := v\<rparr>;
          f = f\<lparr>l_zvec := push_bit 1 (l_zvec f) OR l_zj f\<rparr>
      in GET_MTF_VAL_while e BZ_X_MTF_5 BZ_X_MTF_6 f s)"
| "after_fetch e BZ_X_ENDHDR_2 uc f s =
     (if uc \<noteq> 0x72 then Return BZ_DATA_ERROR f s else Fetch BZ_X_ENDHDR_3 f s)"
| "after_fetch e BZ_X_ENDHDR_3 uc f s =
     (if uc \<noteq> 0x45 then Return BZ_DATA_ERROR f s else Fetch BZ_X_ENDHDR_4 f s)"
| "after_fetch e BZ_X_ENDHDR_4 uc f s =
     (if uc \<noteq> 0x38 then Return BZ_DATA_ERROR f s else Fetch BZ_X_ENDHDR_5 f s)"
| "after_fetch e BZ_X_ENDHDR_5 uc f s =
     (if uc \<noteq> 0x50 then Return BZ_DATA_ERROR f s else Fetch BZ_X_ENDHDR_6 f s)"
| "after_fetch e BZ_X_ENDHDR_6 uc f s =
     (if uc \<noteq> 0x90 then Return BZ_DATA_ERROR f s
      else Fetch BZ_X_CCRC_1 f (s\<lparr>storedCombinedCRC := 0\<rparr>))"
| "after_fetch e BZ_X_CCRC_1 uc f s =
     Fetch BZ_X_CCRC_2 f (s\<lparr>storedCombinedCRC := push_bit 8 (storedCombinedCRC s) OR word_of_int uc\<rparr>)"
| "after_fetch e BZ_X_CCRC_2 uc f s =
     Fetch BZ_X_CCRC_3 f (s\<lparr>storedCombinedCRC := push_bit 8 (storedCombinedCRC s) OR word_of_int uc\<rparr>)"
| "after_fetch e BZ_X_CCRC_3 uc f s =
     Fetch BZ_X_CCRC_4 f (s\<lparr>storedCombinedCRC := push_bit 8 (storedCombinedCRC s) OR word_of_int uc\<rparr>)"
| "after_fetch e BZ_X_CCRC_4 uc f s =
     (let s = s\<lparr>storedCombinedCRC := push_bit 8 (storedCombinedCRC s) OR word_of_int uc\<rparr>;
          s = s\<lparr>state := BZ_X_IDLE\<rparr>
      in Return BZ_STREAM_END f s)"
| "after_fetch e BZ_X_IDLE v f s = AssertH_fails 4001"
| "after_fetch e BZ_X_OUTPUT v f s = AssertH_fails 4001"

text \<open>\<open>initialise the save area\<close> (decompress.c:137-163).\<close>

definition init_save_area :: "DState \<Rightarrow> DState" where
  "init_save_area s = s\<lparr>save_i := 0, save_j := 0, save_t := 0, save_alphaSize := 0,
     save_nGroups := 0, save_nSelectors := 0, save_EOB := 0, save_groupNo := 0,
     save_groupPos := 0, save_nextSym := 0, save_nblockMAX := 0, save_nblock := 0,
     save_es := 0, save_N := 0, save_curr := 0, save_zt := 0, save_zn := 0, save_zvec := 0,
     save_zj := 0, save_gSel := 0, save_gMinlen := 0, save_gLimit := NULL,
     save_gBase := NULL, save_gPerm := NULL\<rparr>"

text \<open>
  \<open>restore from the save area\<close> (decompress.c:165-189) and the initialiser of \<open>total_in\<close>
  (decompress.c:109).  \<open>indet\<close> is the indeterminate value \<open>base\<close> holds when the switch
  jumps into its block.
\<close>

definition restore :: "int \<Rightarrow> DState \<Rightarrow> frame" where
  "restore indet s = \<lparr> l_i = save_i s, l_j = save_j s, l_t = save_t s,
     l_alphaSize = save_alphaSize s, l_nGroups = save_nGroups s,
     l_nSelectors = save_nSelectors s, l_EOB = save_EOB s, l_groupNo = save_groupNo s,
     l_groupPos = save_groupPos s, l_nextSym = save_nextSym s,
     l_nblockMAX = save_nblockMAX s, l_nblock = save_nblock s, l_es = save_es s,
     l_N = save_N s, l_curr = save_curr s, l_zt = save_zt s, l_zn = save_zn s,
     l_zvec = save_zvec s, l_zj = save_zj s, l_gSel = save_gSel s,
     l_gMinlen = save_gMinlen s, l_gLimit = save_gLimit s, l_gBase = save_gBase s,
     l_gPerm = save_gPerm s, l_base = indet,
     l_total_in = U32_TO_U64 (total_in_hi32 (strm s)) (total_in_lo32 (strm s)) \<rparr>"

text \<open>What a call of \<open>BZ2_decompress\<close> ends with, when it ends.\<close>

datatype result = Returns retcode DState | AssertH_fail int

text \<open>\<open>save_state_and_return:\<close> (decompress.c:594-622).\<close>

definition save_state_and_return :: "retcode \<Rightarrow> frame \<Rightarrow> DState \<Rightarrow> result" where
  "save_state_and_return retVal f s =
     Returns retVal
       (s\<lparr>save_i := l_i f, save_j := l_j f, save_t := l_t f, save_alphaSize := l_alphaSize f,
          save_nGroups := l_nGroups f, save_nSelectors := l_nSelectors f, save_EOB := l_EOB f,
          save_groupNo := l_groupNo f, save_groupPos := l_groupPos f,
          save_nextSym := l_nextSym f, save_nblockMAX := l_nblockMAX f,
          save_nblock := l_nblock f, save_es := l_es f, save_N := l_N f, save_curr := l_curr f,
          save_zt := l_zt f, save_zn := l_zn f, save_zvec := l_zvec f, save_zj := l_zj f,
          save_gSel := l_gSel f, save_gMinlen := l_gMinlen f, save_gLimit := l_gLimit f,
          save_gBase := l_gBase f, save_gPerm := l_gPerm f,
          strm := (strm s)\<lparr>total_in_hi32 := fst (U64_TO_U32 (l_total_in f)),
                           total_in_lo32 := snd (U64_TO_U32 (l_total_in f))\<rparr>\<rparr>)"

text \<open>
  The body of the switch from label \<open>lll\<close> on: the \<open>GET_BITS\<close> there, the code after it,
  and so on from the label of the next \<open>GET_BITS\<close>.  \<open>None\<close>: the call does not return.
\<close>

partial_function (option) run :: "bzlib_private \<Rightarrow> bz_state \<Rightarrow> frame \<Rightarrow> DState \<Rightarrow> result option" where
  "run e lll f s =
     (case GET_BITS lll (nnn lll f) f s of
        (None, f, s) \<Rightarrow> Some (save_state_and_return BZ_OK f s)
      | (Some v, f, s) \<Rightarrow>
         (case after_fetch e lll v f s of
            Fetch lll f s \<Rightarrow> run e lll f s
          | Return retVal f s \<Rightarrow> Some (save_state_and_return retVal f s)
          | AssertH_fails errcode \<Rightarrow> Some (AssertH_fail errcode)
          | Hang \<Rightarrow> None))"

text \<open>
  \<open>BZ2_decompress\<close> (decompress.c:103-623).  \<open>indet\<close> stands for what the automatic
  variable \<open>base\<close> holds when the call starts.
\<close>

definition BZ2_decompress :: "bzlib_private \<Rightarrow> int \<Rightarrow> DState \<Rightarrow> result option" where
  "BZ2_decompress e indet s =
     (let s = (if state s = BZ_X_MAGIC_1 then init_save_area s else s);
          f = restore indet s
      in if state s = BZ_X_IDLE \<or> state s = BZ_X_OUTPUT then Some (AssertH_fail 4001)
         else run e (state s) f s)"

text \<open>The two recursions without a termination proof are run by their defining equations.\<close>

declare run.simps [code] pointer_reversal.simps [code]

section \<open>A session and parameters to run the code on\<close>

text \<open>
  Modelled from the spec: \<open>initDecompress\<close> gives a new session in state \<open>MAGIC_1\<close>; its
  code (bzlib.c) is not in src/.  Here the bit buffer is empty, every other field is
  zero, and the stream points at the given input.
\<close>

definition new_session :: "bool \<Rightarrow> byte list \<Rightarrow> DState" where
  "new_session small inp = \<lparr> strm = \<lparr> next_in = inp, total_in_lo32 = 0, total_in_hi32 = 0 \<rparr>,
     state = BZ_X_MAGIC_1, state_out_ch = 0, state_out_len = 0, blockRandomised = 0,
     rNToGo = 0, rTPos = 0, bsBuff = 0, bsLive = 0, blockSize100k = 0,
     smallDecompress = small, currBlockNo = 0, origPtr = 0, tPos = 0, k0 = 0,
     unzftab = (\<lambda>k. 0), nblock_used = 0, cftab = (\<lambda>k. 0), cftabCopy = (\<lambda>k. 0),
     tt = (\<lambda>k. 0), ll16 = (\<lambda>k. 0), ll4 = (\<lambda>k. 0), storedBlockCRC = 0,
     storedCombinedCRC = 0, calculatedBlockCRC = 0, nInUse = 0, inUse = (\<lambda>k. False),
     inUse16 = (\<lambda>k. False), seqToUnseq = (\<lambda>k. 0), mtfa = (\<lambda>k. 0), mtfbase = (\<lambda>k. 0),
     selector = (\<lambda>k. 0), selectorMtf = (\<lambda>k. 0), len = (\<lambda>t k. 0), limit = (\<lambda>t k. 0),
     base = (\<lambda>t k. 0), perm = (\<lambda>t k. 0), minLens = (\<lambda>k. 0),
     save_i = 0, save_j = 0, save_t = 0, save_alphaSize = 0, save_nGroups = 0,
     save_nSelectors = 0, save_EOB = 0, save_groupNo = 0, save_groupPos = 0,
     save_nextSym = 0, save_nblockMAX = 0, save_nblock = 0, save_es = 0, save_N = 0,
     save_curr = 0, save_zt = 0, save_zn = 0, save_zvec = 0, save_zj = 0, save_gSel = 0,
     save_gMinlen = 0, save_gLimit = NULL, save_gBase = NULL, save_gPerm = NULL \<rparr>"

text \<open>
  One choice of the parameters, for running the code on concrete input: every allocation
  succeeds; the table builder and the macros of the inverse transform, which no input
  below reaches, write nothing.
\<close>

definition plain_bzlib :: bzlib_private where
  "plain_bzlib = \<lparr> BZALLOC = (\<lambda>n sz. True),
     BZ2_hbCreateDecodeTables = (\<lambda>lim bas prm ln minLen maxLen alphaSize. (lim, bas, prm)),
     SET_LL = (\<lambda>l16 l4 i v. (l16, l4)), GET_LL = (\<lambda>l16 l4 i. 0),
     BZ_GET_SMALL = (\<lambda>s. (tPos s, k0 s)), BZ_GET_FAST = (\<lambda>s. (tPos s, k0 s)),
     BZ_RAND_INIT_MASK = (0, 0), BZ_RAND_UPD_MASK = (\<lambda>x. x), BZ_RAND_MASK = (\<lambda>x. 0) \<rparr>"

text \<open>The magic of the spec: \<open>0x42 0x5A 0x68 '0'+level\<close>, level in 1..9, octet by octet.\<close>

definition magic_ok :: "nat \<Rightarrow> byte \<Rightarrow> bool" where
  "magic_ok k b = (if k = 0 then b = 0x42 else if k = 1 then b = 0x5A
                   else if k = 2 then b = 0x68 else 0x31 \<le> b \<and> b \<le> 0x39)"

text \<open>
  \<open>BZ2_decompress\<close> writes no output byte itself: the caller's walk over the block does,
  in state \<open>BZ_X_OUTPUT\<close>, from the arrays and fields below.  Nothing of them changed, and
  the session is not in that state.
\<close>

definition no_output :: "DState \<Rightarrow> DState \<Rightarrow> bool" where
  "no_output s s' \<longleftrightarrow> tt s' = tt s \<and> ll16 s' = ll16 s \<and> ll4 s' = ll4 s \<and> tPos s' = tPos s
     \<and> k0 s' = k0 s \<and> nblock_used s' = nblock_used s \<and> state_out_len s' = state_out_len s
     \<and> state_out_ch s' = state_out_ch s \<and> state s' \<noteq> BZ_X_OUTPUT"

text \<open>The session after the \<open>GET_UCHAR\<close> at label \<open>lll\<close> took byte \<open>b\<close> into an empty bit buffer.\<close>

definition fetched :: "bz_state \<Rightarrow> byte \<Rightarrow> DState \<Rightarrow> DState" where
  "fetched lll b s = s\<lparr>state := lll, bsBuff := push_bit 8 (bsBuff s) OR ucast b, bsLive := 0,
        strm := (strm s)\<lparr>next_in := tl (next_in (strm s))\<rparr>\<rparr>"

text \<open>A session about to read the last byte of \<open>origPtr\<close>, the first two being \<open>0xFF\<close>.\<close>

definition origPtr_session :: DState where
  "origPtr_session = (new_session False [0xFF])\<lparr>state := BZ_X_ORIGPTR_3, origPtr := 0xFFFF, blockSize100k := 9\<rparr>"

text \<open>
  Sessions standing inside a block: one where the adjustment bits of a code length are read
  (\<open>curr = 1\<close>, no input, and the same with the input byte \<open>0xFF\<close>), one where the MTF
  values are read, with two coding tables of three lengths 5.
\<close>

definition mtf_session :: DState where
  "mtf_session = (new_session False [])\<lparr>state := BZ_X_MTF_2, save_alphaSize := 3, save_nGroups := 2,
     save_nSelectors := 1, save_gMinlen := 5, minLens := (\<lambda>k. 5),
     len := (\<lambda>t k. if 0 \<le> t \<and> t < 2 \<and> 0 \<le> k \<and> k < 3 then 5 else 0)\<rparr>"

definition coding_parked :: DState where
  "coding_parked = (new_session False [])\<lparr>state := BZ_X_CODING_3, save_curr := 1,
     save_alphaSize := 3, save_nGroups := 2, save_nSelectors := 1\<rparr>"

definition coding_fed :: DState where
  "coding_fed = coding_parked\<lparr>strm := (strm coding_parked)\<lparr>next_in := [0xFF]\<rparr>\<rparr>"

text \<open>
  The caller's side of a suspension: more input arrives (\<open>next_in\<close> and \<open>avail_in\<close> are the
  caller's to set) and \<open>BZ2_decompress\<close> is called again.  \<open>two_calls\<close> feeds the first \<open>k\<close>
  bytes of an input to a new session and, when that call returns \<open>BZ_OK\<close>, the rest to a
  second call.
\<close>

definition feed :: "byte list \<Rightarrow> DState \<Rightarrow> DState" where
  "feed inp s = s\<lparr>strm := (strm s)\<lparr>next_in := next_in (strm s) @ inp\<rparr>\<rparr>"

definition two_calls :: "bzlib_private \<Rightarrow> int \<Rightarrow> nat \<Rightarrow> byte list \<Rightarrow> result option" where
  "two_calls e indet k inp =
     (case BZ2_decompress e indet (new_session False (take k inp)) of
        Some (Returns r s) \<Rightarrow>
          if r = BZ_OK then BZ2_decompress e indet (feed (drop k inp) s) else Some (Returns r s)
      | x \<Rightarrow> x)"

text \<open>
  The first 22 bytes of a stream: the magic \<open>BZh9\<close>, the block header, a zero CRC, and the
  bits \<open>randomised = 0\<close>, \<open>origPtr = 0\<close>, \<open>inUse16\<close> with only \<open>i = 6\<close> set, the sixteen
  bits of that range with only \<open>j = 15\<close> set (the byte \<open>0x6F\<close>), \<open>nGroups = 2\<close>, and four
  bits of the selector count.
\<close>

definition mapping_input :: "byte list" where
  "mapping_input = [0x42, 0x5A, 0x68, 0x39, 0x31, 0x41, 0x59, 0x26, 0x53, 0x59, 0, 0, 0, 0,
      0, 0, 0, 0x01, 0, 0, 0, 0xA0]"

text \<open>
  A session where a symbol of one bit is about to be fetched and decodes to EOB (2, with one
  byte in use): \<open>nblock = 5\<close> and \<open>origPtr = 7\<close>, a run of \<open>es = 1\<close> so far; and the same
  session inside the \<open>do\<close> loop of a run.
\<close>

definition eob_session :: DState where
  "eob_session = (new_session False [0x00])\<lparr>state := BZ_X_MTF_1, blockSize100k := 9, origPtr := 7,
     nInUse := 1, limit := (\<lambda>t k. 1), perm := (\<lambda>t k. k + 2), minLens := (\<lambda>k. 1),
     save_alphaSize := 3, save_nGroups := 2, save_nSelectors := 1, save_EOB := 2,
     save_groupPos := 49, save_nblockMAX := 900000, save_nblock := 5, save_es := 1, save_N := 4,
     save_zn := 1, save_gMinlen := 1, save_gLimit := Row 0, save_gBase := Row 0, save_gPerm := Row 0\<rparr>"

definition eob_after_run :: DState where
  "eob_after_run = eob_session\<lparr>state := BZ_X_MTF_3\<rparr>"

text \<open>An array with \<open>n\<close> entries from index \<open>p\<close> on set to \<open>v\<close>: what a run leaves in the block.\<close>

definition fill :: "(int \<Rightarrow> 'a) \<Rightarrow> int \<Rightarrow> int \<Rightarrow> 'a \<Rightarrow> int \<Rightarrow> 'a" where
  "fill a p n v = (\<lambda>k. if p \<le> k \<and> k < p + n then v else a k)"

text \<open>
  \<open>eob_session\<close> with its last group used up (\<open>groupNo = nSelectors - 1\<close>, \<open>groupPos = 0\<close>), EOB
  at 4, and an input whose first bit decodes to the symbol 3.
\<close>

definition last_group :: DState where
  "last_group = eob_session\<lparr>save_groupPos := 0, save_EOB := 4,
     strm := (strm eob_session)\<lparr>next_in := [0x80]\<rparr>\<rparr>"





section \<open>What holds of a session between two calls\<close>

text \<open>
  The facts about the locals and the tables that the parser has established when it
  stands at a label, as far as the width of the fetches depends on them: the retained
  \<open>selectorMtf\<close> and \<open>selector\<close> entries name a group, the lengths stored so far are in
  1..20, and so are the \<open>minLens\<close> the selectors lead to.
\<close>

definition selMtf_ok :: "int \<Rightarrow> int \<Rightarrow> (int \<Rightarrow> int) \<Rightarrow> bool" where
  "selMtf_ok n g sm \<longleftrightarrow> (\<forall>k. 0 \<le> k \<and> k < n \<and> k < BZ_MAX_SELECTORS \<longrightarrow> 0 \<le> sm k \<and> sm k < g)"

definition sel_ok :: "int \<Rightarrow> int \<Rightarrow> (int \<Rightarrow> int) \<Rightarrow> bool" where
  "sel_ok n g sel \<longleftrightarrow> (\<forall>k. 0 \<le> k \<and> k < n \<longrightarrow> 0 \<le> sel k \<and> sel k < g)"

definition len_ok :: "int \<Rightarrow> (int \<Rightarrow> int \<Rightarrow> int) \<Rightarrow> int \<Rightarrow> int \<Rightarrow> bool" where
  "len_ok alpha ln t i \<longleftrightarrow>
     (\<forall>t' i'. 0 \<le> i' \<and> i' < alpha \<and> ((0 \<le> t' \<and> t' < t) \<or> (t' = t \<and> i' < i))
        \<longrightarrow> 1 \<le> ln t' i' \<and> ln t' i' \<le> 20)"

definition minLens_ok :: "int \<Rightarrow> (int \<Rightarrow> int) \<Rightarrow> (int \<Rightarrow> int) \<Rightarrow> bool" where
  "minLens_ok n sel ml \<longleftrightarrow> (\<forall>k. 0 \<le> k \<and> k < n \<longrightarrow> 1 \<le> ml (sel k) \<and> ml (sel k) \<le> 20)"

definition coding_ok :: "frame \<Rightarrow> DState \<Rightarrow> bool" where
  "coding_ok f s \<longleftrightarrow> 1 \<le> l_alphaSize f \<and> 0 \<le> l_t f \<and> l_t f < l_nGroups f
     \<and> sel_ok (l_nSelectors f) (l_nGroups f) (selector s)"

definition mtf_pre :: "frame \<Rightarrow> DState \<Rightarrow> bool" where
  "mtf_pre f s \<longleftrightarrow> - 1 \<le> l_groupNo f
     \<and> minLens_ok (l_nSelectors f) (selector s) (minLens s)
     \<and> len_ok (l_alphaSize f) (len s) (l_nGroups f) 0"

definition mtf_ok :: "frame \<Rightarrow> DState \<Rightarrow> bool" where
  "mtf_ok f s \<longleftrightarrow> mtf_pre f s \<and> 1 \<le> l_gMinlen f \<and> l_gMinlen f \<le> 20"

fun data_ok :: "bz_state \<Rightarrow> frame \<Rightarrow> DState \<Rightarrow> bool" where
  "data_ok BZ_X_SELECTOR_1 f s = (1 \<le> l_alphaSize f)"
| "data_ok BZ_X_SELECTOR_2 f s = (1 \<le> l_alphaSize f \<and> 2 \<le> l_nGroups f \<and> l_nGroups f \<le> BZ_N_GROUPS)"
| "data_ok BZ_X_SELECTOR_3 f s =
     (1 \<le> l_alphaSize f \<and> 2 \<le> l_nGroups f \<and> l_nGroups f \<le> BZ_N_GROUPS
      \<and> 0 \<le> l_i f \<and> 0 \<le> l_j f \<and> l_j f < l_nGroups f
      \<and> selMtf_ok (l_i f) (l_nGroups f) (selectorMtf s))"
| "data_ok BZ_X_CODING_1 f s = (coding_ok f s \<and> len_ok (l_alphaSize f) (len s) (l_t f) 0)"
| "data_ok BZ_X_CODING_2 f s =
     (coding_ok f s \<and> 0 \<le> l_i f \<and> l_i f < l_alphaSize f \<and> 1 \<le> l_curr f \<and> l_curr f \<le> 20
      \<and> len_ok (l_alphaSize f) (len s) (l_t f) (l_i f))"
| "data_ok BZ_X_CODING_3 f s =
     (coding_ok f s \<and> 0 \<le> l_i f \<and> l_i f < l_alphaSize f \<and> 1 \<le> l_curr f \<and> l_curr f \<le> 20
      \<and> len_ok (l_alphaSize f) (len s) (l_t f) (l_i f))"
| "data_ok BZ_X_MTF_1 f s = (mtf_ok f s \<and> l_zn f = l_gMinlen f)"
| "data_ok BZ_X_MTF_2 f s = mtf_ok f s"
| "data_ok BZ_X_MTF_3 f s = (mtf_ok f s \<and> l_zn f = l_gMinlen f)"
| "data_ok BZ_X_MTF_4 f s = mtf_ok f s"
| "data_ok BZ_X_MTF_5 f s = (mtf_ok f s \<and> l_zn f = l_gMinlen f)"
| "data_ok BZ_X_MTF_6 f s = mtf_ok f s"
| "data_ok lll f s = True"

text \<open>
  A session between two calls: at most 32 live bits, none fewer than 0, and the facts
  above for the label it is parked at, read from its save area.
\<close>

definition DState_ok :: "DState \<Rightarrow> bool" where
  "DState_ok s \<longleftrightarrow> 0 \<le> bsLive s \<and> bsLive s \<le> 32 \<and> data_ok (state s) (restore 0 s) s"

text \<open>
  A session suspended at a bit fetch: parked at the label of a \<open>GET_BITS\<close> with fewer
  live bits than the fetch asks for.  At the first label the save area is still as the
  call initialised it (no code leads back there).
\<close>

definition suspended :: "DState \<Rightarrow> bool" where
  "suspended s \<longleftrightarrow> state s \<noteq> BZ_X_IDLE \<and> state s \<noteq> BZ_X_OUTPUT
     \<and> bsLive s < nnn (state s) (restore 0 s)
     \<and> (state s = BZ_X_MAGIC_1 \<longrightarrow> init_save_area s = s)"

text \<open>The saved locals of a frame are all as \<open>initialise the save area\<close> sets them.\<close>

definition locals_zero :: "frame \<Rightarrow> bool" where
  "locals_zero f \<longleftrightarrow> l_i f = 0 \<and> l_j f = 0 \<and> l_t f = 0 \<and> l_alphaSize f = 0 \<and> l_nGroups f = 0
     \<and> l_nSelectors f = 0 \<and> l_EOB f = 0 \<and> l_groupNo f = 0 \<and> l_groupPos f = 0
     \<and> l_nextSym f = 0 \<and> l_nblockMAX f = 0 \<and> l_nblock f = 0 \<and> l_es f = 0 \<and> l_N f = 0
     \<and> l_curr f = 0 \<and> l_zt f = 0 \<and> l_zn f = 0 \<and> l_zvec f = 0 \<and> l_zj f = 0 \<and> l_gSel f = 0
     \<and> l_gMinlen f = 0 \<and> l_gLimit f = NULL \<and> l_gBase f = NULL \<and> l_gPerm f = NULL"

text \<open>
  How the code between two fetches leaves things, against the session \<open>s0\<close> it started
  from: \<open>bsLive\<close> untouched; at a fetch the facts of its label, which is never the first
  one; \<open>BZ_OK\<close> only with the block ready for output, \<open>BZ_STREAM_END\<close> only with the
  session idle.
\<close>

definition out_ok :: "DState \<Rightarrow> outcome \<Rightarrow> bool" where
  "out_ok s0 out =
     (case out of
        Fetch l f s \<Rightarrow> bsLive s = bsLive s0 \<and> data_ok l f s \<and> l \<noteq> BZ_X_MAGIC_1
      | Return r f s \<Rightarrow> bsLive s = bsLive s0 \<and> (r = BZ_OK \<longrightarrow> state s = BZ_X_OUTPUT)
                          \<and> (r = BZ_STREAM_END \<longrightarrow> state s = BZ_X_IDLE)
      | AssertH_fails c \<Rightarrow> True
      | Hang \<Rightarrow> True)"

text \<open>
  What a call may end with, for a session that was in order: the live bits within 0..32,
  and with \<open>BZ_OK\<close> a session in order again, either ready for output or suspended with
  its input used up.
\<close>

fun result_ok :: "result \<Rightarrow> bool" where
  "result_ok (Returns r s) =
     (0 \<le> bsLive s \<and> bsLive s \<le> 32
      \<and> (r = BZ_OK \<longrightarrow> DState_ok s
            \<and> (state s = BZ_X_OUTPUT \<or> suspended s \<and> avail_in (strm s) = 0)))"
| "result_ok (AssertH_fail c) = True"

section \<open>The count of the symbols of a block\<close>

text \<open>
  \<open>GET_MTF_VAL\<close> keeps two counters: \<open>groupNo\<close>, the group in use, and \<open>groupPos\<close>, the symbols
  left in it.  With \<open>groupNo = -1\<close>, \<open>groupPos = 0\<close> at the start of the block and \<open>groupPos\<close>
  set to 50 and decreased at each change of group, the symbols fetched so far are
  \<open>50 * (groupNo + 1) - groupPos\<close>.
\<close>

definition symbols_fetched :: "frame \<Rightarrow> int" where
  "symbols_fetched f = BZ_G_SIZE * (l_groupNo f + 1) - l_groupPos f"

text \<open>The two counters as the macro leaves them, against the number of selectors.\<close>

definition group_ok :: "frame \<Rightarrow> bool" where
  "group_ok f \<longleftrightarrow> - 1 \<le> l_groupNo f \<and> l_groupNo f < l_nSelectors f
     \<and> 0 \<le> l_groupPos f \<and> l_groupPos f < BZ_G_SIZE \<and> (l_groupNo f = - 1 \<longrightarrow> l_groupPos f = 0)"

text \<open>
  What the code after a fetch inside the loop over the MTF values does to the count when it
  ends at another fetch: a fetch of one more bit of the same symbol (labels 2, 4, 6) keeps the
  counters, the first fetch of a symbol (labels 1, 3, 5) is there only while selectors are
  left, and counts one more.
\<close>

definition counted :: "frame \<Rightarrow> outcome \<Rightarrow> bool" where
  "counted f out =
     (case out of
        Fetch l f' s' \<Rightarrow>
          l_nSelectors f' = l_nSelectors f
          \<and> (if l = BZ_X_MTF_1 \<or> l = BZ_X_MTF_3 \<or> l = BZ_X_MTF_5
              then symbols_fetched f < BZ_G_SIZE * l_nSelectors f \<and> group_ok f'
                   \<and> symbols_fetched f' = symbols_fetched f + 1
              else (l = BZ_X_MTF_2 \<or> l = BZ_X_MTF_4 \<or> l = BZ_X_MTF_6)
                   \<and> l_groupNo f' = l_groupNo f \<and> l_groupPos f' = l_groupPos f)
      | Return r f' s' \<Rightarrow> True
      | AssertH_fails c \<Rightarrow> True
      | Hang \<Rightarrow> True)"

section \<open>Runs\<close>

text \<open>
  The length of a run as the specification gives it, to compare the code with: the sum over
  the run symbols \<open>d_0, ..., d_(k-1)\<close> of \<open>w_i * 2^i\<close>, with \<open>w_i = 1\<close> for RUNA and 2 for RUNB.
\<close>

definition run_weight :: "int \<Rightarrow> int" where
  "run_weight d = (if d = BZ_RUNA then 1 else 2)"

definition es_spec :: "int list \<Rightarrow> int" where
  "es_spec ds = (\<Sum>i<length ds. run_weight (ds ! i) * 2 ^ i)"



section \<open>The byte totals of bzip2.c\<close>

lemma uInt64_from_UInt32s_zero: "uInt64_from_UInt32s lo32 hi32 = 0"
  unfolding uInt64_from_UInt32s_def
  by (rule bit_word_eqI) (auto simp: bit_simps dest: bit_imp_le_length)

lemma uInt64_toAscii_0: "uInt64_toAscii 0 = ''0''"
  by code_simp

lemma not_total:
  assumes "lo32 \<noteq> 0 \<or> hi32 \<noteq> 0"
  shows "uint hi32 * 2 ^ 32 + uint lo32 \<noteq> 0"
proof
  assume h: "uint hi32 * 2 ^ 32 + uint lo32 = 0"
  have "0 \<le> uint hi32 * 2 ^ 32" "0 \<le> uint lo32" by simp_all
  with h have "uint hi32 * 2 ^ 32 = 0 \<and> uint lo32 = 0" by linarith
  then have "hi32 = 0 \<and> lo32 = 0" by (simp add: uint_0_iff)
  with assms show False by simp
qed

text \<open>
  C7.  For every pair \<open>(lo32, hi32)\<close> the composer gives
  \<open>((uint64_t)hi32 << 32) & (uint64_t)lo32\<close>, an AND where an OR was meant; the result is 0
  whenever \<open>hi32\<close> or \<open>lo32\<close> is 0.  \<open>compressStream\<close> composes the totals only when the input
  total is not \<open>(0, 0)\<close> (bzip2.c:302), and for every pair other than \<open>(0, 0)\<close> the result is
  not \<open>hi32 * 2^32 + lo32\<close>.  Its one use is the statistics printed at verbosity 1 and above,
  after both streams are closed: the totals printed are \<open>0 in, 0 out\<close> whatever was counted.
  The decoder has no call of it.
\<close>

theorem composer_is_and:
  "uInt64_from_UInt32s lo32 hi32 = push_bit 32 (ucast hi32) AND ucast lo32
   \<and> (hi32 = 0 \<or> lo32 = 0 \<longrightarrow> uInt64_from_UInt32s lo32 hi32 = 0)
   \<and> (lo32 \<noteq> 0 \<or> hi32 \<noteq> 0
        \<longrightarrow> uint (uInt64_from_UInt32s lo32 hi32) \<noteq> uint hi32 * 2 ^ 32 + uint lo32)
   \<and> compressStream_report verbosity lo32 hi32 out_lo32 out_hi32
        = (if verbosity < 1 then Silent
           else if lo32 = 0 \<and> hi32 = 0 then No_data else Totals ''0'' ''0'')"
proof (intro conjI impI)
  show "uInt64_from_UInt32s lo32 hi32 = push_bit 32 (ucast hi32) AND ucast lo32"
    by (simp add: uInt64_from_UInt32s_def)
  show "uInt64_from_UInt32s lo32 hi32 = 0" by (rule uInt64_from_UInt32s_zero)
  show "compressStream_report verbosity lo32 hi32 out_lo32 out_hi32
        = (if verbosity < 1 then Silent
           else if lo32 = 0 \<and> hi32 = 0 then No_data else Totals ''0'' ''0'')"
    by (simp add: compressStream_report_def uInt64_from_UInt32s_zero uInt64_toAscii_0)
next
  assume "lo32 \<noteq> 0 \<or> hi32 \<noteq> 0"
  from not_total [OF this] show "uint (uInt64_from_UInt32s lo32 hi32) \<noteq> uint hi32 * 2 ^ 32 + uint lo32"
    by (simp add: uInt64_from_UInt32s_zero)
qed

theorem composer_is_and_witness:
  "uInt64_from_UInt32s 5 0 = push_bit 32 (ucast (0 :: 32 word)) AND ucast (5 :: 32 word)
   \<and> uInt64_from_UInt32s 5 0 = 0
   \<and> (5 :: 32 word) \<noteq> 0
   \<and> uint (uInt64_from_UInt32s 5 0) \<noteq> uint (0 :: 32 word) * 2 ^ 32 + uint (5 :: 32 word)
   \<and> compressStream_report 1 5 0 37 0 = Totals ''0'' ''0''"
  using composer_is_and [of 5 0 1 37 0] by simp

section \<open>The bit reader and the driver, step by step\<close>

lemma take8: "uint (drop_bit 0 (push_bit 8 (w :: 32 word) OR ucast (b :: 8 word)) AND mask 8) = uint b"
proof -
  have "(push_bit 8 w OR ucast b) AND mask 8 = (ucast b :: 32 word)"
    by (rule bit_word_eqI) (auto simp: bit_simps dest: bit_imp_le_length)
  then show ?thesis by (simp add: uint_up_ucast is_up)
qed

lemma GET_UCHAR_empty:
  "bsLive s = 0 \<Longrightarrow> next_in (strm s) = b # rest \<Longrightarrow>
   GET_BITS lll 8 f s = (Some (uint b), f\<lparr>l_total_in := l_total_in f + 1\<rparr>,
      s\<lparr>state := lll, bsBuff := push_bit 8 (bsBuff s) OR ucast b, bsLive := 0,
        strm := (strm s)\<lparr>next_in := rest\<rparr>\<rparr>)"
  unfolding GET_BITS_def
  apply (subst GET_BITS_while.simps)
  apply (simp add: avail_in_def)
  apply (subst GET_BITS_while.simps)
  apply (simp add: avail_in_def take8[simplified])
  done

lemma run_Some:
  "GET_BITS lll (nnn lll f) f s = (Some v, f1, s1) \<Longrightarrow>
   run e lll f s = (case after_fetch e lll v f1 s1 of
            Fetch lll f s \<Rightarrow> run e lll f s
          | Return retVal f s \<Rightarrow> Some (save_state_and_return retVal f s)
          | AssertH_fails errcode \<Rightarrow> Some (AssertH_fail errcode)
          | Hang \<Rightarrow> None)"
  by (subst run.simps) simp

lemma run_None:
  "GET_BITS lll (nnn lll f) f s = (None, f1, s1) \<Longrightarrow>
   run e lll f s = Some (save_state_and_return BZ_OK f1 s1)"
  by (subst run.simps) simp

lemma run_uchar:
  "bsLive s = 0 \<Longrightarrow> next_in (strm s) = b # rest \<Longrightarrow> nnn lll f = 8 \<Longrightarrow>
   run e lll f s = (case after_fetch e lll (uint b) (f\<lparr>l_total_in := l_total_in f + 1\<rparr>)
      (s\<lparr>state := lll, bsBuff := push_bit 8 (bsBuff s) OR ucast b, bsLive := 0,
        strm := (strm s)\<lparr>next_in := rest\<rparr>\<rparr>) of
            Fetch lll f s \<Rightarrow> run e lll f s
          | Return retVal f s \<Rightarrow> Some (save_state_and_return retVal f s)
          | AssertH_fails errcode \<Rightarrow> Some (AssertH_fail errcode)
          | Hang \<Rightarrow> None)"
  by (rule run_Some) (simp add: GET_UCHAR_empty)


section \<open>The magic\<close>

lemma magic_ok_uint:
  "magic_ok k b \<longleftrightarrow> (if k = 0 then uint b = 0x42 else if k = 1 then uint b = 0x5A
                   else if k = 2 then uint b = 0x68 else 0x31 \<le> uint b \<and> uint b \<le> 0x39)"
  by (simp add: magic_ok_def word_uint_eq_iff word_le_def)

lemma fetched_simps [simp]:
  "bsLive (fetched lll b s) = 0" "next_in (strm (fetched lll b s)) = tl (next_in (strm s))"
  "no_output s' (fetched lll b s) = no_output s' (s\<lparr>state := lll\<rparr>)"
  "smallDecompress (fetched lll b s) = smallDecompress s"
  by (simp_all add: fetched_def no_output_def)

lemma run_magic:
  assumes "bsLive s = 0" "next_in (strm s) = b # rest"
  shows "run e BZ_X_MAGIC_1 f s =
           (if uint b \<noteq> 0x42
            then Some (save_state_and_return BZ_DATA_ERROR_MAGIC (f\<lparr>l_total_in := l_total_in f + 1\<rparr>) (fetched BZ_X_MAGIC_1 b s))
            else run e BZ_X_MAGIC_2 (f\<lparr>l_total_in := l_total_in f + 1\<rparr>) (fetched BZ_X_MAGIC_1 b s))"
    and "run e BZ_X_MAGIC_2 f s =
           (if uint b \<noteq> 0x5A
            then Some (save_state_and_return BZ_DATA_ERROR_MAGIC (f\<lparr>l_total_in := l_total_in f + 1\<rparr>) (fetched BZ_X_MAGIC_2 b s))
            else run e BZ_X_MAGIC_3 (f\<lparr>l_total_in := l_total_in f + 1\<rparr>) (fetched BZ_X_MAGIC_2 b s))"
    and "run e BZ_X_MAGIC_3 f s =
           (if uint b \<noteq> 0x68
            then Some (save_state_and_return BZ_DATA_ERROR_MAGIC (f\<lparr>l_total_in := l_total_in f + 1\<rparr>) (fetched BZ_X_MAGIC_3 b s))
            else run e BZ_X_MAGIC_4 (f\<lparr>l_total_in := l_total_in f + 1\<rparr>) (fetched BZ_X_MAGIC_3 b s))"
    and "uint b < 0x31 \<or> uint b > 0x39 \<Longrightarrow> run e BZ_X_MAGIC_4 f s =
            Some (save_state_and_return BZ_DATA_ERROR_MAGIC (f\<lparr>l_total_in := l_total_in f + 1\<rparr>)
                   ((fetched BZ_X_MAGIC_4 b s)\<lparr>blockSize100k := uint b\<rparr>))"
  using assms
  by (simp_all add: run_uchar [where b = b and rest = rest] fetched_def
      BZ_HDR_B_def BZ_HDR_Z_def BZ_HDR_h_def BZ_HDR_0_def Let_def)

text \<open>
  C3.  A session that starts a stream (state \<open>BZ_X_MAGIC_1\<close>, empty bit buffer) gets an
  input whose first offending byte is at index \<open>p < 4\<close>: the bytes before it are those of
  the magic, byte \<open>p\<close> is not.  The call returns \<open>BZ_DATA_ERROR_MAGIC\<close>, having consumed
  the input up to and including that byte, and with no output.  For \<open>p = 0\<close> this is the
  input whose first byte is not \<open>'B'\<close>.
\<close>

theorem bad_magic:
  assumes st: "state s = BZ_X_MAGIC_1" and live: "bsLive s = 0"
    and p: "p < 4" "p < length (next_in (strm s))"
    and good: "\<forall>k<p. magic_ok k (next_in (strm s) ! k)"
    and bad: "\<not> magic_ok p (next_in (strm s) ! p)"
  shows "\<exists>s'. BZ2_decompress e indet s = Some (Returns BZ_DATA_ERROR_MAGIC s')
            \<and> next_in (strm s') = drop (Suc p) (next_in (strm s)) \<and> no_output s s'"
proof -
  define s0 where "s0 = init_save_area s"
  define f0 where "f0 = restore indet s0"
  have s0: "bsLive s0 = 0" "next_in (strm s0) = next_in (strm s)" "state s0 = BZ_X_MAGIC_1"
    "tt s0 = tt s" "ll16 s0 = ll16 s" "ll4 s0 = ll4 s" "tPos s0 = tPos s" "k0 s0 = k0 s"
    "nblock_used s0 = nblock_used s" "state_out_len s0 = state_out_len s"
    "state_out_ch s0 = state_out_ch s"
    using st live by (simp_all add: s0_def init_save_area_def)
  have enter: "BZ2_decompress e indet s = run e BZ_X_MAGIC_1 f0 s0"
    using st by (simp add: BZ2_decompress_def Let_def s0_def f0_def init_save_area_def)
  have g: "0 < p \<Longrightarrow> magic_ok 0 (next_in (strm s) ! 0)"
    "1 < p \<Longrightarrow> magic_ok 1 (next_in (strm s) ! 1)"
    "2 < p \<Longrightarrow> magic_ok 2 (next_in (strm s) ! 2)"
    using good by auto
  consider "p = 0" | "p = 1" | "p = 2" | "p = 3" using p by linarith
  then show ?thesis
  proof cases
    case 1
    then obtain b0 r0 where inp: "next_in (strm s) = b0 # r0"
      using p by (cases "next_in (strm s)") auto
    with bad 1 have b: "uint b0 \<noteq> 0x42" by (simp add: magic_ok_uint)
    show ?thesis
      unfolding enter using 1 b inp s0
      by (simp add: run_magic(1) [where b = b0 and rest = r0] no_output_def fetched_def save_state_and_return_def)
  next
    case 2
    then obtain b0 b1 r1 where inp: "next_in (strm s) = b0 # b1 # r1"
      using p by (cases "next_in (strm s)"; cases "tl (next_in (strm s))") auto
    with bad g 2 have b: "uint b0 = 0x42" "uint b1 \<noteq> 0x5A" by (simp_all add: magic_ok_uint)
    show ?thesis
      unfolding enter using 2 b inp s0
      by (simp add: run_magic(1) [where b = b0 and rest = "b1 # r1"]
          run_magic(2) [where b = b1 and rest = r1] no_output_def fetched_def save_state_and_return_def)
  next
    case 3
    then obtain b0 b1 b2 r2 where inp: "next_in (strm s) = b0 # b1 # b2 # r2"
      using p by (cases "next_in (strm s)"; cases "tl (next_in (strm s))";
          cases "tl (tl (next_in (strm s)))") auto
    with bad g 3 have b: "uint b0 = 0x42" "uint b1 = 0x5A" "uint b2 \<noteq> 0x68"
      by (simp_all add: magic_ok_uint)
    show ?thesis
      unfolding enter using 3 b inp s0
      by (simp add: run_magic(1) [where b = b0 and rest = "b1 # b2 # r2"]
          run_magic(2) [where b = b1 and rest = "b2 # r2"]
          run_magic(3) [where b = b2 and rest = r2] no_output_def fetched_def save_state_and_return_def)
  next
    case 4
    then obtain b0 b1 b2 b3 r3 where inp: "next_in (strm s) = b0 # b1 # b2 # b3 # r3"
      using p by (cases "next_in (strm s)"; cases "tl (next_in (strm s))";
          cases "tl (tl (next_in (strm s)))"; cases "tl (tl (tl (next_in (strm s))))") auto
    with bad g 4 have b: "uint b0 = 0x42" "uint b1 = 0x5A" "uint b2 = 0x68"
       "uint b3 < 0x31 \<or> uint b3 > 0x39"
      by (auto simp add: magic_ok_uint)
    show ?thesis
      unfolding enter using 4 b(1-3) inp s0
      by (simp add: run_magic(1) [where b = b0 and rest = "b1 # b2 # b3 # r3"]
          run_magic(2) [where b = b1 and rest = "b2 # b3 # r3"]
          run_magic(3) [where b = b2 and rest = "b3 # r3"]
          run_magic(4) [where b = b3 and rest = r3, OF _ _ b(4)] no_output_def fetched_def save_state_and_return_def)
  qed
qed

theorem bad_magic_witness:
  "state (new_session False [0x42, 0x5A, 0x00, 0x39]) = BZ_X_MAGIC_1
   \<and> bsLive (new_session False [0x42, 0x5A, 0x00, 0x39]) = 0
   \<and> (2::nat) < 4 \<and> 2 < length (next_in (strm (new_session False [0x42, 0x5A, 0x00, 0x39])))
   \<and> magic_ok 0 0x42 \<and> magic_ok 1 0x5A \<and> \<not> magic_ok 2 0x00
   \<and> (\<exists>s'. BZ2_decompress plain_bzlib 0 (new_session False [0x42, 0x5A, 0x00, 0x39])
              = Some (Returns BZ_DATA_ERROR_MAGIC s')
            \<and> next_in (strm s') = [0x39]
            \<and> no_output (new_session False [0x42, 0x5A, 0x00, 0x39]) s')"
proof -
  let ?s = "new_session False [0x42, 0x5A, 0x00, 0x39]"
  have h: "state ?s = BZ_X_MAGIC_1" "bsLive ?s = 0" "(2::nat) < 4" "2 < length (next_in (strm ?s))"
    by (simp_all add: new_session_def)
  have g: "\<forall>k<2. magic_ok k (next_in (strm ?s) ! k)"
    by (simp add: new_session_def magic_ok_def less_Suc_eq numeral_2_eq_2)
  have b: "\<not> magic_ok 2 (next_in (strm ?s) ! 2)"
    by (simp add: new_session_def magic_ok_def)
  have d: "drop (Suc 2) (next_in (strm ?s)) = [0x39]" by (simp add: new_session_def)
  show ?thesis
    using bad_magic [OF h g b, of plain_bzlib 0] h d by (simp add: magic_ok_def)
qed

section \<open>The two checks of \<open>origPtr\<close>\<close>

lemma run_Return:
  "GET_BITS lll (nnn lll f) f s = (Some v, f1, s1) \<Longrightarrow> after_fetch e lll v f1 s1 = Return r f2 s2 \<Longrightarrow>
   run e lll f s = Some (save_state_and_return r f2 s2)"
  by (simp add: run_Some)

section \<open>Loops and the bit reader: what they keep\<close>

lemma for_up_inv:
  assumes "P k x" and "\<And>j y. k \<le> j \<Longrightarrow> j < n \<Longrightarrow> P j y \<Longrightarrow> P (j + 1) (stmt j y)"
  shows "P (fst (for_up k n stmt x)) (snd (for_up k n stmt x)) \<and> fst (for_up k n stmt x) = max k n"
  using assms
proof (induction k n stmt x rule: for_up.induct)
  case (1 k n stmt x)
  show ?case
  proof (cases "k < n")
    case True
    have "P (k + 1) (stmt k x)" using 1(2,3) True by simp
    moreover have "\<And>j y. k + 1 \<le> j \<Longrightarrow> j < n \<Longrightarrow> P j y \<Longrightarrow> P (j + 1) (stmt j y)"
      using 1(3) by simp
    ultimately have "P (fst (for_up (k + 1) n stmt (stmt k x))) (snd (for_up (k + 1) n stmt (stmt k x)))
       \<and> fst (for_up (k + 1) n stmt (stmt k x)) = max (k + 1) n"
      using 1(1) [OF True] by blast
    moreover have "for_up k n stmt x = for_up (k + 1) n stmt (stmt k x)"
      using True by (subst for_up.simps) simp
    ultimately show ?thesis using True by (auto simp add: max_def)
  next
    case False
    then have "for_up k n stmt x = (k, x)" by (subst for_up.simps) simp
    then show ?thesis using 1(2) False by (simp add: max_def)
  qed
qed

lemma GET_BITS_while_frame:
  "GET_BITS_while n f s = (r, f', s') \<Longrightarrow>
     \<exists>tot buff live inp. f' = f\<lparr>l_total_in := tot\<rparr>
       \<and> s' = s\<lparr>bsBuff := buff, bsLive := live, strm := (strm s)\<lparr>next_in := inp\<rparr>\<rparr>"
proof (induction n f s rule: GET_BITS_while.induct)
  case (1 nnn f s)
  show ?case
  proof (cases "bsLive s \<ge> nnn")
    case True
    then have "f' = f" "s' = s\<lparr>bsLive := bsLive s - nnn\<rparr>"
      using 1(2) by (subst (asm) GET_BITS_while.simps, simp add: Let_def)+
    then have "f' = f\<lparr>l_total_in := l_total_in f\<rparr>
       \<and> s' = s\<lparr>bsBuff := bsBuff s, bsLive := bsLive s - nnn, strm := (strm s)\<lparr>next_in := next_in (strm s)\<rparr>\<rparr>"
      by simp
    then show ?thesis by blast
  next
    case False
    show ?thesis
    proof (cases "avail_in (strm s) = 0")
      case True
      then have "f' = f" "s' = s"
        using 1(2) False by (subst (asm) GET_BITS_while.simps, simp)+
      then have "f' = f\<lparr>l_total_in := l_total_in f\<rparr>
         \<and> s' = s\<lparr>bsBuff := bsBuff s, bsLive := bsLive s, strm := (strm s)\<lparr>next_in := next_in (strm s)\<rparr>\<rparr>"
        by simp
      then show ?thesis by blast
    next
      case F2: False
      have "GET_BITS_while nnn (f\<lparr>l_total_in := l_total_in f + 1\<rparr>)
        (s\<lparr>bsBuff := push_bit 8 (bsBuff s) OR ucast (hd (next_in (strm s))),
           bsLive := bsLive s + 8, strm := strm s\<lparr>next_in := tl (next_in (strm s))\<rparr>\<rparr>) = (r, f', s')"
        using 1(2) False F2 by (subst (asm) GET_BITS_while.simps) simp
      from 1(1) [OF False F2 this] obtain tot buff live inp where
        "f' = f\<lparr>l_total_in := tot\<rparr> \<and> s' = s\<lparr>bsBuff := buff, bsLive := live, strm := (strm s)\<lparr>next_in := inp\<rparr>\<rparr>"
        by auto
      then show ?thesis by blast
    qed
  qed
qed

lemma GET_BITS_while_live:
  "GET_BITS_while n f s = (r, f', s') \<Longrightarrow> 0 \<le> bsLive s \<Longrightarrow> bsLive s \<le> 32 \<Longrightarrow> 0 \<le> n \<Longrightarrow> n \<le> 24 \<Longrightarrow>
     0 \<le> bsLive s' \<and> bsLive s' \<le> 32"
proof (induction n f s rule: GET_BITS_while.induct)
  case (1 nnn f s)
  show ?case
  proof (cases "bsLive s \<ge> nnn")
    case True
    then have "s' = s\<lparr>bsLive := bsLive s - nnn\<rparr>"
      using 1(2) by (subst (asm) GET_BITS_while.simps, simp add: Let_def)
    then show ?thesis using True 1(3-6) by simp
  next
    case False
    show ?thesis
    proof (cases "avail_in (strm s) = 0")
      case True
      then have "s' = s"
        using 1(2) False by (subst (asm) GET_BITS_while.simps, simp)
      then show ?thesis using 1(3-4) by simp
    next
      case F2: False
      have "GET_BITS_while nnn (f\<lparr>l_total_in := l_total_in f + 1\<rparr>)
        (s\<lparr>bsBuff := push_bit 8 (bsBuff s) OR ucast (hd (next_in (strm s))),
           bsLive := bsLive s + 8, strm := strm s\<lparr>next_in := tl (next_in (strm s))\<rparr>\<rparr>) = (r, f', s')"
        using 1(2) False F2 by (subst (asm) GET_BITS_while.simps) simp
      from 1(1) [OF False F2 this] show ?thesis using False 1(3-6) by simp
    qed
  qed
qed

lemma GET_BITS_while_None:
  "GET_BITS_while n f s = (None, f', s') \<Longrightarrow> next_in (strm s') = [] \<and> bsLive s' < n"
proof (induction n f s rule: GET_BITS_while.induct)
  case (1 nnn f s)
  show ?case
  proof (cases "bsLive s \<ge> nnn")
    case True
    then show ?thesis
      using 1(2) by (subst (asm) GET_BITS_while.simps, simp add: Let_def)
  next
    case False
    show ?thesis
    proof (cases "avail_in (strm s) = 0")
      case True
      then have "s' = s"
        using 1(2) False by (subst (asm) GET_BITS_while.simps, simp)
      then show ?thesis using True False by (simp add: avail_in_def)
    next
      case F2: False
      have "GET_BITS_while nnn (f\<lparr>l_total_in := l_total_in f + 1\<rparr>)
        (s\<lparr>bsBuff := push_bit 8 (bsBuff s) OR ucast (hd (next_in (strm s))),
           bsLive := bsLive s + 8, strm := strm s\<lparr>next_in := tl (next_in (strm s))\<rparr>\<rparr>) = (None, f', s')"
        using 1(2) False F2 by (subst (asm) GET_BITS_while.simps) simp
      from 1(1) [OF False F2 this] show ?thesis .
    qed
  qed
qed

section \<open>The parser keeps the session well formed\<close>

subsection \<open>The end of a block\<close>

lemma out_ok_simps [simp]:
  "out_ok s0 (Fetch l f s) = (bsLive s = bsLive s0 \<and> data_ok l f s \<and> l \<noteq> BZ_X_MAGIC_1)"
  "out_ok s0 (Return r f s) = (bsLive s = bsLive s0 \<and> (r = BZ_OK \<longrightarrow> state s = BZ_X_OUTPUT)
                          \<and> (r = BZ_STREAM_END \<longrightarrow> state s = BZ_X_IDLE))"
  "out_ok s0 Hang" "out_ok s0 (AssertH_fails c)"
  by (simp_all add: out_ok_def)

lemma for_up_state:
  assumes "\<And>j y. bsLive (stmt j y) = bsLive y \<and> state (stmt j y) = state y"
  shows "bsLive (snd (for_up k n stmt x)) = bsLive x \<and> state (snd (for_up k n stmt x)) = state x"
  using for_up_inv [where P = "\<lambda>j y. bsLive y = bsLive x \<and> state y = state x" and k = k and x = x and n = n and stmt = stmt]
    assms by simp

lemma first_byte_state [simp]:
  "bsLive (first_byte e get s) = bsLive s" "state (first_byte e get s) = state s"
  by (simp_all add: first_byte_def Let_def)

lemma compute_T_state [simp]:
  "bsLive (snd (compute_T e n s)) = bsLive s" "state (snd (compute_T e n s)) = state s"
  unfolding compute_T_def by (simp_all add: for_up_state Let_def)

lemma compute_Tinv_state [simp]:
  "bsLive (snd (compute_Tinv n s)) = bsLive s" "state (snd (compute_Tinv n s)) = state s"
  unfolding compute_Tinv_def by (simp_all add: for_up_state Let_def)

lemma block_output_ok: "out_ok s (block_output e f s)"
  unfolding block_output_def Let_def
  by (simp split: option.split)

lemma cftab_checks_ok: "out_ok s (cftab_checks e f s)"
proof -
  have "out_ok s (block_output e f' (s\<lparr>cftab := c\<rparr>))" for f' c
    using block_output_ok [of "s\<lparr>cftab := c\<rparr>" e f'] by (simp add: out_ok_def split: outcome.splits)
  then show ?thesis
    unfolding cftab_checks_def Let_def
    by (simp split: prod.split bool.split add: case_prod_beta)
qed

lemma block_end_ok: "out_ok s (block_end e f s)"
  by (simp add: block_end_def cftab_checks_ok)

subsection \<open>The loop over the MTF values\<close>

lemma GET_MTF_VAL_group_ok:
  assumes "mtf_pre f s" "l_groupPos f \<noteq> 0 \<longrightarrow> 1 \<le> l_gMinlen f \<and> l_gMinlen f \<le> 20"
    and "GET_MTF_VAL_group f s = (True, f')"
  shows "mtf_ok f' s \<and> l_zn f' = l_gMinlen f'"
proof (cases "l_groupPos f = 0")
  case True
  with assms(3) have lt: "l_groupNo f + 1 < l_nSelectors f"
    by (simp add: GET_MTF_VAL_group_def Let_def split: if_splits)
  with assms(1) have "1 \<le> minLens s (selector s (l_groupNo f + 1))
      \<and> minLens s (selector s (l_groupNo f + 1)) \<le> 20"
    by (simp add: mtf_pre_def minLens_ok_def)
  with True assms(1,3) lt show ?thesis
    by (auto simp add: GET_MTF_VAL_group_def Let_def mtf_ok_def mtf_pre_def)
next
  case False
  with assms show ?thesis
    by (auto simp add: GET_MTF_VAL_group_def Let_def mtf_ok_def mtf_pre_def)
qed

lemma GET_MTF_VAL_ok:
  assumes "mtf_pre f s" "l_groupPos f \<noteq> 0 \<longrightarrow> 1 \<le> l_gMinlen f \<and> l_gMinlen f \<le> 20"
    and "label1 = BZ_X_MTF_1 \<or> label1 = BZ_X_MTF_3 \<or> label1 = BZ_X_MTF_5"
  shows "out_ok s (GET_MTF_VAL label1 f s)"
proof (cases "GET_MTF_VAL_group f s")
  case (Pair b f')
  show ?thesis
  proof (cases b)
    case True
    with Pair GET_MTF_VAL_group_ok [OF assms(1,2), of f'] assms(3) show ?thesis
      by (auto simp: GET_MTF_VAL_def)
  next
    case False
    with Pair show ?thesis by (simp add: GET_MTF_VAL_def)
  qed
qed

lemma mtf_ok_pre: "mtf_ok f s \<Longrightarrow> mtf_pre f s" by (simp add: mtf_ok_def)

lemma run_do_ok: "mtf_ok f s \<Longrightarrow> out_ok s (run_do f s)"
  unfolding run_do_def Let_def
  by (auto intro!: GET_MTF_VAL_ok simp: mtf_ok_def mtf_pre_def)

lemma mtf_literal_ok: "mtf_ok f s \<Longrightarrow> out_ok s (mtf_literal f s)"
proof -
  assume ok: "mtf_ok f s"
  have "out_ok s (GET_MTF_VAL BZ_X_MTF_5 f' s') = out_ok s' (GET_MTF_VAL BZ_X_MTF_5 f' s')"
    if "bsLive s' = bsLive s" for f' s'
    using that by (simp add: out_ok_def split: outcome.splits)
  moreover have "out_ok s' (GET_MTF_VAL BZ_X_MTF_5 f' s')"
    if "mtf_ok f' s'" for f' s'
    using that by (intro GET_MTF_VAL_ok) (auto simp: mtf_ok_def)
  ultimately show ?thesis
    using ok unfolding mtf_literal_def Let_def
    by (auto simp: case_prod_beta mtf_ok_def mtf_pre_def)
qed

lemma mtf_while_ok: "mtf_ok f s \<Longrightarrow> out_ok s (mtf_while e f s)"
  unfolding mtf_while_def
  by (auto intro!: run_do_ok mtf_literal_ok block_end_ok simp: mtf_ok_def mtf_pre_def)

lemma append_run_frame:
  "append_run small uc f s = (b, f', s') \<Longrightarrow>
     \<exists>nb es l16 t32. f' = f\<lparr>l_nblock := nb, l_es := es\<rparr> \<and> s' = s\<lparr>ll16 := l16, tt := t32\<rparr>"
proof (induction small uc f s rule: append_run.induct)
  case (1 small uc f s)
  show ?case
  proof (cases "l_es f > 0 \<and> \<not> l_nblock f \<ge> l_nblockMAX f")
    case True
    let ?f = "f\<lparr>l_nblock := l_nblock f + 1, l_es := l_es f - 1\<rparr>"
    let ?s = "if small then s\<lparr>ll16 := (ll16 s)(l_nblock f := uint16_t uc)\<rparr>
                 else s\<lparr>tt := (tt s)(l_nblock f := word_of_int uc)\<rparr>"
    have eq: "append_run small uc f s = append_run small uc ?f ?s"
      using True by (subst append_run.simps) simp
    have "\<exists>nb es l16 t32. f' = ?f\<lparr>l_nblock := nb, l_es := es\<rparr> \<and> s' = ?s\<lparr>ll16 := l16, tt := t32\<rparr>"
      using True 1(2) unfolding eq by (intro 1(1)) simp_all
    then obtain nb es l16 t32 where
      h: "f' = ?f\<lparr>l_nblock := nb, l_es := es\<rparr>" "s' = ?s\<lparr>ll16 := l16, tt := t32\<rparr>" by blast
    have "f' = f\<lparr>l_nblock := nb, l_es := es\<rparr>" using h(1) by simp
    moreover have "s' = s\<lparr>ll16 := l16, tt := t32\<rparr>" using h(2) by (cases small) simp_all
    ultimately show ?thesis by blast
  next
    case False
    have "append_run small uc f s = (l_es f \<le> 0, f, s)"
      using False by (subst append_run.simps) simp
    with 1(2) have "f' = f" "s' = s" by simp_all
    then have "f' = f\<lparr>l_nblock := l_nblock f, l_es := l_es f\<rparr> \<and> s' = s\<lparr>ll16 := ll16 s, tt := tt s\<rparr>"
      by simp
    then show ?thesis by blast
  qed
qed

lemma run_end_ok: "mtf_ok f s \<Longrightarrow> out_ok s (run_end e f s)"
proof -
  assume ok: "mtf_ok f s"
  define f1 where "f1 = f\<lparr>l_es := l_es f + 1\<rparr>"
  define uc where "uc = seqToUnseq s (mtfa s (mtfbase s 0))"
  define s1 where "s1 = s\<lparr>unzftab := (unzftab s)(uc := unzftab s uc + l_es f1)\<rparr>"
  obtain b f2 s2 where ar: "append_run (smallDecompress s1) uc f1 s1 = (b, f2, s2)"
    by (cases "append_run (smallDecompress s1) uc f1 s1") auto
  from append_run_frame [OF ar] obtain nb es l16 t32 where
    fr: "f2 = f1\<lparr>l_nblock := nb, l_es := es\<rparr>" "s2 = s1\<lparr>ll16 := l16, tt := t32\<rparr>" by auto
  have ok2: "mtf_ok f2 s2" "bsLive s2 = bsLive s"
    using ok by (simp_all add: fr f1_def s1_def mtf_ok_def mtf_pre_def)
  have "out_ok s (mtf_while e f2 s2)"
    using mtf_while_ok [OF ok2(1), of e] ok2(2) by (simp add: out_ok_def split: outcome.splits)
  then show ?thesis
    using ar ok2 unfolding run_end_def Let_def f1_def [symmetric] uc_def [symmetric] s1_def [symmetric]
    by (cases b) simp_all
qed

lemma after_GET_MTF_VAL_ok: "mtf_ok f s \<Longrightarrow> out_ok s (after_GET_MTF_VAL e label1 f s)"
  by (simp add: after_GET_MTF_VAL_def run_do_ok run_end_ok mtf_while_ok)

lemma GET_MTF_VAL_while_ok:
  "mtf_ok f s \<Longrightarrow> label2 = BZ_X_MTF_2 \<or> label2 = BZ_X_MTF_4 \<or> label2 = BZ_X_MTF_6 \<Longrightarrow>
   out_ok s (GET_MTF_VAL_while e label1 label2 f s)"
  unfolding GET_MTF_VAL_while_def
  by (auto intro!: after_GET_MTF_VAL_ok simp: mtf_ok_def mtf_pre_def)

subsection \<open>The coding tables\<close>

lemma out_ok_live: "bsLive s' = bsLive s \<Longrightarrow> out_ok s' x \<Longrightarrow> out_ok s x"
  by (simp add: out_ok_def split: outcome.splits)

lemma mtf_start_ok:
  assumes "minLens_ok (l_nSelectors f) (selector s) (minLens s)"
    and "len_ok (l_alphaSize f) (len s) (l_nGroups f) 0"
  shows "out_ok s (mtf_start f s)"
proof -
  have "out_ok s' (GET_MTF_VAL BZ_X_MTF_1 f' s')"
    if "mtf_pre f' s'" "l_groupPos f' = 0" for f' s'
    using that by (intro GET_MTF_VAL_ok) simp_all
  then show ?thesis
    unfolding mtf_start_def Let_def
    by (rule out_ok_live [rotated]) (simp_all add: mtf_pre_def assms)
qed

lemma minmax_loop:
  fixes ln :: "int \<Rightarrow> int"
  assumes "1 \<le> alpha" and "\<And>i. 0 \<le> i \<Longrightarrow> i < alpha \<Longrightarrow> 1 \<le> ln i \<and> ln i \<le> 20"
  shows "1 \<le> fst (snd (for_up 0 alpha
                     (\<lambda>i (minLen, maxLen).
                        let target = ln i;
                            maxLen = (if target > maxLen then target else maxLen);
                            minLen = (if target < minLen then target else minLen)
                        in (minLen, maxLen)) (32, 0)))
       \<and> fst (snd (for_up 0 alpha
                     (\<lambda>i (minLen, maxLen).
                        let target = ln i;
                            maxLen = (if target > maxLen then target else maxLen);
                            minLen = (if target < minLen then target else minLen)
                        in (minLen, maxLen)) (32, 0))) \<le> 20"
proof -
  let ?stmt = "(\<lambda>i (minLen :: int, maxLen :: int).
                        let target = ln i;
                            maxLen = (if target > maxLen then target else maxLen);
                            minLen = (if target < minLen then target else minLen)
                        in (minLen, maxLen))"
  let ?P = "\<lambda>(i :: int) (x :: int \<times> int). (i = 0 \<longrightarrow> fst x = 32) \<and> (i > 0 \<longrightarrow> 1 \<le> fst x \<and> fst x \<le> 20)"
  have "?P (fst (for_up 0 alpha ?stmt (32 :: int, 0 :: int))) (snd (for_up 0 alpha ?stmt (32 :: int, 0 :: int)))
      \<and> fst (for_up 0 alpha ?stmt (32 :: int, 0 :: int)) = max 0 alpha"
  proof (rule for_up_inv)
    show "?P 0 (32 :: int, 0 :: int)" by simp
  next
    fix j y assume "(0::int) \<le> j" "j < alpha" "?P j y"
    then show "?P (j + 1) (?stmt j y)"
      using assms(2) [of j] by (cases y) (auto simp: Let_def)
  qed
  then show ?thesis using assms(1) by (simp add: max_def)
qed

lemma create_tables_ok:
  assumes "1 \<le> l_alphaSize f" "len_ok (l_alphaSize f) (len s) (l_nGroups f) 0"
    and "create_tables e f s = (f', s')"
  shows "bsLive s' = bsLive s \<and> len s' = len s \<and> selector s' = selector s
     \<and> l_nSelectors f' = l_nSelectors f \<and> l_alphaSize f' = l_alphaSize f \<and> l_nGroups f' = l_nGroups f
     \<and> (\<forall>t. 0 \<le> t \<and> t < l_nGroups f \<longrightarrow> 1 \<le> minLens s' t \<and> minLens s' t \<le> 20)"
proof -
  let ?inner = "\<lambda>s t. for_up 0 (l_alphaSize f)
                     (\<lambda>i (minLen, maxLen).
                        let target = len s t i;
                            maxLen = (if target > maxLen then target else maxLen);
                            minLen = (if target < minLen then target else minLen)
                        in (minLen, maxLen)) (32, 0)"
  let ?stmt = "(\<lambda>t (i, s).
               let (i, minLen, maxLen) = ?inner s t;
                   (lim, bas, prm) = BZ2_hbCreateDecodeTables e (limit s t) (base s t) (perm s t)
                                       (len s t) minLen maxLen (l_alphaSize f)
               in (i, s\<lparr>limit := (limit s)(t := lim), base := (base s)(t := bas),
                        perm := (perm s)(t := prm), minLens := (minLens s)(t := minLen)\<rparr>))"
  let ?P = "\<lambda>(t :: int) (x :: int \<times> DState). bsLive (snd x) = bsLive s \<and> len (snd x) = len s
      \<and> selector (snd x) = selector s
      \<and> (\<forall>t'. 0 \<le> t' \<and> t' < t \<longrightarrow> 1 \<le> minLens (snd x) t' \<and> minLens (snd x) t' \<le> 20)"
  let ?X = "for_up 0 (l_nGroups f) ?stmt (l_i f, s)"
  have X: "?P (fst ?X) (snd ?X) \<and> fst ?X = max 0 (l_nGroups f)"
  proof (rule for_up_inv)
    show "?P 0 (l_i f, s)" by simp
  next
    fix j y assume j: "(0::int) \<le> j" "j < l_nGroups f" and P: "?P j y"
    obtain i0 s0 where y: "y = (i0, s0)" by (cases y)
    have "1 \<le> fst (snd (?inner s0 j)) \<and> fst (snd (?inner s0 j)) \<le> 20"
    proof (rule minmax_loop [OF assms(1)])
      fix i assume "(0::int) \<le> i" "i < l_alphaSize f"
      then show "1 \<le> len s0 j i \<and> len s0 j i \<le> 20"
        using assms(2) j P y by (simp add: len_ok_def)
    qed
    then show "?P (j + 1) (?stmt j y)"
      using P y by (simp add: case_prod_beta Let_def)
  qed
  have ct: "create_tables e f s = (f\<lparr>l_t := fst ?X, l_i := fst (snd ?X)\<rparr>, snd (snd ?X))"
    unfolding create_tables_def by (simp add: case_prod_beta)
  show ?thesis
    using X assms(3) unfolding ct by (auto simp: max_def)
qed

lemma len_ok_mono: "len_ok alpha ln t i \<Longrightarrow> t' \<le> t \<Longrightarrow> len_ok alpha ln t' 0"
  unfolding len_ok_def by (metis dual_order.strict_trans1 not_less)

lemma coding_for_t_ok:
  assumes "1 \<le> l_alphaSize f" "0 \<le> l_t f" "sel_ok (l_nSelectors f) (l_nGroups f) (selector s)"
    and "len_ok (l_alphaSize f) (len s) (l_t f) 0"
  shows "out_ok s (coding_for_t e f s)"
proof (cases "l_t f < l_nGroups f")
  case True
  then show ?thesis using assms by (simp add: coding_for_t_def coding_ok_def)
next
  case False
  obtain f' s' where ct: "create_tables e f s = (f', s')" by (cases "create_tables e f s")
  have lo: "len_ok (l_alphaSize f) (len s) (l_nGroups f) 0"
    using len_ok_mono [OF assms(4)] False by simp
  note c = create_tables_ok [OF assms(1) lo ct]
  have "minLens_ok (l_nSelectors f') (selector s') (minLens s')"
    using c assms(3) by (simp add: minLens_ok_def sel_ok_def)
  moreover have "len_ok (l_alphaSize f') (len s') (l_nGroups f') 0" using c lo by simp
  ultimately have "out_ok s' (mtf_start f' s')" by (rule mtf_start_ok)
  then have "out_ok s (mtf_start f' s')" using c by (intro out_ok_live [of s' s]) simp_all
  then show ?thesis using False ct by (simp add: coding_for_t_def)
qed

lemma coding_while_ok:
  assumes "coding_ok f s" "0 \<le> l_i f" "l_i f < l_alphaSize f" "len_ok (l_alphaSize f) (len s) (l_t f) (l_i f)"
  shows "out_ok s (coding_while f s)"
  using assms by (simp add: coding_while_def)

lemma len_ok_next: "len_ok alpha ln t i \<Longrightarrow> alpha \<le> i \<Longrightarrow> len_ok alpha ln (t + 1) 0"
  unfolding len_ok_def by (smt (verit))

lemma coding_for_i_ok:
  assumes "coding_ok f s" "0 \<le> l_i f" "len_ok (l_alphaSize f) (len s) (l_t f) (l_i f)"
  shows "out_ok s (coding_for_i e f s)"
proof (cases "l_i f < l_alphaSize f")
  case True
  then show ?thesis using assms by (simp add: coding_for_i_def coding_while_ok)
next
  case False
  have "out_ok s (coding_for_t e (f\<lparr>l_t := l_t f + 1\<rparr>) s)"
    using assms False len_ok_next [OF assms(3)]
    by (intro coding_for_t_ok) (simp_all add: coding_ok_def)
  then show ?thesis using False by (simp add: coding_for_i_def)
qed

subsection \<open>The selectors and the mapping table\<close>

lemma uint8_t_small [simp]: "0 \<le> x \<Longrightarrow> x < 256 \<Longrightarrow> uint8_t x = x"
  by (simp add: uint8_t_def)

lemma pos_init:
  assumes "g \<le> 6"
  shows "\<forall>k. 0 \<le> k \<and> k < g \<longrightarrow> snd (for_up 0 g (\<lambda>v pos. pos(v := uint8_t v)) (\<lambda>k. 0)) k = k"
proof -
  let ?P = "\<lambda>(v :: int) (pos :: int \<Rightarrow> int). \<forall>k. 0 \<le> k \<and> k < v \<longrightarrow> pos k = k"
  have "?P (fst (for_up 0 g (\<lambda>v pos. pos(v := uint8_t v)) (\<lambda>k. 0)))
           (snd (for_up 0 g (\<lambda>v pos. pos(v := uint8_t v)) (\<lambda>k. 0)))
      \<and> fst (for_up 0 g (\<lambda>v pos. pos(v := uint8_t v)) (\<lambda>k. 0)) = max 0 g"
  proof (rule for_up_inv)
    show "?P 0 (\<lambda>k. 0)" by simp
  next
    fix j :: int and y :: "int \<Rightarrow> int"
    assume "0 \<le> j" "j < g" "?P j y"
    then show "?P (j + 1) (y(j := uint8_t j))" using assms by auto
  qed
  then show ?thesis by (auto simp: max_def)
qed

lemma undo_loop:
  fixes pos0 :: "int \<Rightarrow> int" and sel0 sm :: "int \<Rightarrow> int"
  assumes p0: "\<forall>k. 0 \<le> k \<and> k < g \<longrightarrow> 0 \<le> pos0 k \<and> pos0 k < g"
    and sm: "\<forall>k. 0 \<le> k \<and> k < n \<longrightarrow> 0 \<le> sm k \<and> sm k < g"
  shows "sel_ok n g (snd (snd (for_up 0 n
             (\<lambda>i (pos, sel).
                let v = sm i;
                    tmp = pos v;
                    pos = memmove_up pos 0 v;
                    pos = pos(0 := tmp)
                in (pos, sel(i := tmp)))
             (pos0, sel0))))"
proof -
  let ?stmt = "(\<lambda>i (pos :: int \<Rightarrow> int, sel :: int \<Rightarrow> int).
                let v = sm i;
                    tmp = pos v;
                    pos = memmove_up pos 0 v;
                    pos = pos(0 := tmp)
                in (pos, sel(i := tmp)))"
  let ?P = "\<lambda>(i :: int) (x :: (int \<Rightarrow> int) \<times> (int \<Rightarrow> int)).
      (\<forall>k. 0 \<le> k \<and> k < g \<longrightarrow> 0 \<le> fst x k \<and> fst x k < g)
      \<and> (\<forall>k. 0 \<le> k \<and> k < i \<longrightarrow> 0 \<le> snd x k \<and> snd x k < g)"
  have "?P (fst (for_up 0 n ?stmt (pos0, sel0))) (snd (for_up 0 n ?stmt (pos0, sel0)))
      \<and> fst (for_up 0 n ?stmt (pos0, sel0)) = max 0 n"
  proof (rule for_up_inv)
    show "?P 0 (pos0, sel0)" using p0 by simp
  next
    fix j :: int and y :: "(int \<Rightarrow> int) \<times> (int \<Rightarrow> int)"
    assume j: "0 \<le> j" "j < n" and P: "?P j y"
    obtain pos sel where y: "y = (pos, sel)" by (cases y)
    have v: "0 \<le> sm j" "sm j < g" using sm j by auto
    have tmp: "0 \<le> pos (sm j)" "pos (sm j) < g" using P y v by auto
    have pos': "\<forall>k. 0 \<le> k \<and> k < g \<longrightarrow>
        0 \<le> ((memmove_up pos 0 (sm j))(0 := pos (sm j))) k \<and> ((memmove_up pos 0 (sm j))(0 := pos (sm j))) k < g"
      using P y tmp v by (auto simp: memmove_up_def)
    have sel': "\<forall>k. 0 \<le> k \<and> k < j + 1 \<longrightarrow> 0 \<le> (sel(j := pos (sm j))) k \<and> (sel(j := pos (sm j))) k < g"
      using P y tmp by auto
    show "?P (j + 1) (?stmt j y)"
      unfolding y using pos' sel' by (simp add: Let_def)
  qed
  then show ?thesis by (auto simp: sel_ok_def max_def)
qed

lemma undo_selector_mtf_ok:
  assumes "1 \<le> l_alphaSize f" "2 \<le> l_nGroups f" "l_nGroups f \<le> BZ_N_GROUPS"
    and "selMtf_ok (l_nSelectors f) (l_nGroups f) (selectorMtf s)"
  shows "out_ok s (undo_selector_mtf e f s)"
proof -
  define n where "n = (if l_nSelectors f > BZ_MAX_SELECTORS then BZ_MAX_SELECTORS else l_nSelectors f)"
  define f1 where "f1 = (if l_nSelectors f > BZ_MAX_SELECTORS then f\<lparr>l_nSelectors := BZ_MAX_SELECTORS\<rparr> else f)"
  define pos0 where "pos0 = snd (for_up 0 (l_nGroups f) (\<lambda>v pos. pos(v := uint8_t v)) (\<lambda>k. 0))"
  define X where "X = for_up 0 n
             (\<lambda>i (pos, sel).
                let v = selectorMtf s i;
                    tmp = pos v;
                    pos = memmove_up pos 0 v;
                    pos = pos(0 := tmp)
                in (pos, sel(i := tmp)))
             (pos0, selector s)"
  have f1: "l_nSelectors f1 = n" "l_nGroups f1 = l_nGroups f" "l_alphaSize f1 = l_alphaSize f"
    by (simp_all add: f1_def n_def)
  have p0: "\<forall>k. 0 \<le> k \<and> k < l_nGroups f \<longrightarrow> 0 \<le> pos0 k \<and> pos0 k < l_nGroups f"
    using pos_init [of "l_nGroups f"] assms(3) by (simp add: pos0_def BZ_N_GROUPS_def)
  have sm: "\<forall>k. 0 \<le> k \<and> k < n \<longrightarrow> 0 \<le> selectorMtf s k \<and> selectorMtf s k < l_nGroups f"
    using assms(4) by (auto simp: selMtf_ok_def n_def split: if_splits)
  have so: "sel_ok n (l_nGroups f) (snd (snd X))"
    unfolding X_def by (rule undo_loop [OF p0 sm])
  have eq: "undo_selector_mtf e f s
      = coding_for_t e (f1\<lparr>l_i := fst X, l_t := 0\<rparr>) (s\<lparr>selector := snd (snd X)\<rparr>)"
    unfolding undo_selector_mtf_def Let_def f1_def [symmetric]
    by (simp add: case_prod_beta f1 pos0_def [symmetric] X_def Let_def)
  have "out_ok (s\<lparr>selector := snd (snd X)\<rparr>)
          (coding_for_t e (f1\<lparr>l_i := fst X, l_t := 0\<rparr>) (s\<lparr>selector := snd (snd X)\<rparr>))"
    using assms(1) so by (intro coding_for_t_ok) (auto simp add: f1 len_ok_def)
  then show ?thesis unfolding eq by (rule out_ok_live [rotated]) simp
qed

lemma selMtf_ok_mono: "selMtf_ok i g sm \<Longrightarrow> n \<le> i \<Longrightarrow> selMtf_ok n g sm"
  by (auto simp: selMtf_ok_def)

lemma selector_for_ok:
  assumes "1 \<le> l_alphaSize f" "2 \<le> l_nGroups f" "l_nGroups f \<le> BZ_N_GROUPS" "0 \<le> l_i f"
    and "selMtf_ok (l_i f) (l_nGroups f) (selectorMtf s)"
  shows "out_ok s (selector_for e f s)"
proof (cases "l_i f < l_nSelectors f")
  case True
  then show ?thesis using assms by (simp add: selector_for_def)
next
  case False
  then show ?thesis
    using assms selMtf_ok_mono [OF assms(5), of "l_nSelectors f"]
    by (simp add: selector_for_def undo_selector_mtf_ok)
qed

lemma makeMaps_d_props: "bsLive (makeMaps_d s) = bsLive s \<and> 0 \<le> nInUse (makeMaps_d s)"
proof -
  let ?stmt = "(\<lambda>i s. if inUse s i
             then s\<lparr>seqToUnseq := (seqToUnseq s)(nInUse s := uint8_t i), nInUse := nInUse s + 1\<rparr>
             else s)"
  let ?P = "\<lambda>(i :: int) y. bsLive y = bsLive s \<and> 0 \<le> nInUse y"
  have "?P (fst (for_up 0 256 ?stmt (s\<lparr>nInUse := 0\<rparr>))) (snd (for_up 0 256 ?stmt (s\<lparr>nInUse := 0\<rparr>)))
     \<and> fst (for_up 0 256 ?stmt (s\<lparr>nInUse := 0\<rparr>)) = max 0 256"
    by (rule for_up_inv) simp_all
  then show ?thesis by (simp add: makeMaps_d_def)
qed

lemma mapping_done_ok: "out_ok s (mapping_done f s)"
  using makeMaps_d_props [of s] by (simp add: mapping_done_def Let_def)

lemma mapping_for_ok: "out_ok s (mapping_for f s)"
proof (induction f s rule: mapping_for.induct)
  case (1 f s)
  show ?case
  proof (cases "l_i f < 16")
    case True
    show ?thesis
    proof (cases "inUse16 s (l_i f)")
      case T2: True
      with True show ?thesis by (subst mapping_for.simps) simp
    next
      case False
      with True 1 show ?thesis by (subst mapping_for.simps) simp
    qed
  next
    case False
    then show ?thesis by (subst mapping_for.simps) (simp add: mapping_done_ok)
  qed
qed

subsection \<open>The code after each fetch\<close>

lemma len_ok_store:
  assumes "len_ok alpha ln t i" "1 \<le> c" "c \<le> 20"
  shows "len_ok alpha (ln(t := (ln t)(i := c))) t (i + 1)"
  using assms unfolding len_ok_def by (auto simp: fun_upd_def)

lemma selMtf_ok_store:
  assumes "selMtf_ok i g sm" "0 \<le> j" "j < g"
  shows "selMtf_ok (i + 1) g (sm(i := j))"
  using assms unfolding selMtf_ok_def by auto

lemma selMtf_ok_skip:
  assumes "selMtf_ok i g sm" "\<not> i < BZ_MAX_SELECTORS"
  shows "selMtf_ok (i + 1) g sm"
  using assms unfolding selMtf_ok_def by auto

lemma after_fetch_coding_2:
  assumes "data_ok BZ_X_CODING_2 f s"
  shows "out_ok s (after_fetch e BZ_X_CODING_2 v f s)"
proof (cases "v = 0")
  case True
  let ?s = "s\<lparr>len := (len s)(l_t f := (len s (l_t f))(l_i f := uint8_t (l_curr f)))\<rparr>"
  have "out_ok ?s (coding_for_i e (f\<lparr>l_i := l_i f + 1\<rparr>) ?s)"
    using assms len_ok_store [of "l_alphaSize f" "len s" "l_t f" "l_i f" "l_curr f"]
    by (intro coding_for_i_ok) (simp_all add: coding_ok_def)
  then have "out_ok s (coding_for_i e (f\<lparr>l_i := l_i f + 1\<rparr>) ?s)"
    by (rule out_ok_live [rotated]) simp
  then show ?thesis using True by (simp add: Let_def)
next
  case False
  then show ?thesis using assms by simp
qed

lemma after_fetch_selector_3:
  assumes "data_ok BZ_X_SELECTOR_3 f s"
  shows "out_ok s (after_fetch e BZ_X_SELECTOR_3 v f s)"
proof (cases "v = 0")
  case True
  let ?s = "(if l_i f < BZ_MAX_SELECTORS
                  then s\<lparr>selectorMtf := (selectorMtf s)(l_i f := uint8_t (l_j f))\<rparr> else s)"
  have j: "uint8_t (l_j f) = l_j f" using assms by (simp add: BZ_N_GROUPS_def)
  have "selMtf_ok (l_i f + 1) (l_nGroups f) (selectorMtf ?s)"
    using assms selMtf_ok_store [of "l_i f" "l_nGroups f" "selectorMtf s" "l_j f"]
      selMtf_ok_skip [of "l_i f" "l_nGroups f" "selectorMtf s"] j by simp
  then have "out_ok ?s (selector_for e (f\<lparr>l_i := l_i f + 1\<rparr>) ?s)"
    using assms by (intro selector_for_ok) simp_all
  then have "out_ok s (selector_for e (f\<lparr>l_i := l_i f + 1\<rparr>) ?s)"
    by (rule out_ok_live [rotated]) simp
  then show ?thesis using True by (simp add: Let_def)
next
  case False
  then show ?thesis using assms by (simp add: Let_def)
qed

lemma after_fetch_mapping:
  "out_ok s (after_fetch e BZ_X_MAPPING_1 v f s)" "out_ok s (after_fetch e BZ_X_MAPPING_2 v f s)"
proof -
  have m: "out_ok s (mapping_for f' s')" if "bsLive s' = bsLive s" for f' s'
    using mapping_for_ok [of s' f'] that by (rule out_ok_live [rotated]) 
  show "out_ok s (after_fetch e BZ_X_MAPPING_1 v f s)" "out_ok s (after_fetch e BZ_X_MAPPING_2 v f s)"
    by (simp_all add: Let_def m)
qed

lemma after_fetch_mtf:
  assumes "mtf_ok f s"
  shows "out_ok s (after_fetch e BZ_X_MTF_1 v f s)" "out_ok s (after_fetch e BZ_X_MTF_2 v f s)"
    "out_ok s (after_fetch e BZ_X_MTF_3 v f s)" "out_ok s (after_fetch e BZ_X_MTF_4 v f s)"
    "out_ok s (after_fetch e BZ_X_MTF_5 v f s)" "out_ok s (after_fetch e BZ_X_MTF_6 v f s)"
proof -
  have w: "out_ok s (GET_MTF_VAL_while e l1 l2 f' s)"
    if "l2 = BZ_X_MTF_2 \<or> l2 = BZ_X_MTF_4 \<or> l2 = BZ_X_MTF_6" "mtf_ok f' s" for l1 l2 f'
    using that by (intro GET_MTF_VAL_while_ok) simp_all
  have a: "mtf_ok (f\<lparr>l_zvec := x\<rparr>) s" "mtf_ok (f\<lparr>l_zj := y, l_zvec := x\<rparr>) s" for x y
    using assms by (simp_all add: mtf_ok_def mtf_pre_def)
  show "out_ok s (after_fetch e BZ_X_MTF_1 v f s)" "out_ok s (after_fetch e BZ_X_MTF_2 v f s)"
    "out_ok s (after_fetch e BZ_X_MTF_3 v f s)" "out_ok s (after_fetch e BZ_X_MTF_4 v f s)"
    "out_ok s (after_fetch e BZ_X_MTF_5 v f s)" "out_ok s (after_fetch e BZ_X_MTF_6 v f s)"
    by (simp_all add: Let_def w a)
qed

lemma after_fetch_ok: "data_ok lll f s \<Longrightarrow> out_ok s (after_fetch e lll v f s)"
proof (cases lll)
  case BZ_X_SELECTOR_2
  assume d: "data_ok lll f s"
  have "out_ok s (selector_for e (f\<lparr>l_nSelectors := v, l_i := 0\<rparr>) s)"
    using d BZ_X_SELECTOR_2 by (intro selector_for_ok) (simp_all add: selMtf_ok_def)
  then show ?thesis using BZ_X_SELECTOR_2 by (simp add: Let_def)
next
  case BZ_X_SELECTOR_3
  then show "data_ok lll f s \<Longrightarrow> ?thesis" using after_fetch_selector_3 by simp
next
  case BZ_X_CODING_1
  assume d: "data_ok lll f s"
  have "out_ok s (coding_for_i e (f\<lparr>l_curr := v, l_i := 0\<rparr>) s)"
    using d BZ_X_CODING_1 by (intro coding_for_i_ok) (simp_all add: coding_ok_def)
  then show ?thesis using BZ_X_CODING_1 by (simp add: Let_def)
next
  case BZ_X_CODING_2
  then show "data_ok lll f s \<Longrightarrow> ?thesis" using after_fetch_coding_2 by simp
next
  case BZ_X_CODING_3
  assume d: "data_ok lll f s"
  have "out_ok s (coding_while (f\<lparr>l_curr := c\<rparr>) s)" for c
    using d BZ_X_CODING_3 by (intro coding_while_ok) (simp_all add: coding_ok_def)
  then show ?thesis using BZ_X_CODING_3 by (simp add: Let_def)
next
  case BZ_X_MAPPING_1
  then show "data_ok lll f s \<Longrightarrow> ?thesis" using after_fetch_mapping(1) by simp
next
  case BZ_X_MAPPING_2
  then show "data_ok lll f s \<Longrightarrow> ?thesis" using after_fetch_mapping(2) by simp
next
  case BZ_X_MTF_1
  then show "data_ok lll f s \<Longrightarrow> ?thesis" using after_fetch_mtf(1) by simp
next
  case BZ_X_MTF_2
  then show "data_ok lll f s \<Longrightarrow> ?thesis" using after_fetch_mtf(2) by simp
next
  case BZ_X_MTF_3
  then show "data_ok lll f s \<Longrightarrow> ?thesis" using after_fetch_mtf(3) by simp
next
  case BZ_X_MTF_4
  then show "data_ok lll f s \<Longrightarrow> ?thesis" using after_fetch_mtf(4) by simp
next
  case BZ_X_MTF_5
  then show "data_ok lll f s \<Longrightarrow> ?thesis" using after_fetch_mtf(5) by simp
next
  case BZ_X_MTF_6
  then show "data_ok lll f s \<Longrightarrow> ?thesis" using after_fetch_mtf(6) by simp
qed (simp_all add: Let_def)

subsection \<open>A whole call\<close>

lemma data_ok_cong:
  assumes "l_i f' = l_i f" "l_j f' = l_j f" "l_t f' = l_t f" "l_alphaSize f' = l_alphaSize f"
    "l_nGroups f' = l_nGroups f" "l_nSelectors f' = l_nSelectors f" "l_groupNo f' = l_groupNo f"
    "l_curr f' = l_curr f" "l_zn f' = l_zn f" "l_gMinlen f' = l_gMinlen f"
    and "selector s' = selector s" "selectorMtf s' = selectorMtf s" "len s' = len s"
    "minLens s' = minLens s"
  shows "data_ok lll f' s' = data_ok lll f s"
  by (cases lll) (simp_all add: coding_ok_def mtf_ok_def mtf_pre_def assms)

lemma nnn_range: "data_ok lll f s \<Longrightarrow> 0 \<le> nnn lll f \<and> nnn lll f \<le> 24"
  by (cases lll) (simp_all add: mtf_ok_def)

lemma nnn_total_in [simp]: "nnn lll (f\<lparr>l_total_in := x\<rparr>) = nnn lll f"
  by (cases lll) simp_all

lemma GET_BITS_ok:
  assumes g: "GET_BITS lll (nnn lll f) f s = (r, f1, s1)"
    and live: "0 \<le> bsLive s" "bsLive s \<le> 32" and d: "data_ok lll f s"
  shows "0 \<le> bsLive s1 \<and> bsLive s1 \<le> 32 \<and> data_ok lll f1 s1 \<and> state s1 = lll"
proof -
  from g have w: "GET_BITS_while (nnn lll f) f (s\<lparr>state := lll\<rparr>) = (r, f1, s1)"
    by (simp add: GET_BITS_def)
  from GET_BITS_while_frame [OF w] obtain tot buff lv inp where
    fr: "f1 = f\<lparr>l_total_in := tot\<rparr>"
      "s1 = s\<lparr>state := lll, bsBuff := buff, bsLive := lv, strm := (strm s)\<lparr>next_in := inp\<rparr>\<rparr>"
    by auto
  have "0 \<le> bsLive s1 \<and> bsLive s1 \<le> 32"
    using GET_BITS_while_live [OF w] live nnn_range [OF d] by simp
  moreover have "data_ok lll f1 s1 = data_ok lll f s"
    unfolding fr by (rule data_ok_cong) simp_all
  ultimately show ?thesis using d fr by simp
qed

lemma nnn_cong: "l_zn f' = l_zn f \<Longrightarrow> nnn lll f' = nnn lll f"
  by (cases lll) simp_all

lemma save_ok:
  assumes "0 \<le> bsLive s" "bsLive s \<le> 32" "data_ok (state s) f s"
    and "bsLive s < nnn (state s) f" "next_in (strm s) = []"
    and "state s = BZ_X_MAGIC_1 \<longrightarrow> locals_zero f"
  shows "result_ok (save_state_and_return BZ_OK f s)"
proof -
  obtain s' where s': "save_state_and_return BZ_OK f s = Returns BZ_OK s'"
    by (simp add: save_state_and_return_def)
  have d: "data_ok (state s) (restore 0 s') s' = data_ok (state s) f s"
    using s' unfolding save_state_and_return_def
    by (intro data_ok_cong) (auto simp: restore_def)
  have n: "nnn (state s) (restore 0 s') = nnn (state s) f"
    using s' unfolding save_state_and_return_def
    by (intro nnn_cong) (auto simp: restore_def)
  have st: "state s' = state s" "bsLive s' = bsLive s" "next_in (strm s') = []"
    using s' assms(5) by (auto simp: save_state_and_return_def)
  have nz: "state s \<noteq> BZ_X_IDLE" "state s \<noteq> BZ_X_OUTPUT"
    using assms(1,4) by auto
  have z: "init_save_area s' = s'" if "locals_zero f"
    using s' that by (auto simp: save_state_and_return_def init_save_area_def locals_zero_def)
  show ?thesis
    unfolding s' using assms d n st nz z
    by (simp add: DState_ok_def suspended_def avail_in_def)
qed

lemma save_err_ok:
  assumes "0 \<le> bsLive s" "bsLive s \<le> 32" "r = BZ_OK \<longrightarrow> state s = BZ_X_OUTPUT"
  shows "result_ok (save_state_and_return r f s)"
  using assms by (simp add: save_state_and_return_def DState_ok_def)

lemma locals_zero_total_in [simp]: "locals_zero (f\<lparr>l_total_in := x\<rparr>) = locals_zero f"
  by (simp add: locals_zero_def)

lemma run_inv:
  "run e lll f s = Some res \<Longrightarrow>
     0 \<le> bsLive s \<and> bsLive s \<le> 32 \<and> data_ok lll f s \<and> (lll = BZ_X_MAGIC_1 \<longrightarrow> locals_zero f)
     \<longrightarrow> result_ok res"
proof (induction rule: run.raw_induct [rotated 1, consumes 1])
  case (1 rn e lll f s res)
  show ?case
  proof
    assume a: "0 \<le> bsLive s \<and> bsLive s \<le> 32 \<and> data_ok lll f s \<and> (lll = BZ_X_MAGIC_1 \<longrightarrow> locals_zero f)"
    obtain r f1 s1 where g: "GET_BITS lll (nnn lll f) f s = (r, f1, s1)"
      by (cases "GET_BITS lll (nnn lll f) f s") auto
    from GET_BITS_ok [OF g] a have ok1: "0 \<le> bsLive s1" "bsLive s1 \<le> 32" "data_ok lll f1 s1" "state s1 = lll"
      by simp_all
    from g have w: "GET_BITS_while (nnn lll f) f (s\<lparr>state := lll\<rparr>) = (r, f1, s1)"
      by (simp add: GET_BITS_def)
    from GET_BITS_while_frame [OF w] obtain tot where f1: "f1 = f\<lparr>l_total_in := tot\<rparr>" by auto
    show "result_ok res"
    proof (cases r)
      case None
      with 1(2) g have res: "res = save_state_and_return BZ_OK f1 s1" by simp
      from GET_BITS_while_None [OF w [unfolded None]] have
        "next_in (strm s1) = []" "bsLive s1 < nnn lll f1" by (simp_all add: f1)
      then show ?thesis unfolding res using ok1 a f1 by (intro save_ok) simp_all
    next
      case (Some v)
      have o: "out_ok s1 (after_fetch e lll v f1 s1)" using ok1(3) by (rule after_fetch_ok)
      show ?thesis
      proof (cases "after_fetch e lll v f1 s1")
        case (Fetch l2 f2 s2)
        with 1(2) g Some have "rn e l2 f2 s2 = Some res" by simp
        from 1(1) [OF this] o Fetch ok1 show ?thesis by simp
      next
        case (Return r2 f2 s2)
        with 1(2) g Some have "res = save_state_and_return r2 f2 s2" by simp
        then show ?thesis using o Return ok1 save_err_ok [of s2 r2 f2] by simp
      next
        case (AssertH_fails c)
        with 1(2) g Some show ?thesis by auto
      next
        case Hang
        with 1(2) g Some show ?thesis by simp
      qed
    qed
  qed
qed

lemma BZ2_decompress_inv:
  assumes "DState_ok s" "BZ2_decompress e indet s = Some res"
  shows "result_ok res"
proof (cases "state s = BZ_X_MAGIC_1")
  case True
  with assms(2) have "run e BZ_X_MAGIC_1 (restore indet (init_save_area s)) (init_save_area s) = Some res"
    by (simp add: BZ2_decompress_def Let_def init_save_area_def)
  from run_inv [OF this] assms(1) show ?thesis
    by (simp add: DState_ok_def init_save_area_def locals_zero_def restore_def)
next
  case False
  show ?thesis
  proof (cases "state s = BZ_X_IDLE \<or> state s = BZ_X_OUTPUT")
    case True
    with assms(2) False show ?thesis by (auto simp: BZ2_decompress_def)
  next
    case F2: False
    with assms(2) False have r: "run e (state s) (restore indet s) s = Some res"
      by (simp add: BZ2_decompress_def)
    have "data_ok (state s) (restore indet s) s = data_ok (state s) (restore 0 s) s"
      by (rule data_ok_cong) (simp_all add: restore_def)
    with run_inv [OF r] assms(1) False show ?thesis by (simp add: DState_ok_def)
  qed
qed

lemma U64_U32_roundtrip [simp]:
  "fst (U64_TO_U32 (U32_TO_U64 hi lo)) = hi" "snd (U64_TO_U32 (U32_TO_U64 hi lo)) = lo"
  unfolding U64_TO_U32_def U32_TO_U64_def fst_conv snd_conv
  by (rule bit_word_eqI; auto simp: bit_simps dest: bit_imp_le_length)+

lemma GET_BITS_empty:
  "bsLive s < n \<Longrightarrow> next_in (strm s) = [] \<Longrightarrow> GET_BITS lll n f s = (None, f, s\<lparr>state := lll\<rparr>)"
  unfolding GET_BITS_def by (subst GET_BITS_while.simps) (simp add: avail_in_def)

lemma suspended_noop:
  assumes "suspended s" "avail_in (strm s) = 0"
  shows "BZ2_decompress e indet s = Some (Returns BZ_OK s)"
proof -
  have i: "(if state s = BZ_X_MAGIC_1 then init_save_area s else s) = s"
    using assms(1) by (simp add: suspended_def)
  have n: "nnn (state s) (restore indet s) = nnn (state s) (restore 0 s)"
    by (rule nnn_cong) (simp add: restore_def)
  have g: "GET_BITS (state s) (nnn (state s) (restore indet s)) (restore indet s) s
      = (None, restore indet s, s)"
    using assms GET_BITS_empty [of s "nnn (state s) (restore indet s)" "state s" "restore indet s"]
    by (simp add: suspended_def n avail_in_def)
  have sv: "save_state_and_return BZ_OK (restore indet s) s = Returns BZ_OK s"
    by (simp add: save_state_and_return_def restore_def)
  show ?thesis
    using assms(1) by (simp add: BZ2_decompress_def i Let_def suspended_def run_None [OF g] sv)
qed

lemma first_call_B:
  "\<exists>s. BZ2_decompress plain_bzlib 0 (new_session False [0x42]) = Some (Returns BZ_OK s)
       \<and> state s = BZ_X_MAGIC_2"
proof -
  let ?s0 = "init_save_area (new_session False [0x42])"
  let ?f0 = "restore 0 ?s0"
  have e: "BZ2_decompress plain_bzlib 0 (new_session False [0x42]) = run plain_bzlib BZ_X_MAGIC_1 ?f0 ?s0"
    by (simp add: BZ2_decompress_def Let_def new_session_def init_save_area_def)
  have s0: "bsLive ?s0 = 0" "next_in (strm ?s0) = [0x42]"
    by (simp_all add: new_session_def init_save_area_def)
  let ?s1 = "fetched BZ_X_MAGIC_1 0x42 ?s0" and ?f1 = "?f0\<lparr>l_total_in := l_total_in ?f0 + 1\<rparr>"
  have r1: "run plain_bzlib BZ_X_MAGIC_1 ?f0 ?s0 = run plain_bzlib BZ_X_MAGIC_2 ?f1 ?s1"
    using run_magic(1) [OF s0, of plain_bzlib ?f0] by simp
  have g: "GET_BITS BZ_X_MAGIC_2 (nnn BZ_X_MAGIC_2 ?f1) ?f1 ?s1 = (None, ?f1, ?s1\<lparr>state := BZ_X_MAGIC_2\<rparr>)"
    by (rule GET_BITS_empty) (simp_all add: s0)
  show ?thesis
    unfolding e r1 run_None [OF g] by (simp add: save_state_and_return_def)
qed

section \<open>The live-bit count\<close>

text \<open>
  C8.  A fetch of \<open>n\<close> bits, \<open>0 <= n <= 24\<close>, started with \<open>0 <= bsLive <= 32\<close> ends, whether
  it delivers the bits or runs out of input, with \<open>0 <= bsLive <= 32\<close>.  A session that
  starts a stream is well formed (\<open>DState_ok\<close>, which includes \<open>0 <= bsLive <= 32\<close>); every
  call on a well formed session that returns through \<open>save_state_and_return\<close> leaves
  \<open>0 <= bsLive <= 32\<close>, and leaves the session well formed when it returns \<open>BZ_OK\<close>, so
  the bound holds at every suspension of a sequence of calls.
\<close>

theorem bsLive_invariant:
  "(0 \<le> bsLive s \<and> bsLive s \<le> 32 \<and> 0 \<le> n \<and> n \<le> 24 \<and> GET_BITS lll n f s = (r, f', s1)
      \<longrightarrow> 0 \<le> bsLive s1 \<and> bsLive s1 \<le> 32)
   \<and> DState_ok (new_session small inp)
   \<and> (DState_ok s \<and> BZ2_decompress e indet s = Some (Returns retVal s')
      \<longrightarrow> 0 \<le> bsLive s' \<and> bsLive s' \<le> 32 \<and> (retVal = BZ_OK \<longrightarrow> DState_ok s'))"
proof (intro conjI impI)
  assume a: "0 \<le> bsLive s \<and> bsLive s \<le> 32 \<and> 0 \<le> n \<and> n \<le> 24 \<and> GET_BITS lll n f s = (r, f', s1)"
  then have "GET_BITS_while n f (s\<lparr>state := lll\<rparr>) = (r, f', s1)" by (simp add: GET_BITS_def)
  from GET_BITS_while_live [OF this] a show "0 \<le> bsLive s1" "bsLive s1 \<le> 32" by simp_all
next
  show "DState_ok (new_session small inp)" by (simp add: DState_ok_def new_session_def)
next
  assume a: "DState_ok s \<and> BZ2_decompress e indet s = Some (Returns retVal s')"
  then have "result_ok (Returns retVal s')" using BZ2_decompress_inv by blast
  then show "0 \<le> bsLive s'" "bsLive s' \<le> 32" "retVal = BZ_OK \<Longrightarrow> DState_ok s'" by simp_all
qed

theorem bsLive_invariant_witness:
  "0 \<le> bsLive (new_session False [0x42]) \<and> bsLive (new_session False [0x42]) \<le> 32
   \<and> GET_BITS BZ_X_MAGIC_1 8 (restore 0 (new_session False [0x42])) (new_session False [0x42])
      = (Some 66, (restore 0 (new_session False [0x42]))\<lparr>l_total_in := 1\<rparr>,
         fetched BZ_X_MAGIC_1 0x42 (new_session False [0x42]))
   \<and> 0 \<le> bsLive (fetched BZ_X_MAGIC_1 0x42 (new_session False [0x42]))
   \<and> bsLive (fetched BZ_X_MAGIC_1 0x42 (new_session False [0x42])) \<le> 32
   \<and> DState_ok (new_session False [0x42])
   \<and> (\<exists>s'. BZ2_decompress plain_bzlib 0 (new_session False [0x42]) = Some (Returns BZ_OK s')
          \<and> 0 \<le> bsLive s' \<and> bsLive s' \<le> 32 \<and> DState_ok s')"
proof -
  let ?s = "new_session False [0x42]"
  have l: "0 \<le> bsLive ?s" "bsLive ?s \<le> 32" by (simp_all add: new_session_def)
  have g: "GET_BITS BZ_X_MAGIC_1 8 (restore 0 ?s) ?s
      = (Some 66, (restore 0 ?s)\<lparr>l_total_in := 1\<rparr>, fetched BZ_X_MAGIC_1 0x42 ?s)"
    by (subst GET_UCHAR_empty [where b = "0x42" and rest = "[]"])
       (simp_all add: new_session_def restore_def U32_TO_U64_def fetched_def)
  from first_call_B obtain s' where
    s: "BZ2_decompress plain_bzlib 0 ?s = Some (Returns BZ_OK s')" by blast
  note t = bsLive_invariant [of ?s 8 BZ_X_MAGIC_1 "restore 0 ?s" "Some 66" "(restore 0 ?s)\<lparr>l_total_in := 1\<rparr>"
      "fetched BZ_X_MAGIC_1 0x42 ?s" False "[0x42]" plain_bzlib 0 BZ_OK s']
  from t l g have 1: "0 \<le> bsLive (fetched BZ_X_MAGIC_1 0x42 ?s) \<and> bsLive (fetched BZ_X_MAGIC_1 0x42 ?s) \<le> 32"
    by simp
  from t have 2: "DState_ok ?s" by blast
  from t 2 s have 3: "0 \<le> bsLive s' \<and> bsLive s' \<le> 32 \<and> DState_ok s'" by blast
  from l g 1 2 3 s show ?thesis by blast
qed

section \<open>A call with no input\<close>

text \<open>
  C10.  A session is suspended at a bit fetch when its state is one of the fetch labels and
  it holds fewer bits than that fetch needs.  Every \<open>BZ_OK\<close> return of a call on a well formed
  session that does not stop in \<open>BZ_X_OUTPUT\<close> leaves the session suspended with
  \<open>avail_in = 0\<close>; and a call on a suspended session with \<open>avail_in = 0\<close> returns \<open>BZ_OK\<close>
  with the session it was given: every field, the save area, the state, \<open>bsBuff\<close>,
  \<open>bsLive\<close>, the input and the \<open>total_in\<close> counters included, so nothing is output.
\<close>

theorem suspended_call_is_noop:
  "(DState_ok s0 \<and> BZ2_decompress e indet0 s0 = Some (Returns BZ_OK s) \<and> state s \<noteq> BZ_X_OUTPUT
      \<longrightarrow> suspended s \<and> avail_in (strm s) = 0)
   \<and> (suspended s \<and> avail_in (strm s) = 0 \<longrightarrow> BZ2_decompress e indet s = Some (Returns BZ_OK s))"
proof (intro conjI impI)
  assume a: "DState_ok s0 \<and> BZ2_decompress e indet0 s0 = Some (Returns BZ_OK s) \<and> state s \<noteq> BZ_X_OUTPUT"
  then have "result_ok (Returns BZ_OK s)" using BZ2_decompress_inv by blast
  with a show "suspended s" "avail_in (strm s) = 0" by simp_all
next
  assume "suspended s \<and> avail_in (strm s) = 0"
  then show "BZ2_decompress e indet s = Some (Returns BZ_OK s)" using suspended_noop by blast
qed

theorem suspended_call_is_noop_witness:
  "DState_ok (new_session False [0x42])
   \<and> (\<exists>s. BZ2_decompress plain_bzlib 0 (new_session False [0x42]) = Some (Returns BZ_OK s)
         \<and> state s \<noteq> BZ_X_OUTPUT \<and> suspended s \<and> avail_in (strm s) = 0
         \<and> BZ2_decompress plain_bzlib 7 s = Some (Returns BZ_OK s))"
proof -
  have d: "DState_ok (new_session False [0x42])" by (simp add: DState_ok_def new_session_def)
  from first_call_B obtain s where
    s: "BZ2_decompress plain_bzlib 0 (new_session False [0x42]) = Some (Returns BZ_OK s)"
       "state s = BZ_X_MAGIC_2" by blast
  have n: "state s \<noteq> BZ_X_OUTPUT" using s(2) by simp
  from suspended_call_is_noop [of "new_session False [0x42]" plain_bzlib 0 s 7] d s(1) n
  have "suspended s \<and> avail_in (strm s) = 0 \<and> BZ2_decompress plain_bzlib 7 s = Some (Returns BZ_OK s)"
    by blast
  with d s(1) n show ?thesis by blast
qed

section \<open>The code lengths\<close>

lemma GET_BITS_byte:
  "bsLive s = 0 \<Longrightarrow> next_in (strm s) = b # rest \<Longrightarrow> 0 < n \<Longrightarrow> n \<le> 8 \<Longrightarrow>
   GET_BITS lll n f s
     = (Some (uint (drop_bit (nat (8 - n)) (push_bit 8 (bsBuff s) OR ucast b) AND mask (nat n))),
        f\<lparr>l_total_in := l_total_in f + 1\<rparr>,
        s\<lparr>state := lll, bsBuff := push_bit 8 (bsBuff s) OR ucast b, bsLive := 8 - n,
          strm := (strm s)\<lparr>next_in := rest\<rparr>\<rparr>)"
  unfolding GET_BITS_def
  apply (subst GET_BITS_while.simps)
  apply (simp add: avail_in_def)
  apply (subst GET_BITS_while.simps)
  apply (simp add: avail_in_def Let_def)
  done

lemma coding_parked_ok: "DState_ok coding_parked \<and> suspended coding_parked \<and> avail_in (strm coding_parked) = 0"
  by (simp add: DState_ok_def suspended_def coding_parked_def new_session_def restore_def
      coding_ok_def len_ok_def sel_ok_def avail_in_def)

lemma mtf_session_ok: "DState_ok mtf_session \<and> suspended mtf_session \<and> avail_in (strm mtf_session) = 0"
  by (simp add: DState_ok_def suspended_def mtf_session_def new_session_def restore_def
      mtf_ok_def mtf_pre_def minLens_ok_def len_ok_def sel_ok_def avail_in_def)

text \<open>
  C4.  The first fetch of a coding table is of 5 bits.  The head of the \<open>while\<close> loop,
  \<open>coding_while\<close>, returns \<open>BZ_DATA_ERROR\<close> when \<open>curr\<close> is outside \<open>[1,20]\<close> and only
  otherwise fetches the next adjustment bit; control reaches it after the initial length is
  read, after every \<open>+1\<close> or \<open>-1\<close>, and after a length is stored and the next symbol
  begins.  So an initial or an intermediate value outside \<open>[1,20]\<close> makes the call return
  \<open>BZ_DATA_ERROR\<close>, every fetch of an adjustment bit happens with \<open>curr\<close> in \<open>[1,20]\<close>,
  and in every session that a call leaves suspended inside the coding tables the lengths
  stored so far are in \<open>[1,20]\<close> (\<open>len_ok\<close>), as are all of them once the MTF values are
  being read.
\<close>

theorem code_lengths_checked:
  "nnn BZ_X_CODING_1 f = 5
   \<and> coding_while f s = (if l_curr f < 1 \<or> l_curr f > 20 then Return BZ_DATA_ERROR f s
                          else Fetch BZ_X_CODING_2 f s)
   \<and> (0 < l_alphaSize f
        \<longrightarrow> after_fetch e BZ_X_CODING_1 v f s = coding_while (f\<lparr>l_curr := v, l_i := 0\<rparr>) s)
   \<and> after_fetch e BZ_X_CODING_3 uc f s
        = coding_while (if uc = 0 then f\<lparr>l_curr := l_curr f + 1\<rparr> else f\<lparr>l_curr := l_curr f - 1\<rparr>) s
   \<and> (l_i f + 1 < l_alphaSize f
        \<longrightarrow> after_fetch e BZ_X_CODING_2 0 f s
            = coding_while (f\<lparr>l_i := l_i f + 1\<rparr>)
                (s\<lparr>len := (len s)(l_t f := (len s (l_t f))(l_i f := uint8_t (l_curr f)))\<rparr>))
   \<and> (GET_BITS BZ_X_CODING_1 5 f s = (Some v, f1, s1) \<and> 0 < l_alphaSize f1 \<and> (v < 1 \<or> v > 20)
        \<longrightarrow> run e BZ_X_CODING_1 f s
            = Some (save_state_and_return BZ_DATA_ERROR (f1\<lparr>l_curr := v, l_i := 0\<rparr>) s1))
   \<and> (GET_BITS BZ_X_CODING_3 1 f s = (Some uc, f1, s1)
        \<and> c = (if uc = 0 then l_curr f1 + 1 else l_curr f1 - 1) \<and> (c < 1 \<or> c > 20)
        \<longrightarrow> run e BZ_X_CODING_3 f s = Some (save_state_and_return BZ_DATA_ERROR (f1\<lparr>l_curr := c\<rparr>) s1))
   \<and> (data_ok lll f s \<and> after_fetch e lll v f s = Fetch BZ_X_CODING_2 f' s'
        \<longrightarrow> 1 \<le> l_curr f' \<and> l_curr f' \<le> 20)
   \<and> (DState_ok s \<and> BZ2_decompress e indet s = Some (Returns BZ_OK s')
        \<longrightarrow> (state s' = BZ_X_CODING_1
               \<longrightarrow> len_ok (save_alphaSize s') (len s') (save_t s') 0)
          \<and> (state s' \<in> {BZ_X_CODING_2, BZ_X_CODING_3}
               \<longrightarrow> 1 \<le> save_curr s' \<and> save_curr s' \<le> 20
                  \<and> len_ok (save_alphaSize s') (len s') (save_t s') (save_i s'))
          \<and> (state s' \<in> {BZ_X_MTF_1, BZ_X_MTF_2, BZ_X_MTF_3, BZ_X_MTF_4, BZ_X_MTF_5, BZ_X_MTF_6}
               \<longrightarrow> len_ok (save_alphaSize s') (len s') (save_nGroups s') 0))"
proof (intro conjI impI)
  show "nnn BZ_X_CODING_1 f = 5" by simp
  show "coding_while f s = (if l_curr f < 1 \<or> l_curr f > 20 then Return BZ_DATA_ERROR f s
                          else Fetch BZ_X_CODING_2 f s)"
    by (simp add: coding_while_def)
  show "after_fetch e BZ_X_CODING_3 uc f s
        = coding_while (if uc = 0 then f\<lparr>l_curr := l_curr f + 1\<rparr> else f\<lparr>l_curr := l_curr f - 1\<rparr>) s"
    by (simp add: Let_def)
next
  assume "0 < l_alphaSize f"
  then show "after_fetch e BZ_X_CODING_1 v f s = coding_while (f\<lparr>l_curr := v, l_i := 0\<rparr>) s"
    by (simp add: Let_def coding_for_i_def)
next
  assume "l_i f + 1 < l_alphaSize f"
  then show "after_fetch e BZ_X_CODING_2 0 f s
            = coding_while (f\<lparr>l_i := l_i f + 1\<rparr>)
                (s\<lparr>len := (len s)(l_t f := (len s (l_t f))(l_i f := uint8_t (l_curr f)))\<rparr>)"
    by (simp add: Let_def coding_for_i_def)
next
  assume h: "GET_BITS BZ_X_CODING_1 5 f s = (Some v, f1, s1) \<and> 0 < l_alphaSize f1 \<and> (v < 1 \<or> v > 20)"
  then have "after_fetch e BZ_X_CODING_1 v f1 s1 = Return BZ_DATA_ERROR (f1\<lparr>l_curr := v, l_i := 0\<rparr>) s1"
    by (auto simp add: Let_def coding_for_i_def coding_while_def)
  with h show "run e BZ_X_CODING_1 f s
            = Some (save_state_and_return BZ_DATA_ERROR (f1\<lparr>l_curr := v, l_i := 0\<rparr>) s1)"
    by (intro run_Return [where v = v and ?f1.0 = f1 and ?s1.0 = s1]) simp_all
next
  assume h: "GET_BITS BZ_X_CODING_3 1 f s = (Some uc, f1, s1)
        \<and> c = (if uc = 0 then l_curr f1 + 1 else l_curr f1 - 1) \<and> (c < 1 \<or> c > 20)"
  then have "after_fetch e BZ_X_CODING_3 uc f1 s1 = Return BZ_DATA_ERROR (f1\<lparr>l_curr := c\<rparr>) s1"
    by (auto simp add: Let_def coding_while_def)
  with h show "run e BZ_X_CODING_3 f s = Some (save_state_and_return BZ_DATA_ERROR (f1\<lparr>l_curr := c\<rparr>) s1)"
    by (intro run_Return [where v = uc and ?f1.0 = f1 and ?s1.0 = s1]) simp_all
next
  assume a: "data_ok lll f s \<and> after_fetch e lll v f s = Fetch BZ_X_CODING_2 f' s'"
  then have "out_ok s (Fetch BZ_X_CODING_2 f' s')" using after_fetch_ok [of lll f s e v] by simp
  then show "1 \<le> l_curr f'" "l_curr f' \<le> 20" by simp_all
next
  assume a: "DState_ok s \<and> BZ2_decompress e indet s = Some (Returns BZ_OK s')"
  then have "result_ok (Returns BZ_OK s')" using BZ2_decompress_inv by blast
  then have d: "data_ok (state s') (restore 0 s') s'" by (simp add: DState_ok_def)
  { assume "state s' = BZ_X_CODING_1"
    with d show "len_ok (save_alphaSize s') (len s') (save_t s') 0" by (simp add: restore_def) }
  { assume "state s' \<in> {BZ_X_CODING_2, BZ_X_CODING_3}"
    with d show "1 \<le> save_curr s'" "save_curr s' \<le> 20"
      "len_ok (save_alphaSize s') (len s') (save_t s') (save_i s')" by (auto simp add: restore_def) }
  { assume "state s' \<in> {BZ_X_MTF_1, BZ_X_MTF_2, BZ_X_MTF_3, BZ_X_MTF_4, BZ_X_MTF_5, BZ_X_MTF_6}"
    with d show "len_ok (save_alphaSize s') (len s') (save_nGroups s') 0"
      by (auto simp add: restore_def mtf_ok_def mtf_pre_def) }
qed

theorem code_lengths_checked_witness:
  "0 < l_alphaSize (restore 0 coding_fed)
   \<and> l_i (restore 0 coding_fed) + 1 < l_alphaSize (restore 0 coding_fed)
   \<and> (\<exists>r. run plain_bzlib BZ_X_CODING_1 (restore 0 coding_fed) coding_fed = Some (Returns BZ_DATA_ERROR r))
   \<and> (\<exists>r. run plain_bzlib BZ_X_CODING_3 (restore 0 coding_fed) coding_fed = Some (Returns BZ_DATA_ERROR r))
   \<and> data_ok BZ_X_CODING_3 (restore 0 coding_parked) coding_parked
   \<and> after_fetch plain_bzlib BZ_X_CODING_3 0 (restore 0 coding_parked) coding_parked
       = Fetch BZ_X_CODING_2 ((restore 0 coding_parked)\<lparr>l_curr := 2\<rparr>) coding_parked
   \<and> DState_ok coding_parked
   \<and> BZ2_decompress plain_bzlib 0 coding_parked = Some (Returns BZ_OK coding_parked)
   \<and> state coding_parked \<in> {BZ_X_CODING_2, BZ_X_CODING_3}
   \<and> 1 \<le> save_curr coding_parked \<and> save_curr coding_parked \<le> 20
   \<and> DState_ok mtf_session
   \<and> BZ2_decompress plain_bzlib 0 mtf_session = Some (Returns BZ_OK mtf_session)
   \<and> state mtf_session = BZ_X_MTF_2
   \<and> len_ok 3 (len mtf_session) 2 0"
proof -
  let ?s = coding_fed and ?f = "restore 0 coding_fed"
  let ?p = coding_parked and ?fp = "restore 0 coding_parked"
  let ?f1 = "?f\<lparr>l_total_in := 1\<rparr>"
  have a: "0 < l_alphaSize ?f" "l_i ?f + 1 < l_alphaSize ?f" "l_curr ?f = 1"
    by (simp_all add: coding_fed_def coding_parked_def new_session_def restore_def)
  have s: "bsLive ?s = 0" "next_in (strm ?s) = [0xFF]" "bsBuff ?s = 0"
    by (simp_all add: coding_fed_def coding_parked_def new_session_def)
  have t: "l_total_in ?f = 0"
    by (simp add: coding_fed_def coding_parked_def new_session_def restore_def U32_TO_U64_def)
  have m5: "uint ((31 :: 32 word) AND mask 5) = 31" by (simp add: mask_eq_exp_minus_1)
  have m1: "uint ((1 :: 32 word) AND mask 1) = 1" by (simp add: mask_eq_exp_minus_1)
  have g1: "GET_BITS BZ_X_CODING_1 5 ?f ?s = (Some 31, ?f1,
      ?s\<lparr>state := BZ_X_CODING_1, bsBuff := 255, bsLive := 3, strm := (strm ?s)\<lparr>next_in := []\<rparr>\<rparr>)"
    using GET_BITS_byte [OF s(1,2), of 5 BZ_X_CODING_1 ?f] by (simp add: s t m5)
  have g3: "GET_BITS BZ_X_CODING_3 1 ?f ?s = (Some 1, ?f1,
      ?s\<lparr>state := BZ_X_CODING_3, bsBuff := 255, bsLive := 7, strm := (strm ?s)\<lparr>next_in := []\<rparr>\<rparr>)"
    using GET_BITS_byte [OF s(1,2), of 1 BZ_X_CODING_3 ?f] by (simp add: s t m1)
  have c: "l_alphaSize ?f1 = 3" "l_curr ?f1 = 1"
    by (simp_all add: coding_fed_def coding_parked_def new_session_def restore_def)
  have r1: "\<exists>r. run plain_bzlib BZ_X_CODING_1 ?f ?s = Some (Returns BZ_DATA_ERROR r)"
    using code_lengths_checked [where f = ?f and s = ?s and e = plain_bzlib and v = 31 and ?f1.0 = ?f1] g1 c
    by (simp add: save_state_and_return_def)
  have r3: "\<exists>r. run plain_bzlib BZ_X_CODING_3 ?f ?s = Some (Returns BZ_DATA_ERROR r)"
    using code_lengths_checked [where f = ?f and s = ?s and e = plain_bzlib and uc = 1 and ?f1.0 = ?f1 and c = 0] g3 c
    by (simp add: save_state_and_return_def)
  have d: "data_ok BZ_X_CODING_3 ?fp ?p"
    using coding_parked_ok by (simp add: DState_ok_def coding_parked_def new_session_def)
  have cp: "l_curr ?fp = 1" by (simp add: coding_parked_def new_session_def restore_def)
  have af: "after_fetch plain_bzlib BZ_X_CODING_3 0 ?fp ?p = Fetch BZ_X_CODING_2 (?fp\<lparr>l_curr := 2\<rparr>) ?p"
    using code_lengths_checked [where f = "?fp\<lparr>l_curr := 2\<rparr>" and s = ?p and e = plain_bzlib]
      code_lengths_checked [where f = ?fp and s = ?p and e = plain_bzlib and uc = 0] cp by simp
  have n: "BZ2_decompress plain_bzlib 0 ?p = Some (Returns BZ_OK ?p)"
    using suspended_noop coding_parked_ok by blast
  have st: "state ?p \<in> {BZ_X_CODING_2, BZ_X_CODING_3}"
    by (simp add: coding_parked_def new_session_def)
  from code_lengths_checked [where s = ?p and e = plain_bzlib and indet = 0 and s' = ?p] coding_parked_ok n st
  have cur: "1 \<le> save_curr ?p \<and> save_curr ?p \<le> 20" by blast
  have nm: "BZ2_decompress plain_bzlib 0 mtf_session = Some (Returns BZ_OK mtf_session)"
    using suspended_noop mtf_session_ok by blast
  have sm: "state mtf_session = BZ_X_MTF_2" "save_alphaSize mtf_session = 3" "save_nGroups mtf_session = 2"
    by (simp_all add: mtf_session_def new_session_def)
  from code_lengths_checked [where s = mtf_session and e = plain_bzlib and indet = 0 and s' = mtf_session] mtf_session_ok nm sm
  have lm: "len_ok 3 (len mtf_session) 2 0" by simp
  from a r1 r3 d af coding_parked_ok n st cur mtf_session_ok nm sm lm show ?thesis by blast
qed

section \<open>Feeding the input in two pieces\<close>

text \<open>
  C1.  The local \<open>base\<close> of the mapping-table loop (decompress.c:272) is not in the save
  area.  On \<open>mapping_input\<close> one call sets \<open>inUse[0x6F]\<close>, so \<open>seqToUnseq[0] = 0x6F\<close>.  Fed
  as 20 bytes and then 2, the first call is suspended inside the sixteen bits of range 6
  (\<open>i = 6\<close>, \<open>j = 7\<close>), the second enters at \<open>case BZ_X_MAPPING_2\<close> past the initialiser of
  \<open>base\<close>, and with \<open>base\<close> holding 0 there it sets \<open>inUse[0x0F]\<close> instead: both runs stop at
  the same fetch with the same result code, with different byte maps.
\<close>

theorem split_feed_differs:
  "(case BZ2_decompress plain_bzlib 0 (new_session False mapping_input) of
      Some (Returns r s) \<Rightarrow> r = BZ_OK \<and> state s = BZ_X_SELECTOR_2 \<and> next_in (strm s) = []
          \<and> inUse s 0x6F \<and> \<not> inUse s 0x0F \<and> nInUse s = 1 \<and> seqToUnseq s 0 = 0x6F
    | _ \<Rightarrow> False)
   \<and> (case BZ2_decompress plain_bzlib 0 (new_session False (take 20 mapping_input)) of
      Some (Returns r s) \<Rightarrow> r = BZ_OK \<and> state s = BZ_X_MAPPING_2 \<and> next_in (strm s) = []
          \<and> save_i s = 6 \<and> save_j s = 7
    | _ \<Rightarrow> False)
   \<and> (case two_calls plain_bzlib 0 20 mapping_input of
      Some (Returns r s) \<Rightarrow> r = BZ_OK \<and> state s = BZ_X_SELECTOR_2 \<and> next_in (strm s) = []
          \<and> \<not> inUse s 0x6F \<and> inUse s 0x0F \<and> nInUse s = 1 \<and> seqToUnseq s 0 = 0x0F
    | _ \<Rightarrow> False)"
  by code_simp

section \<open>A run appended to the block\<close>

lemma fill_0: "fill a p 0 v = a"
  by (auto simp add: fill_def fun_eq_iff)

lemma fill_step: "0 < n \<Longrightarrow> fill (a(p := v)) (p + 1) (n - 1) v = fill a p n v"
  by (auto simp add: fill_def fun_eq_iff)

lemma append_run_fits:
  assumes "0 \<le> l_es f" "l_nblock f + l_es f \<le> l_nblockMAX f"
  shows "append_run small uc f s = (True, f\<lparr>l_nblock := l_nblock f + l_es f, l_es := 0\<rparr>,
       if small then s\<lparr>ll16 := fill (ll16 s) (l_nblock f) (l_es f) (uint16_t uc)\<rparr>
       else s\<lparr>tt := fill (tt s) (l_nblock f) (l_es f) (word_of_int uc)\<rparr>)"
  using assms
proof (induction small uc f s rule: append_run.induct)
  case (1 small uc f s)
  show ?case
  proof (cases "l_es f > 0")
    case False
    then have e: "l_es f = 0" using 1(2) by simp
    have A: "append_run small uc f s = (True, f, s)"
      using False by (subst append_run.simps) simp
    have B: "f\<lparr>l_nblock := l_nblock f + l_es f, l_es := 0\<rparr> = f"
      by (subst e [symmetric]) (simp add: e)
    show ?thesis unfolding A B by (simp add: e fill_0)
  next
    case True
    then have lt: "\<not> l_nblock f \<ge> l_nblockMAX f" using 1(3) by simp
    let ?f = "f\<lparr>l_nblock := l_nblock f + 1, l_es := l_es f - 1\<rparr>"
    let ?s = "if small then s\<lparr>ll16 := (ll16 s)(l_nblock f := uint16_t uc)\<rparr>
                 else s\<lparr>tt := (tt s)(l_nblock f := word_of_int uc)\<rparr>"
    have eq: "append_run small uc f s = append_run small uc ?f ?s"
      using True lt by (subst append_run.simps) simp
    have ih: "append_run small uc ?f ?s = (True, ?f\<lparr>l_nblock := l_nblock ?f + l_es ?f, l_es := 0\<rparr>,
       if small then ?s\<lparr>ll16 := fill (ll16 ?s) (l_nblock ?f) (l_es ?f) (uint16_t uc)\<rparr>
       else ?s\<lparr>tt := fill (tt ?s) (l_nblock ?f) (l_es ?f) (word_of_int uc)\<rparr>)"
      using True lt 1(2,3) by (intro 1(1)) simp_all
    show ?thesis
      unfolding eq ih using True by (cases small) (simp_all add: fill_step)
  qed
qed


section \<open>The two checks of \<open>origPtr\<close>, through the call\<close>

lemma run_Return_code:
  "GET_BITS lll (nnn lll f) f s = (Some v, f1, s1) \<Longrightarrow> after_fetch e lll v f1 s1 = Return r f2 s2 \<Longrightarrow>
   \<exists>s'. run e lll f s = Some (Returns r s') \<and> origPtr s' = origPtr s2 \<and> save_nblock s' = l_nblock f2
        \<and> state s' = state s2"
  by (simp add: run_Some save_state_and_return_def)

lemma BZ2_decompress_resume:
  "state s \<noteq> BZ_X_MAGIC_1 \<Longrightarrow> state s \<noteq> BZ_X_IDLE \<Longrightarrow> state s \<noteq> BZ_X_OUTPUT \<Longrightarrow>
   BZ2_decompress e indet s = run e (state s) (restore indet s) s"
  by (simp add: BZ2_decompress_def Let_def)

text \<open>
  C6.  (1) When the fetch of the third byte of \<open>origPtr\<close> delivers \<open>uc\<close> and the 24-bit value
  is negative or above \<open>10 + 100000 * blockSize100k\<close>, the call returns \<open>BZ_DATA_ERROR\<close>.
  (2) When a fetch at \<open>BZ_X_MTF_1\<close>, \<open>BZ_X_MTF_2\<close>, \<open>BZ_X_MTF_5\<close> or \<open>BZ_X_MTF_6\<close> completes a
  code (\<open>zn <= 20\<close>, \<open>zvec <= gLimit[zn]\<close>, \<open>zvec - gBase[zn]\<close> within the alphabet) that decodes
  to EOB, \<open>nblock\<close> is final: the call returns \<open>BZ_DATA_ERROR\<close> if \<open>origPtr < 0\<close> or
  \<open>origPtr >= nblock\<close>, and goes on to the checks of \<open>cftab\<close> if \<open>0 <= origPtr < nblock\<close>.
  (3) When EOB is decoded inside the \<open>do\<close> loop of a run (\<open>BZ_X_MTF_3\<close>, \<open>BZ_X_MTF_4\<close>), the run
  of \<open>es + 1\<close> bytes is appended first, and the check is against that \<open>nblock\<close>.
\<close>

theorem origPtr_checked:
  "(GET_BITS BZ_X_ORIGPTR_3 8 f s = (Some uc, f1, s1)
      \<and> (push_bit 8 (origPtr s1) OR uc < 0
           \<or> push_bit 8 (origPtr s1) OR uc > 10 + 100000 * blockSize100k s1)
     \<longrightarrow> (\<exists>s'. run e BZ_X_ORIGPTR_3 f s = Some (Returns BZ_DATA_ERROR s')
              \<and> origPtr s' = push_bit 8 (origPtr s1) OR uc))
   \<and> (lll \<in> {BZ_X_MTF_1, BZ_X_MTF_2, BZ_X_MTF_5, BZ_X_MTF_6}
      \<and> GET_BITS lll (nnn lll f) f s = (Some v, f1, s1)
      \<and> zvec = (if lll = BZ_X_MTF_1 \<or> lll = BZ_X_MTF_5 then v else push_bit 1 (l_zvec f1) OR v)
      \<and> l_zn f1 \<le> 20 \<and> zvec \<le> row_at (limit s1) (l_gLimit f1) (l_zn f1)
      \<and> 0 \<le> zvec - row_at (base s1) (l_gBase f1) (l_zn f1)
      \<and> zvec - row_at (base s1) (l_gBase f1) (l_zn f1) < BZ_MAX_ALPHA_SIZE
      \<and> row_at (perm s1) (l_gPerm f1) (zvec - row_at (base s1) (l_gBase f1) (l_zn f1)) = l_EOB f1
     \<longrightarrow> (origPtr s1 < 0 \<or> origPtr s1 \<ge> l_nblock f1
            \<longrightarrow> (\<exists>s'. run e lll f s = Some (Returns BZ_DATA_ERROR s')
                     \<and> origPtr s' = origPtr s1 \<and> save_nblock s' = l_nblock f1))
         \<and> (0 \<le> origPtr s1 \<and> origPtr s1 < l_nblock f1
            \<longrightarrow> (\<exists>f2. after_fetch e lll v f1 s1 = cftab_checks e f2 s1 \<and> l_nblock f2 = l_nblock f1)))
   \<and> (lll \<in> {BZ_X_MTF_3, BZ_X_MTF_4}
      \<and> GET_BITS lll (nnn lll f) f s = (Some v, f1, s1)
      \<and> zvec = (if lll = BZ_X_MTF_3 then v else push_bit 1 (l_zvec f1) OR v)
      \<and> l_zn f1 \<le> 20 \<and> zvec \<le> row_at (limit s1) (l_gLimit f1) (l_zn f1)
      \<and> 0 \<le> zvec - row_at (base s1) (l_gBase f1) (l_zn f1)
      \<and> zvec - row_at (base s1) (l_gBase f1) (l_zn f1) < BZ_MAX_ALPHA_SIZE
      \<and> row_at (perm s1) (l_gPerm f1) (zvec - row_at (base s1) (l_gBase f1) (l_zn f1)) = l_EOB f1
      \<and> l_EOB f1 \<noteq> BZ_RUNA \<and> l_EOB f1 \<noteq> BZ_RUNB
      \<and> 0 \<le> l_es f1 + 1 \<and> l_nblock f1 + (l_es f1 + 1) \<le> l_nblockMAX f1
      \<and> (origPtr s1 < 0 \<or> origPtr s1 \<ge> l_nblock f1 + (l_es f1 + 1))
     \<longrightarrow> (\<exists>s'. run e lll f s = Some (Returns BZ_DATA_ERROR s')
              \<and> origPtr s' = origPtr s1 \<and> save_nblock s' = l_nblock f1 + (l_es f1 + 1)))"
proof (intro conjI impI)
  assume h: "GET_BITS BZ_X_ORIGPTR_3 8 f s = (Some uc, f1, s1)
      \<and> (push_bit 8 (origPtr s1) OR uc < 0
           \<or> push_bit 8 (origPtr s1) OR uc > 10 + 100000 * blockSize100k s1)"
  then have "after_fetch e BZ_X_ORIGPTR_3 uc f1 s1
      = Return BZ_DATA_ERROR f1 (s1\<lparr>origPtr := push_bit 8 (origPtr s1) OR uc\<rparr>)"
    by (auto simp: Let_def)
  from run_Return_code [OF _ this, of f s] h
  show "\<exists>s'. run e BZ_X_ORIGPTR_3 f s = Some (Returns BZ_DATA_ERROR s')
              \<and> origPtr s' = push_bit 8 (origPtr s1) OR uc"
    by auto
next
  assume h: "lll \<in> {BZ_X_MTF_1, BZ_X_MTF_2, BZ_X_MTF_5, BZ_X_MTF_6}
      \<and> GET_BITS lll (nnn lll f) f s = (Some v, f1, s1)
      \<and> zvec = (if lll = BZ_X_MTF_1 \<or> lll = BZ_X_MTF_5 then v else push_bit 1 (l_zvec f1) OR v)
      \<and> l_zn f1 \<le> 20 \<and> zvec \<le> row_at (limit s1) (l_gLimit f1) (l_zn f1)
      \<and> 0 \<le> zvec - row_at (base s1) (l_gBase f1) (l_zn f1)
      \<and> zvec - row_at (base s1) (l_gBase f1) (l_zn f1) < BZ_MAX_ALPHA_SIZE
      \<and> row_at (perm s1) (l_gPerm f1) (zvec - row_at (base s1) (l_gBase f1) (l_zn f1)) = l_EOB f1"
  from h obtain f2 where af: "after_fetch e lll v f1 s1 = block_end e f2 s1" "l_nblock f2 = l_nblock f1"
    by (auto simp add: Let_def GET_MTF_VAL_while_def after_GET_MTF_VAL_def mtf_while_def)
  { assume o: "origPtr s1 < 0 \<or> origPtr s1 \<ge> l_nblock f1"
    then have "after_fetch e lll v f1 s1 = Return BZ_DATA_ERROR f2 s1"
      using af by (simp add: block_end_def)
    from run_Return_code [OF _ this, of f s] h af(2)
    show "\<exists>s'. run e lll f s = Some (Returns BZ_DATA_ERROR s')
                     \<and> origPtr s' = origPtr s1 \<and> save_nblock s' = l_nblock f1"
      by auto }
  { assume "0 \<le> origPtr s1 \<and> origPtr s1 < l_nblock f1"
    then show "\<exists>f2. after_fetch e lll v f1 s1 = cftab_checks e f2 s1 \<and> l_nblock f2 = l_nblock f1"
      using af by (auto simp add: block_end_def) }
next
  assume h: "lll \<in> {BZ_X_MTF_3, BZ_X_MTF_4}
      \<and> GET_BITS lll (nnn lll f) f s = (Some v, f1, s1)
      \<and> zvec = (if lll = BZ_X_MTF_3 then v else push_bit 1 (l_zvec f1) OR v)
      \<and> l_zn f1 \<le> 20 \<and> zvec \<le> row_at (limit s1) (l_gLimit f1) (l_zn f1)
      \<and> 0 \<le> zvec - row_at (base s1) (l_gBase f1) (l_zn f1)
      \<and> zvec - row_at (base s1) (l_gBase f1) (l_zn f1) < BZ_MAX_ALPHA_SIZE
      \<and> row_at (perm s1) (l_gPerm f1) (zvec - row_at (base s1) (l_gBase f1) (l_zn f1)) = l_EOB f1
      \<and> l_EOB f1 \<noteq> BZ_RUNA \<and> l_EOB f1 \<noteq> BZ_RUNB
      \<and> 0 \<le> l_es f1 + 1 \<and> l_nblock f1 + (l_es f1 + 1) \<le> l_nblockMAX f1
      \<and> (origPtr s1 < 0 \<or> origPtr s1 \<ge> l_nblock f1 + (l_es f1 + 1))"
  from h obtain f2 where af: "after_fetch e lll v f1 s1 = run_end e f2 s1"
      "l_nblock f2 = l_nblock f1" "l_es f2 = l_es f1" "l_nblockMAX f2 = l_nblockMAX f1"
      "l_nextSym f2 = l_EOB f1" "l_EOB f2 = l_EOB f1"
    by (auto simp add: Let_def GET_MTF_VAL_while_def after_GET_MTF_VAL_def)
  define uc where "uc = seqToUnseq s1 (mtfa s1 (mtfbase s1 0))"
  define f3 where "f3 = f2\<lparr>l_es := l_es f2 + 1\<rparr>"
  define s3 where "s3 = s1\<lparr>unzftab := (unzftab s1)(uc := unzftab s1 uc + l_es f3)\<rparr>"
  have f3: "0 \<le> l_es f3" "l_nblock f3 + l_es f3 \<le> l_nblockMAX f3"
    using h af by (simp_all add: f3_def)
  from append_run_fits [OF f3, of "smallDecompress s3" uc s3]
  obtain s4 where ar: "append_run (smallDecompress s3) uc f3 s3
        = (True, f3\<lparr>l_nblock := l_nblock f3 + l_es f3, l_es := 0\<rparr>, s4)" "origPtr s4 = origPtr s3"
    by (cases "smallDecompress s3") simp_all
  have re: "run_end e f2 s1 = mtf_while e (f3\<lparr>l_nblock := l_nblock f3 + l_es f3, l_es := 0\<rparr>) s4"
    unfolding run_end_def Let_def uc_def [symmetric] f3_def [symmetric] s3_def [symmetric]
    by (simp add: ar(1))
  have "after_fetch e lll v f1 s1
      = Return BZ_DATA_ERROR (f3\<lparr>l_nblock := l_nblock f3 + l_es f3, l_es := 0\<rparr>) s4"
    using h af ar(2) unfolding af(1) re
    by (simp add: mtf_while_def block_end_def f3_def s3_def)
  from run_Return_code [OF _ this, of f s] h af ar(2)
  show "\<exists>s'. run e lll f s = Some (Returns BZ_DATA_ERROR s')
              \<and> origPtr s' = origPtr s1 \<and> save_nblock s' = l_nblock f1 + (l_es f1 + 1)"
    by (auto simp add: f3_def s3_def)
qed

theorem origPtr_checked_witness:
  "(\<exists>s'. BZ2_decompress plain_bzlib 0 origPtr_session = Some (Returns BZ_DATA_ERROR s')
        \<and> origPtr s' = 0xFFFFFF \<and> origPtr s' > 10 + 100000 * blockSize100k origPtr_session)
   \<and> l_EOB (restore 0 eob_session) = 2 \<and> l_nblock (restore 0 eob_session) = 5
   \<and> row_at (perm eob_session) (l_gPerm (restore 0 eob_session)) 0 = l_EOB (restore 0 eob_session)
   \<and> (\<exists>s'. BZ2_decompress plain_bzlib 0 eob_session = Some (Returns BZ_DATA_ERROR s')
        \<and> origPtr s' = 7 \<and> save_nblock s' = 5)
   \<and> (\<exists>f2 f1 s1. GET_BITS BZ_X_MTF_1 1 (restore 0 eob_session) (eob_session\<lparr>origPtr := 3\<rparr>)
           = (Some 0, f1, s1)
        \<and> after_fetch plain_bzlib BZ_X_MTF_1 0 f1 s1 = cftab_checks plain_bzlib f2 s1
        \<and> l_nblock f2 = 5 \<and> origPtr s1 = 3)
   \<and> (\<exists>s'. BZ2_decompress plain_bzlib 0 eob_after_run = Some (Returns BZ_DATA_ERROR s')
        \<and> origPtr s' = 7 \<and> save_nblock s' = 7)"
proof -
  let ?o = origPtr_session and ?fo = "restore 0 origPtr_session"
  let ?o1 = "origPtr_session\<lparr>bsBuff := 255, strm := (strm origPtr_session)\<lparr>next_in := []\<rparr>\<rparr>"
  have go: "GET_BITS BZ_X_ORIGPTR_3 8 ?fo ?o = (Some 255, ?fo\<lparr>l_total_in := 1\<rparr>, ?o1)"
    by (subst GET_UCHAR_empty [where b = "0xFF" and rest = "[]"])
       (simp_all add: origPtr_session_def new_session_def restore_def U32_TO_U64_def)
  have vo: "push_bit 8 (origPtr ?o1) OR (255::int) = 0xFFFFFF" "blockSize100k ?o1 = 9"
    "blockSize100k ?o = 9" "state ?o = BZ_X_ORIGPTR_3"
    by (simp_all add: origPtr_session_def new_session_def)
  have 1: "\<exists>s'. BZ2_decompress plain_bzlib 0 ?o = Some (Returns BZ_DATA_ERROR s')
        \<and> origPtr s' = 0xFFFFFF \<and> origPtr s' > 10 + 100000 * blockSize100k ?o"
    using origPtr_checked [where f = ?fo and s = ?o and uc = 255 and ?f1.0 = "?fo\<lparr>l_total_in := 1\<rparr>"
        and ?s1.0 = ?o1 and e = plain_bzlib, THEN conjunct1] go vo
    by (auto simp add: BZ2_decompress_resume)
  let ?s = eob_session and ?f = "restore 0 eob_session"
  let ?f1 = "?f\<lparr>l_total_in := 1\<rparr>"
  have st: "bsLive ?s = 0" "next_in (strm ?s) = [0]" "bsBuff ?s = 0" "state ?s = BZ_X_MTF_1"
    "bsLive eob_after_run = 0" "next_in (strm eob_after_run) = [0]" "bsBuff eob_after_run = 0"
    "state eob_after_run = BZ_X_MTF_3" "restore 0 eob_after_run = ?f"
    by (simp_all add: eob_session_def eob_after_run_def new_session_def restore_def)
  have fr: "l_total_in ?f = 0" "l_zn ?f = 1" "l_EOB ?f = 2" "l_nblock ?f = 5" "l_es ?f = 1"
    "l_nblockMAX ?f = 900000" "l_gLimit ?f = Row 0" "l_gBase ?f = Row 0" "l_gPerm ?f = Row 0"
    by (simp_all add: eob_session_def new_session_def restore_def U32_TO_U64_def)
  have tb: "limit ?s = (\<lambda>t k. 1)" "base ?s = (\<lambda>t k. 0)" "perm ?s = (\<lambda>t k. k + 2)" "origPtr ?s = 7"
    "limit eob_after_run = (\<lambda>t k. 1)" "base eob_after_run = (\<lambda>t k. 0)"
    "perm eob_after_run = (\<lambda>t k. k + 2)" "origPtr eob_after_run = 7"
    by (simp_all add: eob_session_def eob_after_run_def new_session_def)
  have m: "uint ((0 :: 32 word) AND mask 1) = 0" by simp
  let ?s1 = "?s\<lparr>state := BZ_X_MTF_1, bsBuff := 0, bsLive := 7, strm := (strm ?s)\<lparr>next_in := []\<rparr>\<rparr>"
  have g1: "GET_BITS BZ_X_MTF_1 (nnn BZ_X_MTF_1 ?f) ?f ?s = (Some 0, ?f1, ?s1)"
    using GET_BITS_byte [OF st(1,2), of 1 BZ_X_MTF_1 ?f] by (simp add: st fr m)
  have 2: "\<exists>s'. BZ2_decompress plain_bzlib 0 ?s = Some (Returns BZ_DATA_ERROR s')
        \<and> origPtr s' = 7 \<and> save_nblock s' = 5"
    using origPtr_checked [where lll = BZ_X_MTF_1 and f = ?f and s = ?s and v = 0 and ?f1.0 = ?f1
        and ?s1.0 = ?s1 and e = plain_bzlib and zvec = 0, THEN conjunct2, THEN conjunct1] g1
    by (simp add: BZ2_decompress_resume st fr tb BZ_MAX_ALPHA_SIZE_def)
  have 3: "\<exists>f2 f1 s1. GET_BITS BZ_X_MTF_1 1 (restore 0 eob_session) (eob_session\<lparr>origPtr := 3\<rparr>)
           = (Some 0, f1, s1)
        \<and> after_fetch plain_bzlib BZ_X_MTF_1 0 f1 s1 = cftab_checks plain_bzlib f2 s1
        \<and> l_nblock f2 = 5 \<and> origPtr s1 = 3"
  proof -
    let ?t = "?s\<lparr>origPtr := 3\<rparr>"
    let ?t1 = "?t\<lparr>state := BZ_X_MTF_1, bsBuff := 0, bsLive := 7, strm := (strm ?t)\<lparr>next_in := []\<rparr>\<rparr>"
    have g: "GET_BITS BZ_X_MTF_1 1 ?f ?t = (Some 0, ?f1, ?t1)"
      using GET_BITS_byte [of ?t 0 "[]" 1 BZ_X_MTF_1 ?f] by (simp add: st fr m)
    have o: "origPtr ?t1 = 3" by simp
    have "\<exists>f2. after_fetch plain_bzlib BZ_X_MTF_1 0 ?f1 ?t1 = cftab_checks plain_bzlib f2 ?t1
        \<and> l_nblock f2 = l_nblock ?f1"
      using origPtr_checked [where lll = BZ_X_MTF_1 and f = ?f and s = ?t and v = 0 and ?f1.0 = ?f1
        and ?s1.0 = ?t1 and e = plain_bzlib and zvec = 0, THEN conjunct2, THEN conjunct1] g
      by (simp add: st fr tb BZ_MAX_ALPHA_SIZE_def)
    then obtain f2 where "after_fetch plain_bzlib BZ_X_MTF_1 0 ?f1 ?t1 = cftab_checks plain_bzlib f2 ?t1"
      "l_nblock f2 = 5" using fr by auto
    with g o show ?thesis by blast
  qed
  let ?r = eob_after_run
  let ?r1 = "?r\<lparr>state := BZ_X_MTF_3, bsBuff := 0, bsLive := 7, strm := (strm ?r)\<lparr>next_in := []\<rparr>\<rparr>"
  have g3: "GET_BITS BZ_X_MTF_3 (nnn BZ_X_MTF_3 ?f) ?f ?r = (Some 0, ?f1, ?r1)"
    using GET_BITS_byte [OF st(5,6), of 1 BZ_X_MTF_3 ?f] by (simp add: st fr m)
  have 4: "\<exists>s'. BZ2_decompress plain_bzlib 0 ?r = Some (Returns BZ_DATA_ERROR s')
        \<and> origPtr s' = 7 \<and> save_nblock s' = 7"
    using origPtr_checked [where lll = BZ_X_MTF_3 and f = ?f and s = ?r and v = 0 and ?f1.0 = ?f1
        and ?s1.0 = ?r1 and e = plain_bzlib and zvec = 0, THEN conjunct2, THEN conjunct2] g3
    by (simp add: BZ2_decompress_resume st fr tb BZ_MAX_ALPHA_SIZE_def BZ_RUNA_def BZ_RUNB_def)
  have 0: "l_EOB ?f = 2 \<and> l_nblock ?f = 5 \<and> row_at (perm ?s) (l_gPerm ?f) 0 = l_EOB ?f"
    by (simp add: fr tb)
  from 0 1 2 3 4 show ?thesis by blast
qed

section \<open>Symbols beyond the last selector\<close>

lemma counted_simps [simp]:
  "counted f (Fetch l f' s') =
     (l_nSelectors f' = l_nSelectors f
          \<and> (if l = BZ_X_MTF_1 \<or> l = BZ_X_MTF_3 \<or> l = BZ_X_MTF_5
              then symbols_fetched f < BZ_G_SIZE * l_nSelectors f \<and> group_ok f'
                   \<and> symbols_fetched f' = symbols_fetched f + 1
              else (l = BZ_X_MTF_2 \<or> l = BZ_X_MTF_4 \<or> l = BZ_X_MTF_6)
                   \<and> l_groupNo f' = l_groupNo f \<and> l_groupPos f' = l_groupPos f))"
  "counted f (Return r f' s')" "counted f (AssertH_fails c)" "counted f Hang"
  by (simp_all add: counted_def)

lemma counted_cong:
  "l_nSelectors g = l_nSelectors f \<Longrightarrow> l_groupNo g = l_groupNo f \<Longrightarrow> l_groupPos g = l_groupPos f
     \<Longrightarrow> counted g out = counted f out"
  by (cases out) (simp_all add: symbols_fetched_def)

lemma group_ok_cong:
  "l_nSelectors g = l_nSelectors f \<Longrightarrow> l_groupNo g = l_groupNo f \<Longrightarrow> l_groupPos g = l_groupPos f
     \<Longrightarrow> group_ok g = group_ok f"
  by (simp add: group_ok_def)

lemma block_output_nf: "block_output e f s \<noteq> Fetch l f' s'"
  unfolding block_output_def Let_def
  by (simp split: option.split)

lemma cftab_checks_nf: "cftab_checks e f s \<noteq> Fetch l f' s'"
  unfolding cftab_checks_def Let_def
  by (simp split: prod.split bool.split add: case_prod_beta block_output_nf)

lemma block_end_nf: "block_end e f s \<noteq> Fetch l f' s'"
  by (simp add: block_end_def cftab_checks_nf)

lemma counted_block_end: "counted f0 (block_end e f s)"
proof (cases "block_end e f s")
  case (Fetch l f' s')
  then show ?thesis using block_end_nf [of e f s l f' s'] by simp
qed simp_all

lemma exhausted_iff:
  "group_ok f \<Longrightarrow>
     (symbols_fetched f \<ge> BZ_G_SIZE * l_nSelectors f) = (l_groupPos f = 0 \<and> l_groupNo f + 1 \<ge> l_nSelectors f)"
  by (auto simp add: group_ok_def symbols_fetched_def BZ_G_SIZE_def)

lemma GET_MTF_VAL_group_count:
  assumes "group_ok f" "symbols_fetched f < BZ_G_SIZE * l_nSelectors f"
  shows "fst (GET_MTF_VAL_group f s)"
    "group_ok (snd (GET_MTF_VAL_group f s))"
    "l_nSelectors (snd (GET_MTF_VAL_group f s)) = l_nSelectors f"
    "symbols_fetched (snd (GET_MTF_VAL_group f s)) = symbols_fetched f + 1"
    "l_groupNo (snd (GET_MTF_VAL_group f s)) = symbols_fetched f div BZ_G_SIZE"
    "0 \<le> l_groupNo (snd (GET_MTF_VAL_group f s))"
    "l_groupNo (snd (GET_MTF_VAL_group f s)) < l_nSelectors f"
    "l_groupPos f = 0 \<Longrightarrow> l_gSel (snd (GET_MTF_VAL_group f s)) = selector s (l_groupNo f + 1)"
    "l_groupPos f \<noteq> 0 \<Longrightarrow> l_gSel (snd (GET_MTF_VAL_group f s)) = l_gSel f
        \<and> l_groupNo (snd (GET_MTF_VAL_group f s)) = l_groupNo f"
proof -
  have x: "\<not> (l_groupPos f = 0 \<and> l_groupNo f + 1 \<ge> l_nSelectors f)"
    using assms(2) exhausted_iff [OF assms(1)] by simp
  show "fst (GET_MTF_VAL_group f s)" using x by (simp add: GET_MTF_VAL_group_def Let_def)
  show "group_ok (snd (GET_MTF_VAL_group f s))"
    using x assms(1) by (auto simp add: GET_MTF_VAL_group_def Let_def group_ok_def BZ_G_SIZE_def)
  show "l_nSelectors (snd (GET_MTF_VAL_group f s)) = l_nSelectors f"
    using x by (simp add: GET_MTF_VAL_group_def Let_def)
  show "symbols_fetched (snd (GET_MTF_VAL_group f s)) = symbols_fetched f + 1"
    using x by (auto simp add: GET_MTF_VAL_group_def Let_def symbols_fetched_def BZ_G_SIZE_def)
  show "l_groupNo (snd (GET_MTF_VAL_group f s)) = symbols_fetched f div BZ_G_SIZE"
  proof (cases "l_groupPos f = 0")
    case True
    then show ?thesis using x
      by (simp add: GET_MTF_VAL_group_def Let_def symbols_fetched_def BZ_G_SIZE_def)
  next
    case False
    then have p: "0 < l_groupPos f" "l_groupPos f < 50"
      using assms(1) by (simp_all add: group_ok_def BZ_G_SIZE_def)
    have "(50 * (l_groupNo f + 1) - l_groupPos f) div 50 = l_groupNo f"
      using p by (intro int_div_pos_eq [of _ 50 _ "50 - l_groupPos f"]) simp_all
    then show ?thesis using False
      by (simp add: GET_MTF_VAL_group_def Let_def symbols_fetched_def BZ_G_SIZE_def)
  qed
  show "0 \<le> l_groupNo (snd (GET_MTF_VAL_group f s))"
    using x assms(1) by (auto simp add: GET_MTF_VAL_group_def Let_def group_ok_def)
  show "l_groupNo (snd (GET_MTF_VAL_group f s)) < l_nSelectors f"
    using x assms(1) by (auto simp add: GET_MTF_VAL_group_def Let_def group_ok_def)
  show "l_groupPos f = 0 \<Longrightarrow> l_gSel (snd (GET_MTF_VAL_group f s)) = selector s (l_groupNo f + 1)"
    using x by (simp add: GET_MTF_VAL_group_def Let_def)
  show "l_groupPos f \<noteq> 0 \<Longrightarrow> l_gSel (snd (GET_MTF_VAL_group f s)) = l_gSel f
        \<and> l_groupNo (snd (GET_MTF_VAL_group f s)) = l_groupNo f"
    by (simp add: GET_MTF_VAL_group_def Let_def)
qed

lemma GET_MTF_VAL_exhausted:
  assumes "group_ok f" "symbols_fetched f \<ge> BZ_G_SIZE * l_nSelectors f"
  shows "GET_MTF_VAL label1 f s = Return BZ_DATA_ERROR (f\<lparr>l_groupNo := l_groupNo f + 1\<rparr>) s"
  using assms exhausted_iff [OF assms(1)]
  by (simp add: GET_MTF_VAL_def GET_MTF_VAL_group_def Let_def)

lemma GET_MTF_VAL_more:
  assumes "group_ok f" "symbols_fetched f < BZ_G_SIZE * l_nSelectors f"
  shows "GET_MTF_VAL label1 f s = Fetch label1 (snd (GET_MTF_VAL_group f s)) s"
  using GET_MTF_VAL_group_count(1) [OF assms, of s]
  by (cases "GET_MTF_VAL_group f s") (simp add: GET_MTF_VAL_def)

lemma counted_GET_MTF_VAL:
  assumes "group_ok f" "label1 = BZ_X_MTF_1 \<or> label1 = BZ_X_MTF_3 \<or> label1 = BZ_X_MTF_5"
  shows "counted f (GET_MTF_VAL label1 f s)"
proof (cases "symbols_fetched f < BZ_G_SIZE * l_nSelectors f")
  case True
  show ?thesis
    unfolding GET_MTF_VAL_more [OF assms(1) True]
    using GET_MTF_VAL_group_count(2,3,4) [OF assms(1) True, of s] True assms(2) by simp
next
  case False
  then show ?thesis using GET_MTF_VAL_exhausted [OF assms(1), of label1 s] by simp
qed

lemma counted_via:
  assumes "group_ok f" "l_nSelectors g = l_nSelectors f" "l_groupNo g = l_groupNo f"
    "l_groupPos g = l_groupPos f" "label1 = BZ_X_MTF_1 \<or> label1 = BZ_X_MTF_3 \<or> label1 = BZ_X_MTF_5"
  shows "counted f (GET_MTF_VAL label1 g s)"
proof -
  have "group_ok g" using assms(1) group_ok_cong [OF assms(2,3,4)] by simp
  then have "counted g (GET_MTF_VAL label1 g s)" using assms(5) by (rule counted_GET_MTF_VAL)
  then show ?thesis using counted_cong [OF assms(2,3,4)] by simp
qed

lemma counted_run_do: "group_ok f \<Longrightarrow> counted f (run_do f s)"
  unfolding run_do_def Let_def
  by (simp add: counted_via)

lemma counted_mtf_literal: "group_ok f \<Longrightarrow> counted f (mtf_literal f s)"
  unfolding mtf_literal_def Let_def
  by (simp add: counted_via case_prod_beta)

lemma counted_mtf_while: "group_ok f \<Longrightarrow> counted f (mtf_while e f s)"
proof -
  assume g: "group_ok f"
  have "counted f (run_do (f\<lparr>l_es := - 1, l_N := 1\<rparr>) s)"
    using counted_run_do [of "f\<lparr>l_es := - 1, l_N := 1\<rparr>" s] g
      group_ok_cong [of "f\<lparr>l_es := - 1, l_N := 1\<rparr>" f] counted_cong [of "f\<lparr>l_es := - 1, l_N := 1\<rparr>" f]
    by simp
  then show ?thesis using g by (simp add: mtf_while_def counted_block_end counted_mtf_literal)
qed

lemma counted_run_end: "group_ok f \<Longrightarrow> counted f (run_end e f s)"
proof -
  assume g: "group_ok f"
  define f1 where "f1 = f\<lparr>l_es := l_es f + 1\<rparr>"
  define uc where "uc = seqToUnseq s (mtfa s (mtfbase s 0))"
  define s1 where "s1 = s\<lparr>unzftab := (unzftab s)(uc := unzftab s uc + l_es f1)\<rparr>"
  obtain b f2 s2 where ar: "append_run (smallDecompress s1) uc f1 s1 = (b, f2, s2)"
    by (cases "append_run (smallDecompress s1) uc f1 s1")
  from append_run_frame [OF ar] obtain nb es where f2: "f2 = f1\<lparr>l_nblock := nb, l_es := es\<rparr>" by blast
  have k: "l_nSelectors f2 = l_nSelectors f" "l_groupNo f2 = l_groupNo f" "l_groupPos f2 = l_groupPos f"
    by (simp_all add: f2 f1_def)
  have "group_ok f2" using g group_ok_cong [OF k] by simp
  then have "counted f2 (mtf_while e f2 s2)" by (rule counted_mtf_while)
  then have c: "counted f (mtf_while e f2 s2)" using counted_cong [OF k] by simp
  have "run_end e f s = (if b then mtf_while e f2 s2 else Return BZ_DATA_ERROR f2 s2)"
    unfolding run_end_def Let_def uc_def [symmetric] f1_def [symmetric] s1_def [symmetric]
    by (simp add: ar)
  then show ?thesis using c by simp
qed

lemma counted_after_GET_MTF_VAL: "group_ok f \<Longrightarrow> counted f (after_GET_MTF_VAL e label1 f s)"
  by (simp add: after_GET_MTF_VAL_def counted_run_do counted_run_end counted_mtf_while)

lemma counted_GET_MTF_VAL_while:
  assumes "group_ok f" "label2 = BZ_X_MTF_2 \<or> label2 = BZ_X_MTF_4 \<or> label2 = BZ_X_MTF_6"
  shows "counted f (GET_MTF_VAL_while e label1 label2 f s)"
proof -
  have "counted f (after_GET_MTF_VAL e label1 (f\<lparr>l_nextSym := x\<rparr>) s)" for x
    using counted_after_GET_MTF_VAL [of "f\<lparr>l_nextSym := x\<rparr>" e label1 s] assms(1)
      group_ok_cong [of "f\<lparr>l_nextSym := x\<rparr>" f] counted_cong [of "f\<lparr>l_nextSym := x\<rparr>" f]
    by simp
  then show ?thesis using assms(2) by (auto simp add: GET_MTF_VAL_while_def)
qed

lemma counted_after_fetch:
  assumes "lll \<in> {BZ_X_MTF_1, BZ_X_MTF_2, BZ_X_MTF_3, BZ_X_MTF_4, BZ_X_MTF_5, BZ_X_MTF_6}" "group_ok f"
  shows "counted f (after_fetch e lll v f s)"
proof -
  have w: "counted f (GET_MTF_VAL_while e label1 label2 g s)"
    if "label2 = BZ_X_MTF_2 \<or> label2 = BZ_X_MTF_4 \<or> label2 = BZ_X_MTF_6"
      "l_nSelectors g = l_nSelectors f" "l_groupNo g = l_groupNo f" "l_groupPos g = l_groupPos f"
    for label1 label2 g
  proof -
    have "group_ok g" using assms(2) group_ok_cong [OF that(2,3,4)] by simp
    then have "counted g (GET_MTF_VAL_while e label1 label2 g s)"
      using that(1) by (rule counted_GET_MTF_VAL_while)
    then show ?thesis using counted_cong [OF that(2,3,4)] by simp
  qed
  from assms(1) show ?thesis by (auto simp add: Let_def w)
qed

lemma exhausted_GET:
  assumes "group_ok f" "symbols_fetched f \<ge> BZ_G_SIZE * l_nSelectors f"
    "l_nSelectors g = l_nSelectors f" "l_groupNo g = l_groupNo f" "l_groupPos g = l_groupPos f"
  shows "GET_MTF_VAL label1 g s = Return BZ_DATA_ERROR (g\<lparr>l_groupNo := l_groupNo g + 1\<rparr>) s"
proof -
  have "group_ok g" using assms(1) group_ok_cong [OF assms(3,4,5)] by simp
  moreover have "symbols_fetched g \<ge> BZ_G_SIZE * l_nSelectors g"
    using assms(2,3,4,5) by (simp add: symbols_fetched_def)
  ultimately show ?thesis by (rule GET_MTF_VAL_exhausted)
qed

lemma exhausted_run_do:
  assumes "group_ok f" "symbols_fetched f \<ge> BZ_G_SIZE * l_nSelectors f"
  shows "\<exists>f' s'. run_do f s = Return BZ_DATA_ERROR f' s'"
  unfolding run_do_def Let_def
  by (simp add: exhausted_GET [OF assms])

lemma exhausted_mtf_literal:
  assumes "group_ok f" "symbols_fetched f \<ge> BZ_G_SIZE * l_nSelectors f"
  shows "\<exists>f' s'. mtf_literal f s = Return BZ_DATA_ERROR f' s'"
  unfolding mtf_literal_def Let_def
  by (simp add: exhausted_GET [OF assms] case_prod_beta)

lemma exhausted_mtf_while:
  assumes "group_ok f" "symbols_fetched f \<ge> BZ_G_SIZE * l_nSelectors f" "l_nextSym f \<noteq> l_EOB f"
  shows "\<exists>f' s'. mtf_while e f s = Return BZ_DATA_ERROR f' s'"
proof -
  have k: "group_ok (f\<lparr>l_es := - 1, l_N := 1\<rparr>)"
    "symbols_fetched (f\<lparr>l_es := - 1, l_N := 1\<rparr>) \<ge> BZ_G_SIZE * l_nSelectors (f\<lparr>l_es := - 1, l_N := 1\<rparr>)"
    using assms(1,2) by (simp_all add: group_ok_def symbols_fetched_def)
  show ?thesis
    using assms(3) exhausted_run_do [OF k, of s] exhausted_mtf_literal [OF assms(1,2), of s]
    by (simp add: mtf_while_def)
qed

lemma exhausted_run_end:
  assumes "group_ok f" "symbols_fetched f \<ge> BZ_G_SIZE * l_nSelectors f" "l_nextSym f \<noteq> l_EOB f"
  shows "\<exists>f' s'. run_end e f s = Return BZ_DATA_ERROR f' s'"
proof -
  define f1 where "f1 = f\<lparr>l_es := l_es f + 1\<rparr>"
  define uc where "uc = seqToUnseq s (mtfa s (mtfbase s 0))"
  define s1 where "s1 = s\<lparr>unzftab := (unzftab s)(uc := unzftab s uc + l_es f1)\<rparr>"
  obtain b f2 s2 where ar: "append_run (smallDecompress s1) uc f1 s1 = (b, f2, s2)"
    by (cases "append_run (smallDecompress s1) uc f1 s1")
  from append_run_frame [OF ar] obtain nb es where f2: "f2 = f1\<lparr>l_nblock := nb, l_es := es\<rparr>" by blast
  have k: "group_ok f2" "symbols_fetched f2 \<ge> BZ_G_SIZE * l_nSelectors f2" "l_nextSym f2 \<noteq> l_EOB f2"
    using assms by (simp_all add: f2 f1_def group_ok_def symbols_fetched_def)
  have "run_end e f s = (if b then mtf_while e f2 s2 else Return BZ_DATA_ERROR f2 s2)"
    unfolding run_end_def Let_def uc_def [symmetric] f1_def [symmetric] s1_def [symmetric]
    by (simp add: ar)
  then show ?thesis using exhausted_mtf_while [OF k, of e s2] by simp
qed

lemma exhausted_after_GET_MTF_VAL:
  assumes "group_ok f" "symbols_fetched f \<ge> BZ_G_SIZE * l_nSelectors f" "l_nextSym f \<noteq> l_EOB f"
  shows "\<exists>f' s'. after_GET_MTF_VAL e label1 f s = Return BZ_DATA_ERROR f' s'"
  using exhausted_run_do [OF assms(1,2), of s] exhausted_run_end [OF assms, of e s]
    exhausted_mtf_while [OF assms, of e s]
  by (simp add: after_GET_MTF_VAL_def)

text \<open>
  C9.  (1) With the counters in order, \<open>GET_MTF_VAL\<close> returns \<open>BZ_DATA_ERROR\<close> exactly when
  \<open>50 * nSelectors\<close> symbols have been fetched, and otherwise goes to its fetch.  (2) When it
  goes on, the count grows by one, the group in use is \<open>selector[count div 50]\<close> with
  \<open>0 <= count div 50 < nSelectors\<close>, read only when a group begins: no selector is used for
  more than its 50 symbols and none is read past \<open>nSelectors\<close>.  (3) The block starts with
  the count 0.  (4) The code after every fetch of the loop keeps the count, or counts one
  symbol more at the first fetch of the next symbol.  (5) When the symbol completed by a
  fetch is not EOB and \<open>50 * nSelectors\<close> symbols have been fetched, the call returns
  \<open>BZ_DATA_ERROR\<close>.
\<close>

theorem selectors_exhausted:
  "(group_ok f \<longrightarrow>
      GET_MTF_VAL label1 f s
        = (if symbols_fetched f \<ge> BZ_G_SIZE * l_nSelectors f
           then Return BZ_DATA_ERROR (f\<lparr>l_groupNo := l_groupNo f + 1\<rparr>) s
           else Fetch label1 (snd (GET_MTF_VAL_group f s)) s))
   \<and> (group_ok f \<and> symbols_fetched f < BZ_G_SIZE * l_nSelectors f \<and> f' = snd (GET_MTF_VAL_group f s)
       \<longrightarrow> group_ok f' \<and> l_nSelectors f' = l_nSelectors f
         \<and> symbols_fetched f' = symbols_fetched f + 1
         \<and> l_groupNo f' = symbols_fetched f div BZ_G_SIZE
         \<and> 0 \<le> l_groupNo f' \<and> l_groupNo f' < l_nSelectors f
         \<and> l_gSel f' = (if l_groupPos f = 0 then selector s (l_groupNo f') else l_gSel f))
   \<and> (\<exists>f0 s0. mtf_start f s = GET_MTF_VAL BZ_X_MTF_1 f0 s0 \<and> symbols_fetched f0 = 0
         \<and> l_nSelectors f0 = l_nSelectors f \<and> (0 \<le> l_nSelectors f \<longrightarrow> group_ok f0))
   \<and> (lll \<in> {BZ_X_MTF_1, BZ_X_MTF_2, BZ_X_MTF_3, BZ_X_MTF_4, BZ_X_MTF_5, BZ_X_MTF_6} \<and> group_ok f
       \<longrightarrow> counted f (after_fetch e lll v f s))
   \<and> (lll \<in> {BZ_X_MTF_1, BZ_X_MTF_2, BZ_X_MTF_3, BZ_X_MTF_4, BZ_X_MTF_5, BZ_X_MTF_6}
       \<and> GET_BITS lll (nnn lll f) f s = (Some v, f1, s1)
       \<and> group_ok f1 \<and> symbols_fetched f1 \<ge> BZ_G_SIZE * l_nSelectors f1
       \<and> zvec = (if lll \<in> {BZ_X_MTF_1, BZ_X_MTF_3, BZ_X_MTF_5} then v else push_bit 1 (l_zvec f1) OR v)
       \<and> l_zn f1 \<le> 20 \<and> zvec \<le> row_at (limit s1) (l_gLimit f1) (l_zn f1)
       \<and> 0 \<le> zvec - row_at (base s1) (l_gBase f1) (l_zn f1)
       \<and> zvec - row_at (base s1) (l_gBase f1) (l_zn f1) < BZ_MAX_ALPHA_SIZE
       \<and> row_at (perm s1) (l_gPerm f1) (zvec - row_at (base s1) (l_gBase f1) (l_zn f1)) \<noteq> l_EOB f1
       \<longrightarrow> (\<exists>s'. run e lll f s = Some (Returns BZ_DATA_ERROR s')))"
proof (intro conjI impI)
  assume g: "group_ok f"
  show "GET_MTF_VAL label1 f s
        = (if symbols_fetched f \<ge> BZ_G_SIZE * l_nSelectors f
           then Return BZ_DATA_ERROR (f\<lparr>l_groupNo := l_groupNo f + 1\<rparr>) s
           else Fetch label1 (snd (GET_MTF_VAL_group f s)) s)"
    using GET_MTF_VAL_exhausted [OF g, of label1 s] GET_MTF_VAL_more [OF g, of label1 s] by simp
next
  assume a: "group_ok f \<and> symbols_fetched f < BZ_G_SIZE * l_nSelectors f \<and> f' = snd (GET_MTF_VAL_group f s)"
  then have g: "group_ok f" and l: "symbols_fetched f < BZ_G_SIZE * l_nSelectors f"
    and f': "f' = snd (GET_MTF_VAL_group f s)" by simp_all
  note c = GET_MTF_VAL_group_count [OF g l, of s]
  show "group_ok f'" "l_nSelectors f' = l_nSelectors f" "symbols_fetched f' = symbols_fetched f + 1"
    "l_groupNo f' = symbols_fetched f div BZ_G_SIZE" "0 \<le> l_groupNo f'" "l_groupNo f' < l_nSelectors f"
    unfolding f' using c(2-7) by simp_all
  show "l_gSel f' = (if l_groupPos f = 0 then selector s (l_groupNo f') else l_gSel f)"
  proof (cases "l_groupPos f = 0")
    case True
    have "\<not> l_groupNo f + 1 \<ge> l_nSelectors f" using l exhausted_iff [OF g] True by simp
    then have "l_groupNo f' = l_groupNo f + 1"
      unfolding f' using True by (simp add: GET_MTF_VAL_group_def Let_def)
    then show ?thesis unfolding f' using c(8) True by simp
  next
    case False
    then show ?thesis unfolding f' using c(9) by simp
  qed
next
  show "\<exists>f0 s0. mtf_start f s = GET_MTF_VAL BZ_X_MTF_1 f0 s0 \<and> symbols_fetched f0 = 0
         \<and> l_nSelectors f0 = l_nSelectors f \<and> (0 \<le> l_nSelectors f \<longrightarrow> group_ok f0)"
    unfolding mtf_start_def Let_def
    by (rule exI, rule exI, rule conjI, rule refl)
       (simp add: symbols_fetched_def group_ok_def BZ_G_SIZE_def)
next
  assume "lll \<in> {BZ_X_MTF_1, BZ_X_MTF_2, BZ_X_MTF_3, BZ_X_MTF_4, BZ_X_MTF_5, BZ_X_MTF_6} \<and> group_ok f"
  then show "counted f (after_fetch e lll v f s)" using counted_after_fetch by blast
next
  assume h: "lll \<in> {BZ_X_MTF_1, BZ_X_MTF_2, BZ_X_MTF_3, BZ_X_MTF_4, BZ_X_MTF_5, BZ_X_MTF_6}
       \<and> GET_BITS lll (nnn lll f) f s = (Some v, f1, s1)
       \<and> group_ok f1 \<and> symbols_fetched f1 \<ge> BZ_G_SIZE * l_nSelectors f1
       \<and> zvec = (if lll \<in> {BZ_X_MTF_1, BZ_X_MTF_3, BZ_X_MTF_5} then v else push_bit 1 (l_zvec f1) OR v)
       \<and> l_zn f1 \<le> 20 \<and> zvec \<le> row_at (limit s1) (l_gLimit f1) (l_zn f1)
       \<and> 0 \<le> zvec - row_at (base s1) (l_gBase f1) (l_zn f1)
       \<and> zvec - row_at (base s1) (l_gBase f1) (l_zn f1) < BZ_MAX_ALPHA_SIZE
       \<and> row_at (perm s1) (l_gPerm f1) (zvec - row_at (base s1) (l_gBase f1) (l_zn f1)) \<noteq> l_EOB f1"
  from h obtain label1 f2 where af: "after_fetch e lll v f1 s1 = after_GET_MTF_VAL e label1 f2 s1"
      "l_nSelectors f2 = l_nSelectors f1" "l_groupNo f2 = l_groupNo f1" "l_groupPos f2 = l_groupPos f1"
      "l_nextSym f2 \<noteq> l_EOB f2"
    by (auto simp add: Let_def GET_MTF_VAL_while_def)
  have k: "group_ok f2" "symbols_fetched f2 \<ge> BZ_G_SIZE * l_nSelectors f2"
    using h af(2,3,4) by (simp_all add: group_ok_def symbols_fetched_def)
  from exhausted_after_GET_MTF_VAL [OF k af(5), of e label1 s1] obtain f3 s3 where
    "after_fetch e lll v f1 s1 = Return BZ_DATA_ERROR f3 s3" unfolding af(1) by blast
  from run_Return_code [OF _ this, of f s] h
  show "\<exists>s'. run e lll f s = Some (Returns BZ_DATA_ERROR s')" by auto
qed

theorem selectors_exhausted_witness:
  "group_ok (restore 0 last_group) \<and> symbols_fetched (restore 0 last_group) = 50
   \<and> l_nSelectors (restore 0 last_group) = 1
   \<and> (\<exists>f'. GET_MTF_VAL BZ_X_MTF_5 (restore 0 last_group) last_group
          = Return BZ_DATA_ERROR f' last_group)
   \<and> (\<exists>s'. BZ2_decompress plain_bzlib 0 last_group = Some (Returns BZ_DATA_ERROR s'))
   \<and> group_ok (restore 0 eob_session) \<and> symbols_fetched (restore 0 eob_session) = 1
   \<and> symbols_fetched (snd (GET_MTF_VAL_group (restore 0 eob_session) eob_session)) = 2
   \<and> l_groupNo (snd (GET_MTF_VAL_group (restore 0 eob_session) eob_session)) = 0
   \<and> GET_MTF_VAL BZ_X_MTF_5 (restore 0 eob_session) eob_session
       = Fetch BZ_X_MTF_5 (snd (GET_MTF_VAL_group (restore 0 eob_session) eob_session)) eob_session
   \<and> counted (restore 0 eob_session)
        (after_fetch plain_bzlib BZ_X_MTF_1 0 (restore 0 eob_session) eob_session)
   \<and> (\<exists>f0 s0. mtf_start (restore 0 eob_session) eob_session = GET_MTF_VAL BZ_X_MTF_1 f0 s0
          \<and> symbols_fetched f0 = 0 \<and> group_ok f0)"
proof -
  let ?s = last_group and ?f = "restore 0 last_group"
  let ?t = eob_session and ?g = "restore 0 eob_session"
  let ?f1 = "?f\<lparr>l_total_in := 1\<rparr>"
  have fr: "l_groupNo ?f = 0" "l_groupPos ?f = 0" "l_nSelectors ?f = 1" "l_total_in ?f = 0"
    "l_zn ?f = 1" "l_EOB ?f = 4" "l_gLimit ?f = Row 0" "l_gBase ?f = Row 0" "l_gPerm ?f = Row 0"
    by (simp_all add: last_group_def eob_session_def new_session_def restore_def U32_TO_U64_def)
  have gr: "l_groupNo ?g = 0" "l_groupPos ?g = 49" "l_nSelectors ?g = 1"
    by (simp_all add: eob_session_def new_session_def restore_def)
  have st: "bsLive ?s = 0" "next_in (strm ?s) = [0x80]" "bsBuff ?s = 0" "state ?s = BZ_X_MTF_1"
    "limit ?s = (\<lambda>t k. 1)" "base ?s = (\<lambda>t k. 0)" "perm ?s = (\<lambda>t k. k + 2)"
    by (simp_all add: last_group_def eob_session_def new_session_def)
  have ok: "group_ok ?f" "symbols_fetched ?f = 50" "group_ok ?g" "symbols_fetched ?g = 1"
    by (simp_all add: group_ok_def symbols_fetched_def fr gr BZ_G_SIZE_def)
  note t1 = selectors_exhausted [where f = ?f and s = ?s and ?label1.0 = BZ_X_MTF_5, THEN conjunct1]
  have 1: "\<exists>f'. GET_MTF_VAL BZ_X_MTF_5 ?f ?s = Return BZ_DATA_ERROR f' ?s"
    using t1 ok fr by (simp add: BZ_G_SIZE_def)
  have m: "uint (drop_bit 7 (128 :: 32 word) AND mask 1) = 1" by (simp add: drop_bit_eq_div)
  let ?s1 = "?s\<lparr>state := BZ_X_MTF_1, bsBuff := 128, bsLive := 7, strm := (strm ?s)\<lparr>next_in := []\<rparr>\<rparr>"
  have g1: "GET_BITS BZ_X_MTF_1 (nnn BZ_X_MTF_1 ?f) ?f ?s = (Some 1, ?f1, ?s1)"
    using GET_BITS_byte [OF st(1,2), of 1 BZ_X_MTF_1 ?f] by (simp add: st fr m)
  have ok1: "group_ok ?f1" "symbols_fetched ?f1 = 50"
    using ok by (simp_all add: group_ok_def symbols_fetched_def)
  have 2: "\<exists>s'. BZ2_decompress plain_bzlib 0 ?s = Some (Returns BZ_DATA_ERROR s')"
    using selectors_exhausted [where lll = BZ_X_MTF_1 and f = ?f and s = ?s and v = 1 and ?f1.0 = ?f1
        and ?s1.0 = ?s1 and e = plain_bzlib and zvec = 1,
        THEN conjunct2, THEN conjunct2, THEN conjunct2, THEN conjunct2] g1 ok1
    by (simp add: BZ2_decompress_resume st fr BZ_MAX_ALPHA_SIZE_def BZ_G_SIZE_def)
  note t3 = selectors_exhausted [where f = ?g and s = ?t and f' = "snd (GET_MTF_VAL_group ?g ?t)",
      THEN conjunct2, THEN conjunct1]
  have 3: "symbols_fetched (snd (GET_MTF_VAL_group ?g ?t)) = 2"
    "l_groupNo (snd (GET_MTF_VAL_group ?g ?t)) = 0"
    using t3 ok gr by (simp_all add: BZ_G_SIZE_def)
  have 4: "GET_MTF_VAL BZ_X_MTF_5 ?g ?t = Fetch BZ_X_MTF_5 (snd (GET_MTF_VAL_group ?g ?t)) ?t"
    using selectors_exhausted [where f = ?g and s = ?t and ?label1.0 = BZ_X_MTF_5, THEN conjunct1] ok gr
    by (simp add: BZ_G_SIZE_def)
  have 5: "counted ?g (after_fetch plain_bzlib BZ_X_MTF_1 0 ?g ?t)"
    using selectors_exhausted [where f = ?g and lll = BZ_X_MTF_1 and e = plain_bzlib and v = 0 and s = ?t,
        THEN conjunct2, THEN conjunct2, THEN conjunct2, THEN conjunct1] ok
    by simp
  have 6: "\<exists>f0 s0. mtf_start ?g ?t = GET_MTF_VAL BZ_X_MTF_1 f0 s0 \<and> symbols_fetched f0 = 0 \<and> group_ok f0"
    using selectors_exhausted [where f = ?g and s = ?t,
        THEN conjunct2, THEN conjunct2, THEN conjunct1] gr
    by auto
  from ok fr(3) 1 2 3 4 5 6 show ?thesis by blast
qed

section \<open>The length of a run and what it appends\<close>

lemma es_spec_Nil [simp]: "es_spec [] = 0"
  by (simp add: es_spec_def)

















end
